(* ===== verification/C_Base.thy ===== *)
theory C_Base
  imports Main "HOL-Library.Word" "HOL-Library.Monad_Syntax"
begin

unbundle bit_operations_syntax

text \<open>
  The part of C that the library relies on, shared by every component.

  \<^item> Integers: \<open>unsigned int\<close> is \<open>32 word\<close>; its conversion to \<open>int\<close> is the two's complement
    reading \<open>sint\<close>. A C \<open>int\<close> that only holds indices, sizes and return codes is HOL's \<open>int\<close>.
  \<^item> Static arrays are functions on indices; every access goes through \<open>rd\<close> / \<open>wr\<close>, which check
    the declared size. \<open>None\<close> is undefined behaviour: an access outside the array, a call
    through a NULL function pointer, a copy past the end of a buffer. Definitions are written in
    the option monad, so undefined behaviour is never hidden by a total HOL function.
  \<^item> A C string is its characters without the terminating NUL; \<open>snprintf n\<close> keeps the first
    \<open>n - 1\<close> of them.
\<close>

named_theorems c_arr \<comment> \<open>array reads and writes\<close>
named_theorems c_fmt \<comment> \<open>string formatting\<close>
named_theorems c_ub \<comment> \<open>an operation is defined: no undefined behaviour\<close>

type_synonym u8 = "8 word"
type_synonym u32 = "32 word"

section \<open>Static arrays\<close>

definition rd :: "nat \<Rightarrow> (nat \<Rightarrow> 'a) \<Rightarrow> int \<Rightarrow> 'a option" where
  "rd n f i = (if 0 \<le> i \<and> i < int n then Some (f (nat i)) else None)"

definition wr :: "nat \<Rightarrow> (nat \<Rightarrow> 'a) \<Rightarrow> int \<Rightarrow> 'a \<Rightarrow> (nat \<Rightarrow> 'a) option" where
  "wr n f i x = (if 0 \<le> i \<and> i < int n then Some (f(nat i := x)) else None)"

lemma rd_in [c_arr]: "0 \<le> i \<Longrightarrow> i < int n \<Longrightarrow> rd n f i = Some (f (nat i))"
  by (simp add: rd_def)

lemma wr_in [c_arr]: "0 \<le> i \<Longrightarrow> i < int n \<Longrightarrow> wr n f i x = Some (f(nat i := x))"
  by (simp add: wr_def)

lemma rd_out [c_arr]: "i < 0 \<or> int n \<le> i \<Longrightarrow> rd n f i = None"
  by (auto simp: rd_def)

lemma wr_out [c_arr]: "i < 0 \<or> int n \<le> i \<Longrightarrow> wr n f i x = None"
  by (auto simp: wr_def)

lemma rd_SomeD: "rd n f i = Some x \<Longrightarrow> 0 \<le> i \<and> i < int n \<and> x = f (nat i)"
  by (auto simp: rd_def split: if_splits)

lemma wr_SomeD: "wr n f i x = Some g \<Longrightarrow> 0 \<le> i \<and> i < int n \<and> g = f(nat i := x)"
  by (auto simp: wr_def split: if_splits)

section \<open>Strings\<close>

definition NUL :: char where
  "NUL = CHR 0x00"

text \<open>\<open>snprintf(buf, n, ...)\<close>: at most \<open>n - 1\<close> characters and the terminator.\<close>

definition snprintf :: "nat \<Rightarrow> string \<Rightarrow> string" where
  "snprintf n s = take (n - 1) s"

lemma snprintf_fits [c_fmt]: "length s < n \<Longrightarrow> snprintf n s = s"
  by (simp add: snprintf_def)

lemma length_snprintf: "0 < n \<Longrightarrow> length (snprintf n s) < n"
  by (auto simp: snprintf_def)

text \<open>The string held by a character array: up to the first NUL; \<open>None\<close> when there is none, since
  reading it as a string then leaves the array.\<close>

definition cstr_of_array :: "string \<Rightarrow> string option" where
  "cstr_of_array buf = (if NUL \<in> set buf then Some (takeWhile (\<lambda>c. c \<noteq> NUL) buf) else None)"

lemma cstr_of_array_terminated:
  "NUL \<notin> set s \<Longrightarrow> cstr_of_array (s @ NUL # junk) = Some s"
  by (induction s) (auto simp: cstr_of_array_def)

text \<open>\<open>strncmp(a, b, n) == 0\<close> and \<open>strstr(hay, needle) != NULL\<close> on NUL-free strings.\<close>

definition strncmp_eq :: "string \<Rightarrow> string \<Rightarrow> nat \<Rightarrow> bool" where
  "strncmp_eq a b n \<longleftrightarrow> take n (a @ [NUL]) = take n (b @ [NUL])"

fun is_prefix :: "string \<Rightarrow> string \<Rightarrow> bool" where
  "is_prefix [] ys = True"
| "is_prefix (x # xs) [] = False"
| "is_prefix (x # xs) (y # ys) = (x = y \<and> is_prefix xs ys)"

fun strstr_found :: "string \<Rightarrow> string \<Rightarrow> bool" where
  "strstr_found [] needle = is_prefix needle []"
| "strstr_found (h # hs) needle = (is_prefix needle (h # hs) \<or> strstr_found hs needle)"

lemma is_prefix_iff: "is_prefix xs ys \<longleftrightarrow> (\<exists>zs. ys = xs @ zs)"
  by (induction xs ys rule: is_prefix.induct) auto

lemma strstr_found_iff: "strstr_found hay needle \<longleftrightarrow> (\<exists>a b. hay = a @ needle @ b)"
proof (induction hay)
  case Nil
  then show ?case by (auto simp: is_prefix_iff)
next
  case (Cons h hs)
  show ?case
  proof
    assume "strstr_found (h # hs) needle"
    then consider "is_prefix needle (h # hs)" | "strstr_found hs needle" by auto
    then show "\<exists>a b. h # hs = a @ needle @ b"
    proof cases
      case 1
      then show ?thesis by (metis append_Nil is_prefix_iff)
    next
      case 2
      then show ?thesis using Cons.IH by (metis append_Cons)
    qed
  next
    assume "\<exists>a b. h # hs = a @ needle @ b"
    then obtain a b where eq: "h # hs = a @ needle @ b" by blast
    show "strstr_found (h # hs) needle"
    proof (cases a)
      case Nil
      with eq have "is_prefix needle (h # hs)" by (auto simp: is_prefix_iff)
      then show ?thesis by simp
    next
      case (Cons x xs)
      with eq have "hs = xs @ needle @ b" by simp
      with Cons.IH show ?thesis by auto
    qed
  qed
qed

section \<open>Printing integers\<close>

definition hex_char :: "nat \<Rightarrow> char" where
  "hex_char d = ''0123456789abcdef'' ! d"

definition hex_upper :: "char \<Rightarrow> char" where
  "hex_upper c = (case map_of (zip ''abcdef'' ''ABCDEF'') c of None \<Rightarrow> c | Some d \<Rightarrow> d)"

fun digits :: "nat \<Rightarrow> nat \<Rightarrow> string" where
  "digits b n = (if n < b \<or> b < 2 then [hex_char n] else digits b (n div b) @ [hex_char (n mod b)])"

declare digits.simps [simp del]

definition fmt_u :: "u32 \<Rightarrow> string" where
  "fmt_u w = digits 10 (unat w)"

text \<open>\<open>%d\<close> applied to an \<open>unsigned int\<close> prints its two's complement reading.\<close>

definition fmt_d :: "int \<Rightarrow> string" where
  "fmt_d i = (if i < 0 then CHR ''-'' # digits 10 (nat (- i)) else digits 10 (nat i))"

definition fmt_x :: "u32 \<Rightarrow> string" where
  "fmt_x w = digits 16 (unat w)"

text \<open>\<open>%08X\<close>: upper case, padded with zeros to eight places.\<close>

definition fmt_08X :: "u32 \<Rightarrow> string" where
  "fmt_08X w = (let s = map hex_upper (digits 16 (unat w)) in replicate (8 - length s) CHR ''0'' @ s)"

text \<open>Printing is injective: the digits can be read back.\<close>

definition hex_val :: "char \<Rightarrow> nat" where
  "hex_val c = (if of_char c < (58::nat) then of_char c - 48 else of_char c - 87)"

definition undigits :: "nat \<Rightarrow> string \<Rightarrow> nat" where
  "undigits b s = foldl (\<lambda>n c. n * b + hex_val c) 0 s"

lemma hex_val_hex_char: "d < 16 \<Longrightarrow> hex_val (hex_char d) = d"
proof -
  have "\<forall>d \<in> set [0..<16]. hex_val (hex_char d) = d" by code_simp
  then show "d < 16 \<Longrightarrow> ?thesis" by simp
qed

lemma digits_one: "n < b \<Longrightarrow> digits b n = [hex_char n]"
  by (subst digits.simps) simp

lemma digits_more: "b \<le> n \<Longrightarrow> 2 \<le> b \<Longrightarrow> digits b n = digits b (n div b) @ [hex_char (n mod b)]"
  by (subst digits.simps) simp

lemma undigits_snoc: "undigits b (s @ [c]) = undigits b s * b + hex_val c"
  by (simp add: undigits_def)

lemma undigits_digits:
  assumes "2 \<le> b" and "b \<le> 16"
  shows "undigits b (digits b n) = n"
proof (induction n rule: less_induct)
  case (less n)
  show ?case
  proof (cases "n < b")
    case True
    then show ?thesis
      using assms(2) undigits_snoc [of b "[]"] by (simp add: digits_one hex_val_hex_char undigits_def)
  next
    case False
    have "n mod b < 16" using assms mod_less_divisor [of b n] by linarith
    moreover have "undigits b (digits b (n div b)) = n div b"
      using False assms by (intro less.IH) auto
    moreover have "digits b n = digits b (n div b) @ [hex_char (n mod b)]"
      using False assms(1) by (intro digits_more) auto
    ultimately show ?thesis by (simp only: undigits_snoc hex_val_hex_char div_mult_mod_eq)
  qed
qed

lemma digits_inject:
  "2 \<le> b \<Longrightarrow> b \<le> 16 \<Longrightarrow> digits b m = digits b n \<longleftrightarrow> m = n"
  by (metis undigits_digits)

lemma hex_char_in: "d < 16 \<Longrightarrow> hex_char d \<in> set ''0123456789abcdef''"
  by (simp add: hex_char_def del: set_simps)

lemma set_digits:
  assumes "2 \<le> b" and "b \<le> 16"
  shows "set (digits b n) \<subseteq> set ''0123456789abcdef''"
proof (induction n rule: less_induct)
  case (less n)
  show ?case
  proof (cases "n < b")
    case True
    then show ?thesis
      using assms(2) hex_char_in [of n] by (simp add: digits_one del: set_simps) auto
  next
    case False
    have "n mod b < 16" using assms mod_less_divisor [of b n] by linarith
    then have "hex_char (n mod b) \<in> set ''0123456789abcdef''" by (rule hex_char_in)
    moreover have "set (digits b (n div b)) \<subseteq> set ''0123456789abcdef''"
      using False assms by (intro less.IH) auto
    moreover have "digits b n = digits b (n div b) @ [hex_char (n mod b)]"
      using False assms(1) by (intro digits_more) auto
    ultimately show ?thesis by (simp only: set_append list.set Un_subset_iff insert_subset) simp
  qed
qed

lemma length_digits:
  assumes "n < b ^ k" and "0 < k" and "2 \<le> b"
  shows "length (digits b n) \<le> k"
  using assms
proof (induction k arbitrary: n)
  case 0
  then show ?case by simp
next
  case (Suc k)
  show ?case
  proof (cases "n < b")
    case True
    then show ?thesis by (simp add: digits_one)
  next
    case False
    then have "n div b < b ^ k" "0 < k"
      using Suc.prems by (auto simp: less_mult_imp_div_less mult.commute intro: gr0I)
    then have "length (digits b (n div b)) \<le> k" using Suc by blast
    then show ?thesis using False Suc.prems by (simp add: digits_more)
  qed
qed

lemma length_fmt_x: "length (fmt_x w) \<le> 8"
proof -
  have "unat w < 16 ^ 8" using unsigned_less [of w, where ?'a = nat] by simp
  then show ?thesis unfolding fmt_x_def by (rule length_digits) simp_all
qed

lemma slash_notin_digits: "2 \<le> b \<Longrightarrow> b \<le> 16 \<Longrightarrow> CHR ''/'' \<notin> set (digits b n)"
  using set_digits [of b n] by auto

lemma NUL_notin_fmt_x: "NUL \<notin> set (fmt_x w)"
  using set_digits [of 16 "unat w"] by (auto simp: fmt_x_def NUL_def)

lemma fmt_x_inject: "fmt_x v = fmt_x w \<longleftrightarrow> v = w"
  by (simp add: fmt_x_def digits_inject word_unat_eq_iff)

lemma minus_notin_digits: "2 \<le> b \<Longrightarrow> b \<le> 16 \<Longrightarrow> CHR ''-'' \<notin> set (digits b n)"
  using set_digits [of b n] by auto

lemma fmt_d_inject: "fmt_d i = fmt_d j \<longleftrightarrow> i = j"
proof
  assume eq: "fmt_d i = fmt_d j"
  have nm: "CHR ''-'' # xs \<noteq> digits 10 n" for xs n
  proof
    assume "CHR ''-'' # xs = digits 10 n"
    then have "CHR ''-'' \<in> set (digits 10 n)" by (metis list.set_intros(1))
    then show False using minus_notin_digits [of 10 n] by simp
  qed
  show "i = j"
    using eq nm nm [THEN not_sym] by (auto simp: fmt_d_def digits_inject split: if_splits)
qed simp

lemma slash_notin_fmt_d: "CHR ''/'' \<notin> set (fmt_d i)"
  by (simp add: fmt_d_def slash_notin_digits)

lemma slash_notin_fmt_x: "CHR ''/'' \<notin> set (fmt_x w)"
  by (simp add: fmt_x_def slash_notin_digits)

text \<open>Splitting a path at its first separator is unambiguous.\<close>

lemma slash_split:
  assumes "a @ CHR ''/'' # x = b @ CHR ''/'' # y" and "CHR ''/'' \<notin> set a" and "CHR ''/'' \<notin> set b"
  shows "a = b \<and> x = y"
proof -
  have "takeWhile (\<lambda>c. c \<noteq> CHR ''/'') (a @ CHR ''/'' # x) = a"
    "takeWhile (\<lambda>c. c \<noteq> CHR ''/'') (b @ CHR ''/'' # y) = b"
    using assms(2,3) by (induction a, auto, induction b, auto)
  with assms(1) show ?thesis by simp
qed

section \<open>Loops over an index range\<close>

text \<open>A loop whose step for \<open>x\<close> establishes \<open>P x\<close>, and keeps it at every other step, establishes it for
  all indices it visits.\<close>

lemma fold_establish:
  assumes "\<And>y s. I s \<Longrightarrow> I (f y s)" and "\<And>s. I s \<Longrightarrow> P (f x s)" and "\<And>y s. I s \<Longrightarrow> P s \<Longrightarrow> P (f y s)"
    and "x \<in> set xs" and "I s"
  shows "P (fold f xs s)"
proof -
  have keep: "P (fold f ys s)" if "P s" "I s" for ys s
    using that by (induction ys arbitrary: s) (auto intro: assms(1,3))
  show ?thesis
    using assms(4,5)
  proof (induction xs arbitrary: s)
    case Nil
    then show ?case by simp
  next
    case (Cons y ys)
    then show ?case
      using Cons.IH [of "f y s"] keep [of "f x s" ys] assms(1,2) by auto
  qed
qed

lemma fold_keeps: "(\<And>y s. I s \<Longrightarrow> I (f y s)) \<Longrightarrow> I s \<Longrightarrow> I (fold f ys s)"
  by (induction ys arbitrary: s) auto

end
