(* ===== verification/Crc32.thy ===== *)
theory Crc32
  imports C_Base
begin

text \<open>
  The checksum (\<open>src/crc32.c\<close>). \<open>pclCrc32\<close> is the table-driven routine of the source; \<open>crc_ref\<close> is the
  bit-by-bit CRC-32 it stands for (reflected polynomial \<open>0xEDB88320\<close>). The source guards the table
  lookup with \<open>idx < crc32_array_size\<close> where \<open>crc32_array_size\<close> is 255, one less than the length of
  the table, so a byte whose index is 255 leaves the register unchanged; \<open>skips\<close> says when a
  message meets that case. The lemmas show that the table is right, that the routine equals the
  reference on every message without such a byte, that it then detects every change of one byte,
  and which messages it cannot tell apart.
\<close>

unbundle bit_operations_syntax

section \<open>The source's routine\<close>

definition crc32_array_size :: nat where
  "crc32_array_size = 255"

definition crc32_tab :: "u32 list" where
  "crc32_tab = [
   0x00000000, 0x77073096, 0xee0e612c, 0x990951ba, 0x076dc419, 0x706af48f,
   0xe963a535, 0x9e6495a3, 0x0edb8832, 0x79dcb8a4, 0xe0d5e91e, 0x97d2d988,
   0x09b64c2b, 0x7eb17cbd, 0xe7b82d07, 0x90bf1d91, 0x1db71064, 0x6ab020f2,
   0xf3b97148, 0x84be41de, 0x1adad47d, 0x6ddde4eb, 0xf4d4b551, 0x83d385c7,
   0x136c9856, 0x646ba8c0, 0xfd62f97a, 0x8a65c9ec, 0x14015c4f, 0x63066cd9,
   0xfa0f3d63, 0x8d080df5, 0x3b6e20c8, 0x4c69105e, 0xd56041e4, 0xa2677172,
   0x3c03e4d1, 0x4b04d447, 0xd20d85fd, 0xa50ab56b, 0x35b5a8fa, 0x42b2986c,
   0xdbbbc9d6, 0xacbcf940, 0x32d86ce3, 0x45df5c75, 0xdcd60dcf, 0xabd13d59,
   0x26d930ac, 0x51de003a, 0xc8d75180, 0xbfd06116, 0x21b4f4b5, 0x56b3c423,
   0xcfba9599, 0xb8bda50f, 0x2802b89e, 0x5f058808, 0xc60cd9b2, 0xb10be924,
   0x2f6f7c87, 0x58684c11, 0xc1611dab, 0xb6662d3d, 0x76dc4190, 0x01db7106,
   0x98d220bc, 0xefd5102a, 0x71b18589, 0x06b6b51f, 0x9fbfe4a5, 0xe8b8d433,
   0x7807c9a2, 0x0f00f934, 0x9609a88e, 0xe10e9818, 0x7f6a0dbb, 0x086d3d2d,
   0x91646c97, 0xe6635c01, 0x6b6b51f4, 0x1c6c6162, 0x856530d8, 0xf262004e,
   0x6c0695ed, 0x1b01a57b, 0x8208f4c1, 0xf50fc457, 0x65b0d9c6, 0x12b7e950,
   0x8bbeb8ea, 0xfcb9887c, 0x62dd1ddf, 0x15da2d49, 0x8cd37cf3, 0xfbd44c65,
   0x4db26158, 0x3ab551ce, 0xa3bc0074, 0xd4bb30e2, 0x4adfa541, 0x3dd895d7,
   0xa4d1c46d, 0xd3d6f4fb, 0x4369e96a, 0x346ed9fc, 0xad678846, 0xda60b8d0,
   0x44042d73, 0x33031de5, 0xaa0a4c5f, 0xdd0d7cc9, 0x5005713c, 0x270241aa,
   0xbe0b1010, 0xc90c2086, 0x5768b525, 0x206f85b3, 0xb966d409, 0xce61e49f,
   0x5edef90e, 0x29d9c998, 0xb0d09822, 0xc7d7a8b4, 0x59b33d17, 0x2eb40d81,
   0xb7bd5c3b, 0xc0ba6cad, 0xedb88320, 0x9abfb3b6, 0x03b6e20c, 0x74b1d29a,
   0xead54739, 0x9dd277af, 0x04db2615, 0x73dc1683, 0xe3630b12, 0x94643b84,
   0x0d6d6a3e, 0x7a6a5aa8, 0xe40ecf0b, 0x9309ff9d, 0x0a00ae27, 0x7d079eb1,
   0xf00f9344, 0x8708a3d2, 0x1e01f268, 0x6906c2fe, 0xf762575d, 0x806567cb,
   0x196c3671, 0x6e6b06e7, 0xfed41b76, 0x89d32be0, 0x10da7a5a, 0x67dd4acc,
   0xf9b9df6f, 0x8ebeeff9, 0x17b7be43, 0x60b08ed5, 0xd6d6a3e8, 0xa1d1937e,
   0x38d8c2c4, 0x4fdff252, 0xd1bb67f1, 0xa6bc5767, 0x3fb506dd, 0x48b2364b,
   0xd80d2bda, 0xaf0a1b4c, 0x36034af6, 0x41047a60, 0xdf60efc3, 0xa867df55,
   0x316e8eef, 0x4669be79, 0xcb61b38c, 0xbc66831a, 0x256fd2a0, 0x5268e236,
   0xcc0c7795, 0xbb0b4703, 0x220216b9, 0x5505262f, 0xc5ba3bbe, 0xb2bd0b28,
   0x2bb45a92, 0x5cb36a04, 0xc2d7ffa7, 0xb5d0cf31, 0x2cd99e8b, 0x5bdeae1d,
   0x9b64c2b0, 0xec63f226, 0x756aa39c, 0x026d930a, 0x9c0906a9, 0xeb0e363f,
   0x72076785, 0x05005713, 0x95bf4a82, 0xe2b87a14, 0x7bb12bae, 0x0cb61b38,
   0x92d28e9b, 0xe5d5be0d, 0x7cdcefb7, 0x0bdbdf21, 0x86d3d2d4, 0xf1d4e242,
   0x68ddb3f8, 0x1fda836e, 0x81be16cd, 0xf6b9265b, 0x6fb077e1, 0x18b74777,
   0x88085ae6, 0xff0f6a70, 0x66063bca, 0x11010b5c, 0x8f659eff, 0xf862ae69,
   0x616bffd3, 0x166ccf45, 0xa00ae278, 0xd70dd2ee, 0x4e048354, 0x3903b3c2,
   0xa7672661, 0xd06016f7, 0x4969474d, 0x3e6e77db, 0xaed16a4a, 0xd9d65adc,
   0x40df0b66, 0x37d83bf0, 0xa9bcae53, 0xdebb9ec5, 0x47b2cf7f, 0x30b5ffe9,
   0xbdbdf21c, 0xcabac28a, 0x53b39330, 0x24b4a3a6, 0xbad03605, 0xcdd70693,
   0x54de5729, 0x23d967bf, 0xb3667a2e, 0xc4614ab8, 0x5d681b02, 0x2a6f2b94,
   0xb40bbe37, 0xc30c8ea1, 0x5a05df1b, 0x2d02ef8d
  ]"

text \<open>One round of the loop.\<close>

definition crc32_step :: "u32 \<Rightarrow> u8 \<Rightarrow> u32" where
  "crc32_step crc b =
     (let idx = unat ((crc XOR ucast b) AND 0xFF)
      in if idx < crc32_array_size then crc32_tab ! idx XOR drop_bit 8 crc else crc)"

text \<open>The loop reads \<open>theSize\<close> bytes through \<open>p\<close>: past the end of the buffer the read is undefined.\<close>

fun crc32_loop :: "u32 \<Rightarrow> u8 list \<Rightarrow> nat \<Rightarrow> u32 option" where
  "crc32_loop crc p 0 = Some crc"
| "crc32_loop crc [] (Suc n) = None"
| "crc32_loop crc (b # p) (Suc n) = crc32_loop (crc32_step crc b) p n"

text \<open>\<open>None\<close> as the buffer is the NULL pointer.\<close>

definition pclCrc32 :: "u32 \<Rightarrow> u8 list option \<Rightarrow> nat \<Rightarrow> u32 option" where
  "pclCrc32 crc buf theSize =
     (case buf of
        None \<Rightarrow> Some 0
      | Some p \<Rightarrow> do {
          crc' \<leftarrow> crc32_loop (crc XOR NOT 0) p theSize;
          Some (crc' XOR NOT 0)
        })"

text \<open>The whole buffer, as every caller in the library passes it.\<close>

definition crc32_bytes :: "u32 \<Rightarrow> u8 list \<Rightarrow> u32" where
  "crc32_bytes crc xs = foldl crc32_step (crc XOR NOT 0) xs XOR NOT 0"

section \<open>The reference\<close>

definition crc_bit :: "u32 \<Rightarrow> u32" where
  "crc_bit c = (if bit c 0 then drop_bit 1 c XOR 0xEDB88320 else drop_bit 1 c)"

definition crc_byte :: "u32 \<Rightarrow> u8 \<Rightarrow> u32" where
  "crc_byte c b = (crc_bit ^^ 8) (c XOR ucast b)"

definition crc_ref :: "u32 \<Rightarrow> u8 list \<Rightarrow> u32" where
  "crc_ref crc xs = foldl crc_byte (crc XOR NOT 0) xs XOR NOT 0"

text \<open>The register, xored with the byte, ends in eight ones: the index that the source skips.\<close>

definition skips_at :: "u32 \<Rightarrow> u8 \<Rightarrow> bool" where
  "skips_at c b \<longleftrightarrow> (c XOR ucast b) AND 0xFF = 0xFF"

fun skips_from :: "u32 \<Rightarrow> u8 list \<Rightarrow> bool" where
  "skips_from c [] = False"
| "skips_from c (b # bs) = (skips_at c b \<or> skips_from (crc_byte c b) bs)"

definition skips :: "u32 \<Rightarrow> u8 list \<Rightarrow> bool" where
  "skips crc xs = skips_from (crc XOR NOT 0) xs"

section \<open>The table is the reference on one byte\<close>

lemma crc32_tab_length: "length crc32_tab = 256"
  by (simp add: crc32_tab_def)

lemma crc_bit_xor: "crc_bit (a XOR b) = crc_bit a XOR crc_bit b"
  by (auto simp: crc_bit_def bit_simps intro!: bit_eqI)

lemma crc_bit_pow_xor: "(crc_bit ^^ n) (a XOR b) = (crc_bit ^^ n) a XOR (crc_bit ^^ n) b"
  by (induction n) (simp_all add: crc_bit_xor)

lemma crc_bit_pow_low_zero:
  "(\<And>i. i < n \<Longrightarrow> \<not> bit c i) \<Longrightarrow> (crc_bit ^^ n) c = drop_bit n c"
proof (induction n)
  case 0
  then show ?case by simp
next
  case (Suc n)
  then have "(crc_bit ^^ Suc n) c = crc_bit (drop_bit n c)" by simp
  also have "\<dots> = drop_bit (Suc n) c"
    using Suc.prems [of n] by (simp add: crc_bit_def bit_simps)
  finally show ?case .
qed

lemma crc_bit_numeral:
  "crc_bit 0 = 0" "crc_bit 1 = 0xEDB88320"
  "crc_bit (numeral (num.Bit0 n)) = drop_bit 1 (numeral (num.Bit0 n))"
  "crc_bit (numeral (num.Bit1 n)) = drop_bit 1 (numeral (num.Bit1 n)) XOR 0xEDB88320"
  by (simp_all add: crc_bit_def bit_0)

lemma crc_bit_neg: "crc_bit (- numeral n) = crc_bit (word_of_int (4294967296 - numeral n))"
proof -
  have "(word_of_int (4294967296 - numeral n) :: u32) = word_of_int 4294967296 - word_of_int (numeral n)"
    by (rule of_int_diff)
  moreover have "(word_of_int 4294967296 :: u32) = 0" by simp
  moreover have "(word_of_int (numeral n) :: u32) = numeral n" by (rule of_int_numeral)
  ultimately show ?thesis by (simp only: diff_0)
qed

lemma pow8: "(f ^^ 8) x = f (f (f (f (f (f (f (f x)))))))"
  by (simp add: numeral_eq_Suc)

text \<open>Because the reference is linear, the table doubles: its upper half is its lower half xored with
  the entry of the new bit.\<close>

definition pow8_table :: "nat \<Rightarrow> u32 list" where
  "pow8_table k = map (\<lambda>i. (crc_bit ^^ 8) (word_of_nat i)) [0..<2 ^ k]"

lemma word_of_nat_add_power:
  assumes "i < 2 ^ k"
  shows "2 ^ k + word_of_nat i = (word_of_nat i XOR 2 ^ k :: u32)"
proof -
  have "\<not> bit i n" if "k \<le> n" for n
  proof -
    have "i < 2 ^ n" using assms that by (meson less_le_trans one_le_numeral power_increasing)
    then show ?thesis by (simp add: bit_iff_odd)
  qed
  then have "word_of_nat i AND (2 ^ k :: u32) = 0"
    by (intro bit_word_eqI) (auto simp: bit_simps)
  then show ?thesis
    by (simp add: add.commute disjunctive_xor_eq_or disjunctive_add_eq_or)
qed

lemma pow8_table_0: "pow8_table 0 = [0]"
  by (simp add: pow8_table_def pow8 crc_bit_numeral)

lemma pow8_table_Suc:
  "pow8_table (Suc k) = pow8_table k @ map (\<lambda>x. x XOR (crc_bit ^^ 8) (2 ^ k)) (pow8_table k)"
proof -
  have "[0..<2 ^ Suc k] = [0..<2 ^ k] @ map (\<lambda>i. 2 ^ k + i) [0..<(2 ^ k :: nat)]"
    using upt_add_eq_append [of 0 "2 ^ k" "2 ^ k"] map_add_upt [of "2 ^ k" "2 ^ k"]
    by (simp add: add.commute mult_2)
  then show ?thesis
    by (simp add: pow8_table_def word_of_nat_add_power crc_bit_pow_xor del: upt_rec_numeral)
qed

lemma crc32_tab_map: "pow8_table 8 = crc32_tab"
proof -
  have "pow8_table (Suc (Suc (Suc (Suc (Suc (Suc (Suc (Suc 0)))))))) = crc32_tab"
    by (simp add: pow8_table_Suc pow8_table_0 pow8 crc_bit_numeral crc32_tab_def)
  then show ?thesis by (simp add: numeral_eq_Suc)
qed

lemma crc32_tab_nth: "i < 256 \<Longrightarrow> crc32_tab ! i = (crc_bit ^^ 8) (word_of_nat i)"
  by (simp add: pow8_table_def del: upt_rec_numeral flip: crc32_tab_map)

lemma ff_mask: "(0xFF :: u32) = mask 8"
  by (simp add: mask_numeral)

lemma low_byte_bound: "unat (c AND 0xFF :: u32) < 256"
proof -
  have "c AND 0xFF \<le> (0xFF :: u32)" by (rule word_and_le1)
  then show ?thesis by (simp add: word_le_nat_alt)
qed

lemma crc_pow8_split:
  "(crc_bit ^^ 8) c = (crc_bit ^^ 8) (c AND 0xFF) XOR drop_bit 8 c"
proof -
  have "c = (c AND 0xFF) XOR (c AND NOT 0xFF)"
    by (auto intro!: bit_eqI simp: bit_simps)
  then have "(crc_bit ^^ 8) c = (crc_bit ^^ 8) (c AND 0xFF) XOR (crc_bit ^^ 8) (c AND NOT 0xFF)"
    by (metis crc_bit_pow_xor)
  also have "(crc_bit ^^ 8) (c AND NOT 0xFF) = drop_bit 8 (c AND NOT 0xFF)"
    by (rule crc_bit_pow_low_zero) (simp add: ff_mask bit_simps)
  also have "drop_bit 8 (c AND NOT 0xFF) = drop_bit 8 c"
    using bit_imp_le_length [of c] by (intro bit_word_eqI) (fastforce simp: ff_mask bit_simps)
  finally show ?thesis .
qed

section \<open>The routine against the reference\<close>

lemma crc32_step_ref: "\<not> skips_at c b \<Longrightarrow> crc32_step c b = crc_byte c b"
  and crc32_step_skip: "skips_at c b \<Longrightarrow> crc32_step c b = c"
proof -
  let ?v = "c XOR ucast b"
  have low: "drop_bit 8 (ucast b :: u32) = 0"
    using bit_imp_le_length [of b] by (intro bit_word_eqI) (fastforce simp: bit_simps)
  have d: "drop_bit 8 ?v = drop_bit 8 c" using low by (simp add: drop_bit_xor)
  have wn: "word_of_nat (unat (?v AND 0xFF)) = ?v AND 0xFF" by simp
  show "crc32_step c b = crc_byte c b" if "\<not> skips_at c b"
  proof -
    have "unat (?v AND 0xFF) \<noteq> 255"
    proof
      assume "unat (?v AND 0xFF) = 255"
      then have "?v AND 0xFF = 0xFF" using wn by simp
      with that show False by (simp add: skips_at_def)
    qed
    with low_byte_bound [of ?v] have "unat (?v AND 0xFF) < 255" by simp
    then have "crc32_step c b = (crc_bit ^^ 8) (?v AND 0xFF) XOR drop_bit 8 c"
      using crc32_tab_nth [of "unat (?v AND 0xFF)"] low_byte_bound [of ?v]
      by (simp add: crc32_step_def crc32_array_size_def Let_def)
    also have "\<dots> = crc_byte c b"
      using crc_pow8_split [of ?v] d by (simp add: crc_byte_def)
    finally show ?thesis .
  qed
  show "crc32_step c b = c" if "skips_at c b"
    using that by (simp add: skips_at_def crc32_step_def crc32_array_size_def)
qed

lemma foldl_step_ref: "\<not> skips_from c xs \<Longrightarrow> foldl crc32_step c xs = foldl crc_byte c xs"
  by (induction c xs rule: skips_from.induct) (simp_all add: crc32_step_ref)

lemma skips_from_append:
  "skips_from c (xs @ ys) \<longleftrightarrow> skips_from c xs \<or> skips_from (foldl crc_byte c xs) ys"
  by (induction xs arbitrary: c) auto

lemma crc32_loop_full: "crc32_loop c xs (length xs) = Some (foldl crc32_step c xs)"
  by (induction xs arbitrary: c) simp_all

lemma crc32_loop_overread: "length xs < n \<Longrightarrow> crc32_loop c xs n = None"
  by (induction c xs n rule: crc32_loop.induct) simp_all

lemma crc32_loop_prefix: "n \<le> length xs \<Longrightarrow> crc32_loop c xs n = crc32_loop c (take n xs) n"
  by (induction c xs n rule: crc32_loop.induct) simp_all

lemma pclCrc32_bytes: "pclCrc32 crc (Some xs) (length xs) = Some (crc32_bytes crc xs)"
  by (simp add: pclCrc32_def crc32_bytes_def crc32_loop_full)

lemma pclCrc32_defined:
  "pclCrc32 crc (Some xs) n = (if n \<le> length xs then Some (crc32_bytes crc (take n xs)) else None)"
proof (cases "n \<le> length xs")
  case True
  then have "crc32_loop c xs n = Some (foldl crc32_step c (take n xs))" for c
    using crc32_loop_full [of c "take n xs"] crc32_loop_prefix [of n xs c] by simp
  with True show ?thesis by (simp add: pclCrc32_def crc32_bytes_def)
next
  case False
  then show ?thesis by (simp add: pclCrc32_def crc32_loop_overread)
qed

section \<open>Detection\<close>

lemma xor_right_inj: "a XOR c = b XOR c \<Longrightarrow> a = (b :: u32)"
proof -
  assume "a XOR c = b XOR c"
  then have "(a XOR c) XOR c = (b XOR c) XOR c" by (rule arg_cong)
  then show "a = b" by (simp add: xor.assoc)
qed

lemma crc_bit_inj: "crc_bit a = crc_bit b \<Longrightarrow> a = b"
proof -
  assume eq: "crc_bit a = crc_bit b"
  have top: "bit (crc_bit c) 31 = bit c 0" for c
    using bit_imp_le_length [of c 32] by (auto simp: crc_bit_def bit_simps)
  with eq have low: "bit a 0 = bit b 0" by metis
  then have "drop_bit 1 a = drop_bit 1 b"
    using eq unfolding crc_bit_def by (auto split: if_splits dest: xor_right_inj)
  then have "bit (drop_bit 1 a) n = bit (drop_bit 1 b) n" for n by simp
  then have "bit a (Suc n) = bit b (Suc n)" for n by (simp add: bit_simps)
  with low have "bit a n = bit b n" for n by (cases n) auto
  then show "a = b" by (intro bit_word_eqI) simp
qed

lemma crc_bit_pow_inj: "(crc_bit ^^ n) a = (crc_bit ^^ n) b \<Longrightarrow> a = b"
  by (induction n) (auto dest: crc_bit_inj)

lemma crc_byte_inj_reg: "crc_byte a x = crc_byte b x \<Longrightarrow> a = b"
  unfolding crc_byte_def by (drule crc_bit_pow_inj) (rule xor_right_inj)

lemma crc_byte_inj_byte:
  assumes "crc_byte c x = crc_byte c y"
  shows "x = y"
proof -
  have "c XOR ucast x = c XOR (ucast y :: u32)"
    using assms unfolding crc_byte_def by (rule crc_bit_pow_inj)
  then have "ucast x XOR c = ucast y XOR c" by (simp only: xor.commute)
  then have "(ucast x :: u32) = ucast y" by (rule xor_right_inj)
  then have "bit (ucast x :: u32) n = bit (ucast y :: u32) n" for n by simp
  then show "x = y" by (intro bit_word_eqI) (fastforce simp: bit_simps)
qed

lemma foldl_crc_byte_inj: "foldl crc_byte a xs = foldl crc_byte b xs \<Longrightarrow> a = b"
  by (induction xs arbitrary: a b) (auto dest: crc_byte_inj_reg)

lemma crc32_bytes_ref: "\<not> skips crc xs \<Longrightarrow> crc32_bytes crc xs = crc_ref crc xs"
  by (simp add: skips_def crc32_bytes_def crc_ref_def foldl_step_ref)

lemma crc_ref_change:
  assumes "a \<noteq> b"
  shows "crc_ref crc (xs @ a # ys) \<noteq> crc_ref crc (xs @ b # ys)"
proof
  let ?r = "foldl crc_byte (crc XOR NOT 0) xs"
  assume "crc_ref crc (xs @ a # ys) = crc_ref crc (xs @ b # ys)"
  then have "foldl crc_byte (crc_byte ?r a) ys = foldl crc_byte (crc_byte ?r b) ys"
    unfolding crc_ref_def by (auto dest: xor_right_inj)
  then have "crc_byte ?r a = crc_byte ?r b" by (rule foldl_crc_byte_inj)
  with assms show False by (auto dest: crc_byte_inj_byte)
qed

text \<open>The byte that the routine does not see, for a register value.\<close>

definition blind_byte :: "u32 \<Rightarrow> u8" where
  "blind_byte c = ucast (c XOR 0xFF)"

lemma skips_at_blind: "skips_at c (blind_byte c)"
  unfolding skips_at_def blind_byte_def
  by (intro bit_word_eqI) (auto simp: ff_mask bit_simps)

lemma crc32_step_blind: "crc32_step c (blind_byte c) = c"
  by (rule crc32_step_skip [OF skips_at_blind])

section \<open>Properties\<close>

text \<open>C23: on every message in which no byte meets the table index 255, the table-driven
  \<open>pclCrc32\<close> returns the CRC-32 of the message, computed bit by bit.\<close>

theorem pclCrc32_is_crc:
  assumes "\<not> skips crc xs"
  shows "pclCrc32 crc (Some xs) (length xs) = Some (crc_ref crc xs)"
  using assms by (simp add: pclCrc32_bytes crc32_bytes_ref)

text \<open>The check value of CRC-32: the message is the text 123456789.\<close>

definition crc_check_msg :: "u8 list" where
  "crc_check_msg = [0x31, 0x32, 0x33, 0x34, 0x35, 0x36, 0x37, 0x38, 0x39]"

lemma crc_check_eval:
  "skips 0 crc_check_msg \<longleftrightarrow> False" "crc_ref 0 crc_check_msg = 0xCBF43926"
  by (simp_all add: skips_def skips_at_def crc_ref_def crc_check_msg_def crc_byte_def pow8 crc_bit_neg crc_bit_numeral)

theorem pclCrc32_is_crc_witness:
  "\<not> skips 0 crc_check_msg \<and> pclCrc32 0 (Some crc_check_msg) 9 = Some 0xCBF43926"
proof -
  have "length crc_check_msg = 9" by (simp add: crc_check_msg_def)
  then show ?thesis using pclCrc32_is_crc [of 0 crc_check_msg] crc_check_eval by simp
qed

text \<open>The checksum detects the change of any one byte of a message, wherever it is, when the
  routine sees every byte of both versions.\<close>

theorem pclCrc32_detects_byte_change:
  assumes "a \<noteq> b" and "\<not> skips crc (xs @ a # ys)" and "\<not> skips crc (xs @ b # ys)"
  shows "pclCrc32 crc (Some (xs @ a # ys)) (length (xs @ a # ys))
       \<noteq> pclCrc32 crc (Some (xs @ b # ys)) (length (xs @ b # ys))"
  unfolding pclCrc32_bytes crc32_bytes_ref [OF assms(2)] crc32_bytes_ref [OF assms(3)]
  using crc_ref_change [OF assms(1), of crc xs ys] by simp

theorem pclCrc32_detects_byte_change_witness:
  "pclCrc32 0 (Some [0x31, 0x32, 0x33]) 3 \<noteq> pclCrc32 0 (Some [0x31, 0x35, 0x33]) 3"
proof -
  have s: "\<not> skips 0 [0x31, 0x32, 0x33]" "\<not> skips 0 [0x31, 0x35, 0x33]"
    by (simp_all add: skips_def skips_at_def crc_byte_def pow8 crc_bit_neg crc_bit_numeral)
  show ?thesis
    using pclCrc32_detects_byte_change [of "0x32" "0x35" 0 "[0x31]" "[0x33]"] s
    by (simp add: numeral_3_eq_3)
qed

text \<open>At every position of every message there is a byte that the routine does not see: a
  message with that byte inserted has the same checksum. At the start of a message (initial value
  0, as in every call of the library) it is the byte 0, so leading zeros are not protected.\<close>

theorem pclCrc32_blind:
  "pclCrc32 0 (Some (0 # ys)) (Suc (length ys)) = pclCrc32 0 (Some ys) (length ys) \<and>
   (\<exists>b. pclCrc32 crc (Some (xs @ b # ys)) (length (xs @ b # ys))
      = pclCrc32 crc (Some (xs @ ys)) (length (xs @ ys)))"
proof
  have "blind_byte (0 XOR NOT 0) = 0"
    unfolding blind_byte_def by (intro bit_word_eqI) (auto simp: ff_mask bit_simps)
  then have "crc32_step (0 XOR NOT 0) 0 = 0 XOR NOT 0" by (metis crc32_step_blind)
  then show "pclCrc32 0 (Some (0 # ys)) (Suc (length ys)) = pclCrc32 0 (Some ys) (length ys)"
    using pclCrc32_bytes [of 0 "0 # ys"] by (simp add: pclCrc32_bytes crc32_bytes_def)
next
  let ?b = "blind_byte (foldl crc32_step (crc XOR NOT 0) xs)"
  have "crc32_bytes crc (xs @ ?b # ys) = crc32_bytes crc (xs @ ys)"
    by (simp add: crc32_bytes_def crc32_step_blind)
  then show "\<exists>b. pclCrc32 crc (Some (xs @ b # ys)) (length (xs @ b # ys))
      = pclCrc32 crc (Some (xs @ ys)) (length (xs @ ys))"
    by (metis pclCrc32_bytes)
qed

text \<open>The routine can be fed in pieces, and it reads exactly the \<open>theSize\<close> bytes it is given:
  a size past the end of the buffer is an access outside it.\<close>

theorem pclCrc32_chunks_and_bounds:
  "Option.bind (pclCrc32 crc (Some xs) (length xs)) (\<lambda>c. pclCrc32 c (Some ys) (length ys))
     = pclCrc32 crc (Some (xs @ ys)) (length (xs @ ys)) \<and>
   (pclCrc32 crc (Some xs) n = None \<longleftrightarrow> length xs < n) \<and> pclCrc32 crc None n = Some 0"
proof (intro conjI)
  have h: "(a XOR NOT 0) XOR NOT 0 = (a :: u32)" for a by (simp add: xor.assoc)
  show "Option.bind (pclCrc32 crc (Some xs) (length xs)) (\<lambda>c. pclCrc32 c (Some ys) (length ys))
     = pclCrc32 crc (Some (xs @ ys)) (length (xs @ ys))"
    by (simp only: pclCrc32_bytes Option.bind.simps crc32_bytes_def foldl_append h)
  show "pclCrc32 crc (Some xs) n = None \<longleftrightarrow> length xs < n" by (simp add: pclCrc32_defined)
  show "pclCrc32 crc None n = Some 0" by (simp add: pclCrc32_def)
qed

end
