(* ===== verification/Data_Organization.thy ===== *)
theory Data_Organization
  imports C_Base
begin

text \<open>
  The data organisation shared by all components
  (\<open>src/persistence_client_library_data_organization.[ch]\<close>) and the error codes
  (\<open>include/persistence_client_library_error_def.h\<close>).

  Names that come from the headers of the persistence common object (libperscommon), which is
  not part of this repository, are fields of the record \<open>pers_consts\<close>: buffer sizes, folder names,
  the values of its enumerations. Nothing is assumed of them but what \<open>consts_ok\<close> states.
\<close>

named_theorems c_const \<comment> \<open>array sizes\<close>

section \<open>Error codes\<close>

definition EPERS_COMMON :: int where [simp]: "EPERS_COMMON = - 1"
definition EPERS_LOCKFS :: int where [simp]: "EPERS_LOCKFS = - 2"
definition EPERS_BADPOL :: int where [simp]: "EPERS_BADPOL = - 3"
definition EPERS_MAXHANDLE :: int where [simp]: "EPERS_MAXHANDLE = - 4"
definition EPERS_BUFLIMIT :: int where [simp]: "EPERS_BUFLIMIT = - 5"
definition EPERS_NOPRCTABLE :: int where [simp]: "EPERS_NOPRCTABLE = - 6"
definition EPERS_NOKEY :: int where [simp]: "EPERS_NOKEY = - 7"
definition EPERS_NOKEYDATA :: int where [simp]: "EPERS_NOKEYDATA = - 8"
definition EPERS_DESER_ALLOCMEM :: int where [simp]: "EPERS_DESER_ALLOCMEM = - 12"
definition EPERS_NOPLUGINFUNCT :: int where [simp]: "EPERS_NOPLUGINFUNCT = - 24"
definition EPERS_DLOPENERROR :: int where [simp]: "EPERS_DLOPENERROR = - 23"
definition EPERS_DB_ERROR_INTERNAL :: int where [simp]: "EPERS_DB_ERROR_INTERNAL = - 27"
definition EPERS_NOTIFY_SIG :: int where [simp]: "EPERS_NOTIFY_SIG = - 31"
definition EPERS_NOT_INITIALIZED :: int where [simp]: "EPERS_NOT_INITIALIZED = - 32"
definition EPERS_DBUS_MAINLOOP :: int where [simp]: "EPERS_DBUS_MAINLOOP = - 34"
definition EPERS_REGISTER_LIFECYCLE :: int where [simp]: "EPERS_REGISTER_LIFECYCLE = - 35"
definition EPERS_REGISTER_ADMIN :: int where [simp]: "EPERS_REGISTER_ADMIN = - 36"
definition EPERS_NOTIFY_NOT_ALLOWED :: int where [simp]: "EPERS_NOTIFY_NOT_ALLOWED = - 37"
definition EPERS_RESOURCE_NO_FILE :: int where [simp]: "EPERS_RESOURCE_NO_FILE = - 38"
definition EPERS_RESOURCE_READ_ONLY :: int where [simp]: "EPERS_RESOURCE_READ_ONLY = - 39"
definition EPERS_SHUTDOWN_MAX_CANCEL :: int where [simp]: "EPERS_SHUTDOWN_MAX_CANCEL = - 40"
definition EPERS_SHUTDOWN_NO_PERMIT :: int where [simp]: "EPERS_SHUTDOWN_NO_PERMIT = - 42"
definition EPERS_INVALID_HANDLE :: int where [simp]: "EPERS_INVALID_HANDLE = - 1000"

section \<open>Constants\<close>

definition DONT_CREATE_BACKUP :: int where [simp]: "DONT_CREATE_BACKUP = 0"
definition CREATE_BACKUP :: int where [simp]: "CREATE_BACKUP = 1"
definition ResIsNoFile :: int where [simp]: "ResIsNoFile = 0"
definition ResIsFile :: int where [simp]: "ResIsFile = 1"
definition AccessNoLock :: int where [simp]: "AccessNoLock = 1"
definition PCLnotInitialized :: int where [simp]: "PCLnotInitialized = 0"
definition PCLinitialized :: int where [simp]: "PCLinitialized = 1"
definition FileClosed :: int where [simp]: "FileClosed = 1"
definition FileOpen :: int where [simp]: "FileOpen = 1"
definition Shutdown_Partial :: int where [simp]: "Shutdown_Partial = 0"
definition Shutdown_Full :: int where [simp]: "Shutdown_Full = 1"
definition Shutdown_MaxCount :: int where [simp]: "Shutdown_MaxCount = 3"
definition NsmShutdownNormal :: int where [simp]: "NsmShutdownNormal = 1"
definition NsmErrorStatus_OK :: int where [simp]: "NsmErrorStatus_OK = 1"
definition NsmErrorStatus_Fail :: int where [simp]: "NsmErrorStatus_Fail = - 1"
definition PasMsg_Block :: int where [simp]: "PasMsg_Block = 1"
definition PasMsg_Unblock :: int where [simp]: "PasMsg_Unblock = 2"
definition PasMsg_WriteBack :: int where [simp]: "PasMsg_WriteBack = 16"
definition PasErrorStatus_RespPend :: int where [simp]: "PasErrorStatus_RespPend = 1"
definition PasErrorStatus_OK :: int where [simp]: "PasErrorStatus_OK = 2"
definition PasErrorStatus_FAIL :: int where [simp]: "PasErrorStatus_FAIL = 32768"
definition ChecksumBufSize :: nat where [c_const]: "ChecksumBufSize = 64"
definition MaxPersHandle :: nat where [c_const]: "MaxPersHandle = 128"
definition TOKENARRAYSIZE :: nat where [c_const]: "TOKENARRAYSIZE = 255"
definition PrctDbTableSize :: nat where [c_const]: "PrctDbTableSize = 1024"
definition DbTableSize :: nat where [c_const]: "DbTableSize = 1024"

section \<open>Constants of libperscommon\<close>

record pers_consts =
  PERS_ORG_ROOT_PATH :: string
  PERS_ORG_USER_FOLDER_NAME :: string
  PERS_ORG_SEAT_FOLDER_NAME :: string
  PERS_ORG_DEFAULT_DATA_FOLDER_NAME :: string
  gNode :: string
  gUser :: string
  gSeat :: string
  gLocalWt :: string
  gLocalCached :: string
  gLocalConfigurableDefault :: string
  gLocalFactoryDefault :: string
  gResTableCfg :: string
  PERS_DB_MAX_LENGTH_KEY_NAME :: nat
  PERS_ORG_MAX_LENGTH_PATH_FILENAME :: nat
  PERS_RCT_MAX_LENGTH_RESPONSIBLE :: nat
  PERS_RCT_MAX_LENGTH_CUSTOM_NAME :: nat
  PERS_DB_MAX_SIZE_KEY_DATA :: int
  PersistencePolicy_wc :: int
  PersistencePolicy_wt :: int
  PersistencePolicy_LastEntry :: int
  PersistenceStorage_local :: int
  PersistenceStorage_shared :: int
  PersistenceStorage_custom :: int
  PersistenceStorage_LastEntry :: int
  PersistenceResourceType_key :: int
  PersistenceResourceType_file :: int
  PersistencePermission_ReadWrite :: int
  PersistencePermission_ReadOnly :: int
  PersistencePermission_WriteOnly :: int
  PersistencePermission_LastEntry :: int
  PERS_COM_ERR_NOT_FOUND :: int
  sizeof_PersistenceConfigurationKey :: int

text \<open>What the code relies on: the documented values of the enumerators (each enumeration counts from
  0 and ends with its \<open>LastEntry\<close>); error codes of the library are negative; buffers are not empty;
  the folder names used in keys are not empty.\<close>

definition consts_ok :: "'a pers_consts_scheme \<Rightarrow> bool" where
  "consts_ok c \<longleftrightarrow>
     PersistencePolicy_wc c = 0 \<and> PersistencePolicy_wt c = 1 \<and> 1 < PersistencePolicy_LastEntry c \<and>
     PersistenceStorage_local c = 0 \<and> PersistenceStorage_shared c = 1 \<and>
     PersistenceStorage_custom c = 2 \<and> PersistenceStorage_LastEntry c = 3 \<and>
     PersistenceResourceType_key c = 0 \<and> PersistenceResourceType_file c = 1 \<and>
     PersistencePermission_ReadWrite c = 0 \<and> PersistencePermission_ReadOnly c = 1 \<and>
     PersistencePermission_WriteOnly c = 2 \<and> PersistencePermission_LastEntry c = 3 \<and>
     PERS_COM_ERR_NOT_FOUND c < 0 \<and> 0 \<le> sizeof_PersistenceConfigurationKey c \<and>
     0 < PERS_DB_MAX_LENGTH_KEY_NAME c \<and> 0 < PERS_ORG_MAX_LENGTH_PATH_FILENAME c \<and>
     0 < PERS_RCT_MAX_LENGTH_RESPONSIBLE c \<and> gNode c \<noteq> [] \<and> gUser c \<noteq> []"

definition DbKeyMaxLen :: "'a pers_consts_scheme \<Rightarrow> nat" where
  "DbKeyMaxLen c = PERS_DB_MAX_LENGTH_KEY_NAME c"

definition DbResIDMaxLen :: "'a pers_consts_scheme \<Rightarrow> nat" where
  "DbResIDMaxLen c = PERS_DB_MAX_LENGTH_KEY_NAME c"

definition DbPathMaxLen :: "'a pers_consts_scheme \<Rightarrow> nat" where
  "DbPathMaxLen c = PERS_ORG_MAX_LENGTH_PATH_FILENAME c"

definition MaxAppNameLen :: "'a pers_consts_scheme \<Rightarrow> nat" where
  "MaxAppNameLen c = PERS_RCT_MAX_LENGTH_RESPONSIBLE c"

definition CustLibMaxLen :: "'a pers_consts_scheme \<Rightarrow> nat" where
  "CustLibMaxLen c = PERS_RCT_MAX_LENGTH_CUSTOM_NAME c"

definition defaultMaxKeyValDataSize :: "'a pers_consts_scheme \<Rightarrow> int" where
  "defaultMaxKeyValDataSize c = PERS_DB_MAX_SIZE_KEY_DATA c"

section \<open>Structures\<close>

text \<open>\<open>PersistenceConfigurationKey_s\<close> of libperscommon, its fields as this library uses them.
  Enumerations are read from a database record, so they are plain integers. The character arrays
  \<open>customID\<close>, \<open>reponsible\<close>, \<open>custom_name\<close> are whole arrays, with their NUL bytes.\<close>

record config_key =
  policy :: int
  storage :: int
  rtype :: int
  permission :: int
  max_size :: int
  customID :: string
  reponsible :: string
  custom_name :: string

record db_context =
  ldbid :: u32
  user_no :: u32
  seat_no :: u32

record persistence_info =
  context_of :: db_context
  configKey :: config_key

datatype PersGetDefault_e = PersGetDefault_Data | PersGetDefault_Size

datatype PersNotifyRegPolicy_e = Notify_register | Notify_unregister | Notify_lastEntry

section \<open>Paths\<close>

definition CACHEPREFIX :: "'a pers_consts_scheme \<Rightarrow> string" where
  "CACHEPREFIX c = PERS_ORG_ROOT_PATH c @ ''/mnt-c/''"

definition WTPREFIX :: "'a pers_consts_scheme \<Rightarrow> string" where
  "WTPREFIX c = PERS_ORG_ROOT_PATH c @ ''/mnt-wt/''"

definition gBackupPrefix :: "'a pers_consts_scheme \<Rightarrow> string" where
  "gBackupPrefix c = PERS_ORG_ROOT_PATH c @ ''/mnt-backup/''"

definition gCPathPrefixSize :: "'a pers_consts_scheme \<Rightarrow> nat" where
  "gCPathPrefixSize c = length (CACHEPREFIX c)"

definition gWTPathPrefixSize :: "'a pers_consts_scheme \<Rightarrow> nat" where
  "gWTPathPrefixSize c = length (WTPREFIX c)"

definition gBackupPostfix :: string where
  "gBackupPostfix = ''~''"

definition gBackupCsPostfix :: string where
  "gBackupCsPostfix = ''~.crc''"

definition gBackupFilename :: string where
  "gBackupFilename = ''BackupFileList.info''"

text \<open>The path formats: each is the function that its \<open>printf\<close> format applies to its arguments.\<close>

definition gLocalCachePath :: "'a pers_consts_scheme \<Rightarrow> string \<Rightarrow> string" where
  "gLocalCachePath c app = CACHEPREFIX c @ app"

definition gLocalWtPath :: "'a pers_consts_scheme \<Rightarrow> string \<Rightarrow> string" where
  "gLocalWtPath c app = WTPREFIX c @ app"

definition gSharedCachePath :: "'a pers_consts_scheme \<Rightarrow> string \<Rightarrow> u32 \<Rightarrow> string" where
  "gSharedCachePath c app grp = CACHEPREFIX c @ app @ ''/shared_group_'' @ fmt_x grp"

definition gSharedWtPath :: "'a pers_consts_scheme \<Rightarrow> string \<Rightarrow> u32 \<Rightarrow> string" where
  "gSharedWtPath c app grp = WTPREFIX c @ app @ ''/shared_group_'' @ fmt_x grp"

definition gSharedPublicCachePath :: "'a pers_consts_scheme \<Rightarrow> string \<Rightarrow> string" where
  "gSharedPublicCachePath c app = CACHEPREFIX c @ app @ ''/shared_public''"

definition gSharedPublicWtPath :: "'a pers_consts_scheme \<Rightarrow> string \<Rightarrow> string" where
  "gSharedPublicWtPath c app = WTPREFIX c @ app @ ''/shared_public''"

definition gLocalCachePathKey :: "'a pers_consts_scheme \<Rightarrow> string \<Rightarrow> string \<Rightarrow> string" where
  "gLocalCachePathKey c app key = CACHEPREFIX c @ app @ key"

definition gLocalWtPathKey :: "'a pers_consts_scheme \<Rightarrow> string \<Rightarrow> string \<Rightarrow> string" where
  "gLocalWtPathKey c app key = WTPREFIX c @ app @ key"

definition gSharedCachePathKey :: "'a pers_consts_scheme \<Rightarrow> string \<Rightarrow> u32 \<Rightarrow> string \<Rightarrow> string" where
  "gSharedCachePathKey c app grp key = CACHEPREFIX c @ app @ ''/shared_group_'' @ fmt_x grp @ key"

definition gSharedWtPathKey :: "'a pers_consts_scheme \<Rightarrow> string \<Rightarrow> u32 \<Rightarrow> string \<Rightarrow> string" where
  "gSharedWtPathKey c app grp key = WTPREFIX c @ app @ ''/shared_group_'' @ fmt_x grp @ key"

definition gSharedPublicCachePathKey :: "'a pers_consts_scheme \<Rightarrow> string \<Rightarrow> string \<Rightarrow> string" where
  "gSharedPublicCachePathKey c app key = CACHEPREFIX c @ app @ ''/shared_public'' @ key"

definition gSharedPublicWtPathKey :: "'a pers_consts_scheme \<Rightarrow> string \<Rightarrow> string \<Rightarrow> string" where
  "gSharedPublicWtPathKey c app key = WTPREFIX c @ app @ ''/shared_public'' @ key"

definition gLocalCacheFilePath ::
  "'a pers_consts_scheme \<Rightarrow> string \<Rightarrow> u32 \<Rightarrow> u32 \<Rightarrow> string \<Rightarrow> string" where
  "gLocalCacheFilePath c app user seat res =
     CACHEPREFIX c @ app @ PERS_ORG_USER_FOLDER_NAME c @ fmt_d (sint user)
     @ PERS_ORG_SEAT_FOLDER_NAME c @ fmt_d (sint seat) @ ''/'' @ res"

section \<open>The character table\<close>

text \<open>127 entries, for the characters 0 to 126: 1 marks a character of a token, 0 a separator.\<close>

definition gCharLookup :: "nat \<Rightarrow> int" where
  "gCharLookup i = (replicate 32 0 @ [0] @ replicate 94 1) ! i"

definition gCharLookupSize :: nat where [c_const]:
  "gCharLookupSize = 127"

lemma gCharLookup_table:
  "i < 127 \<Longrightarrow> gCharLookup i = (if 33 \<le> i then 1 else 0)"
proof -
  have "list_all (\<lambda>i. gCharLookup i = (if 33 \<le> i then 1 else 0)) [0..<127]" by code_simp
  then show "i < 127 \<Longrightarrow> ?thesis" by (simp only: list_all_iff) auto
qed

end
