(* ===== verification/Handle.thy ===== *)
theory Handle
  imports Data_Organization
begin

text \<open>
  The handle tables (\<open>src/persistence_client_library_handle.[ch]\<close>): one pool of handle numbers shared
  by keys and OSS files, and the tables that store what an open handle stands for.

  Each operation takes its mutex first and does nothing when \<open>pthread_mutex_lock\<close> fails: the results
  of the lock calls are the field \<open>mutex_rc\<close> of the state. A \<open>None\<close> result is an access outside a
  table (see \<open>C_Base\<close>).

  The pool is an instance of the interface \<open>handle_pool\<close>: whoever allocates and frees by its laws never
  sees two open handles with the same number.
\<close>

section \<open>State\<close>

datatype mutex = gMtx | gKeyHandleAccessMtx | gFileHandleAccessMtx | gOssFileHandleAccessMtx

record key_handle =
  resource_id :: string
  kh_ldbid :: u32
  kh_user_no :: u32
  kh_seat_no :: u32

record file_handle =
  fh_permission :: int
  backupCreated :: int
  cacheStatus :: int
  backupPath :: string
  csumPath :: string
  filePath :: "string option"

record handle_state =
  gOpenFdArray :: "nat \<Rightarrow> int"
  gOpenHandleArray :: "nat \<Rightarrow> int"
  gHandleIdx :: int
  gFreeHandleArray :: "nat \<Rightarrow> int"
  gFreeHandleIdxHead :: int
  gKeyHandleArray :: "nat \<Rightarrow> key_handle"
  gFileHandleArray :: "nat \<Rightarrow> file_handle"
  gOssHandleArray :: "nat \<Rightarrow> file_handle"
  mutex_rc :: "mutex \<Rightarrow> int"

definition key_handle_zero :: key_handle where
  "key_handle_zero = \<lparr>resource_id = [], kh_ldbid = 0, kh_user_no = 0, kh_seat_no = 0\<rparr>"

definition file_handle_zero :: file_handle where
  "file_handle_zero = \<lparr>fh_permission = 0, backupCreated = 0, cacheStatus = 0, backupPath = [],
     csumPath = [], filePath = None\<rparr>"

text \<open>Static storage before the first call.\<close>

definition handle_init :: handle_state where
  "handle_init = \<lparr>gOpenFdArray = (\<lambda>_. 0), gOpenHandleArray = (\<lambda>_. 0), gHandleIdx = 1,
     gFreeHandleArray = (\<lambda>_. 0), gFreeHandleIdxHead = 0, gKeyHandleArray = (\<lambda>_. key_handle_zero),
     gFileHandleArray = (\<lambda>_. file_handle_zero), gOssHandleArray = (\<lambda>_. file_handle_zero),
     mutex_rc = (\<lambda>_. 0)\<rparr>"

section \<open>The pool\<close>

definition get_persistence_handle_idx :: "handle_state \<Rightarrow> (int \<times> handle_state) option" where
  "get_persistence_handle_idx h =
     (if mutex_rc h gMtx = 0 then
        if gFreeHandleIdxHead h > 0 then do {
          let head = gFreeHandleIdxHead h - 1;
          handle \<leftarrow> rd MaxPersHandle (gFreeHandleArray h) head;
          Some (handle, h\<lparr>gFreeHandleIdxHead := head\<rparr>)
        }
        else if gHandleIdx h < int MaxPersHandle - 1 then
          Some (gHandleIdx h, h\<lparr>gHandleIdx := gHandleIdx h + 1\<rparr>)
        else Some (EPERS_MAXHANDLE, h)
      else Some (0, h))"

definition set_persistence_handle_close_idx :: "int \<Rightarrow> handle_state \<Rightarrow> handle_state option" where
  "set_persistence_handle_close_idx handle h =
     (if mutex_rc h gMtx = 0 then
        if gFreeHandleIdxHead h < int MaxPersHandle then do {
          fr \<leftarrow> wr MaxPersHandle (gFreeHandleArray h) (gFreeHandleIdxHead h) handle;
          Some (h\<lparr>gFreeHandleArray := fr, gFreeHandleIdxHead := gFreeHandleIdxHead h + 1\<rparr>)
        }
        else Some h
      else Some h)"

definition close_all_persistence_handle :: "handle_state \<Rightarrow> handle_state" where
  "close_all_persistence_handle h =
     (if mutex_rc h gMtx = 0 then
        h\<lparr>gFreeHandleArray := (\<lambda>_. 0), gOpenHandleArray := (\<lambda>_. 0), gOpenFdArray := (\<lambda>_. 0),
          gHandleIdx := 1, gFreeHandleIdxHead := 0\<rparr>
      else h)"

section \<open>Key handles\<close>

text \<open>\<open>strncpy\<close> into \<open>resource_id\<close> and the forced terminator keep \<open>DbResIDMaxLen - 1\<close> characters.\<close>

definition set_key_handle_data ::
  "'c pers_consts_scheme \<Rightarrow> int \<Rightarrow> string \<Rightarrow> u32 \<Rightarrow> u32 \<Rightarrow> u32 \<Rightarrow> handle_state \<Rightarrow> (int \<times> handle_state) option" where
  "set_key_handle_data c idx rid lid user seat h =
     (if mutex_rc h gKeyHandleAccessMtx = 0 then
        if idx < int MaxPersHandle \<and> 0 < idx then do {
          ks \<leftarrow> wr MaxPersHandle (gKeyHandleArray h) idx
                 \<lparr>resource_id = take (DbResIDMaxLen c - 1) rid, kh_ldbid = lid, kh_user_no = user,
                  kh_seat_no = seat\<rparr>;
          Some (idx, h\<lparr>gKeyHandleArray := ks\<rparr>)
        }
        else Some (- 1, h)
      else Some (- 1, h))"

text \<open>The structure of the caller is only written when the result is 0.\<close>

definition get_key_handle_data :: "int \<Rightarrow> key_handle \<Rightarrow> handle_state \<Rightarrow> (int \<times> key_handle) option" where
  "get_key_handle_data idx hs h =
     (if mutex_rc h gKeyHandleAccessMtx = 0 then
        if idx < int MaxPersHandle \<and> idx > 0 then do {
          k \<leftarrow> rd MaxPersHandle (gKeyHandleArray h) idx;
          Some (0, k)
        }
        else Some (- 1, hs)
      else Some (- 1, hs))"

definition init_key_handle_array :: "handle_state \<Rightarrow> handle_state" where
  "init_key_handle_array h =
     (if mutex_rc h gKeyHandleAccessMtx = 0 then h\<lparr>gKeyHandleArray := (\<lambda>_. key_handle_zero)\<rparr> else h)"

definition clear_key_handle_array :: "int \<Rightarrow> handle_state \<Rightarrow> handle_state option" where
  "clear_key_handle_array idx h =
     (if mutex_rc h gKeyHandleAccessMtx = 0 then do {
        ks \<leftarrow> wr MaxPersHandle (gKeyHandleArray h) idx key_handle_zero;
        Some (h\<lparr>gKeyHandleArray := ks\<rparr>)
      }
      else Some h)"

section \<open>File handles\<close>

text \<open>\<open>strcpy\<close> into a path field: the string and its terminator must fit.\<close>

definition strcpy_path :: "'c pers_consts_scheme \<Rightarrow> string \<Rightarrow> string option" where
  "strcpy_path c s = (if length s < DbPathMaxLen c then Some s else None)"

definition set_file_handle_data ::
  "'c pers_consts_scheme \<Rightarrow> int \<Rightarrow> int \<Rightarrow> string \<Rightarrow> string \<Rightarrow> string option \<Rightarrow> handle_state
     \<Rightarrow> (int \<times> handle_state) option" where
  "set_file_handle_data c idx perm backup csum path h =
     (if mutex_rc h gFileHandleAccessMtx = 0 then
        if idx < int MaxPersHandle \<and> idx > 0 then do {
          b \<leftarrow> strcpy_path c backup;
          cs \<leftarrow> strcpy_path c csum;
          fs \<leftarrow> wr MaxPersHandle (gFileHandleArray h) idx
                 \<lparr>fh_permission = perm, backupCreated = 0, cacheStatus = - 1, backupPath = b,
                  csumPath = cs, filePath = path\<rparr>;
          Some (0, h\<lparr>gFileHandleArray := fs\<rparr>)
        }
        else Some (0, h)
      else Some (0, h))"

definition get_file_permission :: "'c pers_consts_scheme \<Rightarrow> int \<Rightarrow> handle_state \<Rightarrow> int option" where
  "get_file_permission c idx h =
     (if mutex_rc h gFileHandleAccessMtx = 0 then
        if idx < int MaxPersHandle \<and> idx > 0 then
          map_option fh_permission (rd MaxPersHandle (gFileHandleArray h) idx)
        else Some (- 1)
      else Some (PersistencePermission_LastEntry c))"

definition get_file_backup_path :: "int \<Rightarrow> handle_state \<Rightarrow> string option" where
  "get_file_backup_path idx h = map_option backupPath (rd MaxPersHandle (gFileHandleArray h) idx)"

definition get_file_checksum_path :: "int \<Rightarrow> handle_state \<Rightarrow> string option" where
  "get_file_checksum_path idx h = map_option csumPath (rd MaxPersHandle (gFileHandleArray h) idx)"

definition set_file_backup_status :: "int \<Rightarrow> int \<Rightarrow> handle_state \<Rightarrow> handle_state option" where
  "set_file_backup_status idx status h =
     (if mutex_rc h gFileHandleAccessMtx = 0 then do {
        f \<leftarrow> rd MaxPersHandle (gFileHandleArray h) idx;
        fs \<leftarrow> wr MaxPersHandle (gFileHandleArray h) idx (f\<lparr>backupCreated := status\<rparr>);
        Some (h\<lparr>gFileHandleArray := fs\<rparr>)
      }
      else Some h)"

definition get_file_backup_status :: "int \<Rightarrow> handle_state \<Rightarrow> int option" where
  "get_file_backup_status idx h = map_option backupCreated (rd MaxPersHandle (gFileHandleArray h) idx)"

definition set_file_cache_status :: "int \<Rightarrow> int \<Rightarrow> handle_state \<Rightarrow> handle_state option" where
  "set_file_cache_status idx status h =
     (if mutex_rc h gFileHandleAccessMtx = 0 then do {
        f \<leftarrow> rd MaxPersHandle (gFileHandleArray h) idx;
        fs \<leftarrow> wr MaxPersHandle (gFileHandleArray h) idx (f\<lparr>cacheStatus := status\<rparr>);
        Some (h\<lparr>gFileHandleArray := fs\<rparr>)
      }
      else Some h)"

text \<open>The bound of the source is \<open>MaxPersHandle >= idx\<close>: index 128 and negative indices pass it.\<close>

definition get_file_cache_status :: "int \<Rightarrow> handle_state \<Rightarrow> int option" where
  "get_file_cache_status idx h =
     (if mutex_rc h gFileHandleAccessMtx = 0 then
        if int MaxPersHandle \<ge> idx then
          map_option cacheStatus (rd MaxPersHandle (gFileHandleArray h) idx)
        else Some (- 1)
      else Some (- 1))"

section \<open>OSS file handles\<close>

definition set_ossfile_handle_data ::
  "'c pers_consts_scheme \<Rightarrow> int \<Rightarrow> int \<Rightarrow> int \<Rightarrow> string \<Rightarrow> string \<Rightarrow> string option \<Rightarrow> handle_state
     \<Rightarrow> (int \<times> handle_state) option" where
  "set_ossfile_handle_data c idx perm created backup csum path h =
     (if mutex_rc h gOssFileHandleAccessMtx = 0 then
        if idx < int MaxPersHandle \<and> idx > 0 then do {
          b \<leftarrow> strcpy_path c backup;
          cs \<leftarrow> strcpy_path c csum;
          f \<leftarrow> rd MaxPersHandle (gOssHandleArray h) idx;
          fs \<leftarrow> wr MaxPersHandle (gOssHandleArray h) idx
                 (f\<lparr>fh_permission := perm, backupCreated := created, backupPath := b, csumPath := cs,
                    filePath := path\<rparr>);
          Some (0, h\<lparr>gOssHandleArray := fs\<rparr>)
        }
        else Some (0, h)
      else Some (0, h))"

definition get_ossfile_permission :: "'c pers_consts_scheme \<Rightarrow> int \<Rightarrow> handle_state \<Rightarrow> int option" where
  "get_ossfile_permission c idx h =
     (if mutex_rc h gOssFileHandleAccessMtx = 0 then
        if idx < int MaxPersHandle \<and> idx > 0 then
          map_option fh_permission (rd MaxPersHandle (gOssHandleArray h) idx)
        else Some (- 1)
      else Some (PersistencePermission_LastEntry c))"

definition get_ossfile_backup_path :: "int \<Rightarrow> handle_state \<Rightarrow> string option" where
  "get_ossfile_backup_path idx h = map_option backupPath (rd MaxPersHandle (gOssHandleArray h) idx)"

definition get_ossfile_file_path :: "int \<Rightarrow> handle_state \<Rightarrow> string option option" where
  "get_ossfile_file_path idx h = map_option filePath (rd MaxPersHandle (gOssHandleArray h) idx)"

definition set_ossfile_file_path :: "int \<Rightarrow> string option \<Rightarrow> handle_state \<Rightarrow> handle_state option" where
  "set_ossfile_file_path idx file h =
     (if mutex_rc h gOssFileHandleAccessMtx = 0 then do {
        f \<leftarrow> rd MaxPersHandle (gOssHandleArray h) idx;
        fs \<leftarrow> wr MaxPersHandle (gOssHandleArray h) idx (f\<lparr>filePath := file\<rparr>);
        Some (h\<lparr>gOssHandleArray := fs\<rparr>)
      }
      else Some h)"

definition get_ossfile_checksum_path :: "int \<Rightarrow> handle_state \<Rightarrow> string option" where
  "get_ossfile_checksum_path idx h = map_option csumPath (rd MaxPersHandle (gOssHandleArray h) idx)"

definition set_ossfile_backup_status :: "int \<Rightarrow> int \<Rightarrow> handle_state \<Rightarrow> handle_state option" where
  "set_ossfile_backup_status idx status h =
     (if mutex_rc h gOssFileHandleAccessMtx = 0 then do {
        f \<leftarrow> rd MaxPersHandle (gOssHandleArray h) idx;
        fs \<leftarrow> wr MaxPersHandle (gOssHandleArray h) idx (f\<lparr>backupCreated := status\<rparr>);
        Some (h\<lparr>gOssHandleArray := fs\<rparr>)
      }
      else Some h)"

definition get_ossfile_backup_status :: "int \<Rightarrow> handle_state \<Rightarrow> int option" where
  "get_ossfile_backup_status idx h = map_option backupCreated (rd MaxPersHandle (gOssHandleArray h) idx)"

section \<open>The interface of the pool\<close>

text \<open>A client opens, and closes what it holds.\<close>

datatype pool_op = Open | Close int

fun pool_run ::
  "('s \<Rightarrow> (int \<times> 's) option) \<Rightarrow> (int \<Rightarrow> 's \<Rightarrow> 's option) \<Rightarrow> pool_op list \<Rightarrow> int list \<Rightarrow> 's
     \<Rightarrow> (int list \<times> 's) option" where
  "pool_run alloc free [] held s = Some (held, s)"
| "pool_run alloc free (Open # ops) held s = do {
     (h, s') \<leftarrow> alloc s;
     pool_run alloc free ops (if 0 < h then h # held else held) s'
   }"
| "pool_run alloc free (Close h # ops) held s =
     (if h \<in> set held then do {
        s' \<leftarrow> free h s;
        pool_run alloc free ops (remove1 h held) s'
      }
      else pool_run alloc free ops held s)"

locale handle_pool =
  fixes alloc :: "'s \<Rightarrow> (int \<times> 's) option"
    and free :: "int \<Rightarrow> 's \<Rightarrow> 's option"
    and inv :: "'s \<Rightarrow> bool"
    and live :: "'s \<Rightarrow> int set"
    and cap :: nat
  assumes live_finite: "finite (live s)"
    and alloc_fresh: "inv s \<Longrightarrow> card (live s) < cap \<Longrightarrow>
          \<exists>h s'. alloc s = Some (h, s') \<and> 0 < h \<and> h \<notin> live s \<and> inv s' \<and> live s' = insert h (live s)"
    and alloc_full: "inv s \<Longrightarrow> cap \<le> card (live s) \<Longrightarrow> \<exists>h. alloc s = Some (h, s) \<and> h \<le> 0"
    and free_live: "inv s \<Longrightarrow> h \<in> live s \<Longrightarrow>
          \<exists>s'. free h s = Some s' \<and> inv s' \<and> live s' = live s - {h}"
begin

lemma alloc_cases:
  assumes "inv s"
  obtains (fresh) h s' where "card (live s) < cap" "alloc s = Some (h, s')" "0 < h" "h \<notin> live s"
      "inv s'" "live s' = insert h (live s)"
  | (full) h where "cap \<le> card (live s)" "alloc s = Some (h, s)" "h \<le> 0"
proof (cases "card (live s) < cap")
  case True
  then show thesis using alloc_fresh [OF assms True] fresh by blast
next
  case False
  then show thesis using alloc_full [OF assms] full by (meson not_less)
qed

lemma run_ok:
  assumes "inv s" and "set held = live s" and "distinct held" and "length held \<le> cap"
  shows "\<exists>held' s'. pool_run alloc free ops held s = Some (held', s') \<and> inv s' \<and>
           set held' = live s' \<and> distinct held' \<and> length held' \<le> cap"
  using assms
proof (induction ops arbitrary: held s)
  case Nil
  then show ?case by simp
next
  case (Cons op ops)
  show ?case
  proof (cases op)
    case Open
    show ?thesis
    proof (rule alloc_cases [OF Cons.prems(1)])
      fix h s' assume r: "card (live s) < cap" "alloc s = Some (h, s')" "0 < h" "h \<notin> live s" "inv s'"
        "live s' = insert h (live s)"
      have "card (live s) = length held"
        using Cons.prems(2,3) by (metis distinct_card)
      then show ?thesis using Cons.IH [of s' "h # held"] Cons.prems r Open by simp
    next
      fix h assume "cap \<le> card (live s)" "alloc s = Some (h, s)" "h \<le> 0"
      then show ?thesis using Cons.IH [of s held] Cons.prems Open by simp
    qed
  next
    case (Close h)
    show ?thesis
    proof (cases "h \<in> set held")
      case True
      with free_live [OF Cons.prems(1), of h] Cons.prems(2) obtain s' where
        r: "free h s = Some s'" "inv s'" "live s' = live s - {h}" by auto
      have "length (remove1 h held) \<le> cap" using Cons.prems(4) by (simp add: length_remove1 le_diff_conv)
      with Cons.IH [of s' "remove1 h held"] Cons.prems r True Close show ?thesis by simp
    next
      case False
      with Cons.IH [of s held] Cons.prems Close show ?thesis by simp
    qed
  qed
qed

end

section \<open>The tables implement the interface\<close>

definition free_list :: "handle_state \<Rightarrow> int list" where
  "free_list h = map (gFreeHandleArray h) [0..<nat (gFreeHandleIdxHead h)]"

definition live_handles :: "handle_state \<Rightarrow> int set" where
  "live_handles h = {1..<gHandleIdx h} - set (free_list h)"

definition pool_inv :: "handle_state \<Rightarrow> bool" where
  "pool_inv h \<longleftrightarrow> mutex_rc h gMtx = 0 \<and> 1 \<le> gHandleIdx h \<and> gHandleIdx h < int MaxPersHandle \<and>
     0 \<le> gFreeHandleIdxHead h \<and> distinct (free_list h) \<and> set (free_list h) \<subseteq> {1..<gHandleIdx h}"

lemma free_list_push:
  "0 \<le> gFreeHandleIdxHead h \<Longrightarrow>
   free_list (h\<lparr>gFreeHandleArray := (gFreeHandleArray h)(nat (gFreeHandleIdxHead h) := x),
               gFreeHandleIdxHead := gFreeHandleIdxHead h + 1\<rparr>) = free_list h @ [x]"
  by (simp add: free_list_def nat_add_distrib)

lemma free_list_pop:
  assumes "0 < gFreeHandleIdxHead h"
  shows "free_list h = free_list (h\<lparr>gFreeHandleIdxHead := gFreeHandleIdxHead h - 1\<rparr>)
                         @ [gFreeHandleArray h (nat (gFreeHandleIdxHead h - 1))]"
proof -
  have "nat (gFreeHandleIdxHead h) = Suc (nat (gFreeHandleIdxHead h - 1))" using assms by simp
  then show ?thesis by (simp add: free_list_def)
qed

lemma pool_inv_bounds:
  assumes "pool_inv h"
  shows "card (live_handles h) + nat (gFreeHandleIdxHead h) = nat (gHandleIdx h - 1)"
    and "nat (gFreeHandleIdxHead h) \<le> 126"
proof -
  have len: "card (set (free_list h)) = nat (gFreeHandleIdxHead h)"
    using assms distinct_card [of "free_list h"] by (simp add: pool_inv_def) (simp add: free_list_def)
  have sub: "set (free_list h) \<subseteq> {1..<gHandleIdx h}" using assms by (simp add: pool_inv_def)
  then have le: "card (set (free_list h)) \<le> card {1..<gHandleIdx h}" by (intro card_mono) auto
  then have "card (live_handles h) = card {1..<gHandleIdx h} - card (set (free_list h))"
    unfolding live_handles_def using sub by (intro card_Diff_subset) auto
  then show "card (live_handles h) + nat (gFreeHandleIdxHead h) = nat (gHandleIdx h - 1)"
    using le len by simp
  have "nat (gHandleIdx h - 1) \<le> 126" using assms by (auto simp: pool_inv_def c_const nat_le_iff)
  then show "nat (gFreeHandleIdxHead h) \<le> 126" using le len by simp
qed

lemma pool_inv_init: "pool_inv handle_init" "live_handles handle_init = {}"
  by (simp_all add: pool_inv_def handle_init_def free_list_def live_handles_def c_const)

lemma alloc_fresh_model:
  assumes inv: "pool_inv h" and "card (live_handles h) < 126"
  shows "\<exists>x h'. get_persistence_handle_idx h = Some (x, h') \<and> 0 < x \<and> x \<notin> live_handles h \<and>
           pool_inv h' \<and> live_handles h' = insert x (live_handles h)"
proof (cases "0 < gFreeHandleIdxHead h")
  case True
  let ?h' = "h\<lparr>gFreeHandleIdxHead := gFreeHandleIdxHead h - 1\<rparr>"
  let ?x = "gFreeHandleArray h (nat (gFreeHandleIdxHead h - 1))"
  note pop = free_list_pop [OF True]
  have "get_persistence_handle_idx h = Some (?x, ?h')"
    using inv True pool_inv_bounds(2) [OF inv]
    by (simp add: get_persistence_handle_idx_def pool_inv_def rd_in c_const Let_def)
  moreover have "?x \<in> set (free_list h)" using pop by (metis in_set_conv_decomp)
  moreover have "pool_inv ?h'" using inv True pop by (auto simp: pool_inv_def)
  moreover have "live_handles ?h' = insert ?x (live_handles h)"
    using inv pop by (auto simp: pool_inv_def live_handles_def)
  ultimately show ?thesis using inv by (auto simp: live_handles_def pool_inv_def)
next
  case False
  let ?h' = "h\<lparr>gHandleIdx := gHandleIdx h + 1\<rparr>"
  have head: "gFreeHandleIdxHead h = 0" using inv False by (simp add: pool_inv_def)
  with pool_inv_bounds(1) [OF inv] assms(2) have room: "gHandleIdx h < 127" by simp
  then have "get_persistence_handle_idx h = Some (gHandleIdx h, ?h')"
    using inv head by (simp add: get_persistence_handle_idx_def pool_inv_def c_const)
  moreover have "pool_inv ?h'" using inv room head by (simp add: pool_inv_def free_list_def c_const)
  moreover have "live_handles ?h' = insert (gHandleIdx h) (live_handles h)"
    using inv head by (auto simp: pool_inv_def live_handles_def free_list_def)
  ultimately show ?thesis using inv by (auto simp: live_handles_def pool_inv_def)
qed

lemma alloc_full_model:
  assumes inv: "pool_inv h" and "126 \<le> card (live_handles h)"
  shows "get_persistence_handle_idx h = Some (EPERS_MAXHANDLE, h)"
proof -
  have "gHandleIdx h \<le> 127" "0 \<le> gFreeHandleIdxHead h" "1 \<le> gHandleIdx h"
    using inv by (simp_all add: pool_inv_def c_const)
  with pool_inv_bounds(1) [OF inv] assms(2) have "gFreeHandleIdxHead h = 0" "gHandleIdx h = 127"
    by simp_all
  then show ?thesis using inv by (simp add: get_persistence_handle_idx_def pool_inv_def c_const)
qed

lemma free_live_model:
  assumes inv: "pool_inv h" and x: "x \<in> live_handles h"
  shows "\<exists>h'. set_persistence_handle_close_idx x h = Some h' \<and> pool_inv h' \<and>
           live_handles h' = live_handles h - {x}"
proof -
  let ?h' = "h\<lparr>gFreeHandleArray := (gFreeHandleArray h)(nat (gFreeHandleIdxHead h) := x),
               gFreeHandleIdxHead := gFreeHandleIdxHead h + 1\<rparr>"
  have head: "0 \<le> gFreeHandleIdxHead h" "gFreeHandleIdxHead h < 128"
    using inv pool_inv_bounds(2) [OF inv] by (simp_all add: pool_inv_def)
  note push = free_list_push [OF head(1), of x]
  have "set_persistence_handle_close_idx x h = Some ?h'"
    using inv head by (simp add: set_persistence_handle_close_idx_def pool_inv_def wr_in c_const)
  moreover have "pool_inv ?h'" using inv x head push by (auto simp: pool_inv_def live_handles_def)
  moreover have "live_handles ?h' = live_handles h - {x}" using push by (auto simp: live_handles_def)
  ultimately show ?thesis by blast
qed

interpretation pool: handle_pool get_persistence_handle_idx set_persistence_handle_close_idx
    pool_inv live_handles 126
  by unfold_locales
     (use alloc_fresh_model alloc_full_model free_live_model in \<open>auto simp: live_handles_def\<close>)

section \<open>Table lemmas\<close>

lemma valid_handle_iff: "0 < idx \<Longrightarrow> idx < 128 \<Longrightarrow> idx < int MaxPersHandle"
  by (simp add: c_const)

lemma set_key_handle_data_ok:
  assumes "mutex_rc h gKeyHandleAccessMtx = 0" and "0 < idx" and "idx < 128"
  shows "set_key_handle_data c idx rid lid user seat h =
     Some (idx, h\<lparr>gKeyHandleArray := (gKeyHandleArray h)(nat idx :=
       \<lparr>resource_id = take (DbResIDMaxLen c - 1) rid, kh_ldbid = lid, kh_user_no = user, kh_seat_no = seat\<rparr>)\<rparr>)"
  using assms by (simp add: set_key_handle_data_def wr_in c_const)

lemma get_key_handle_data_ok:
  assumes "mutex_rc h gKeyHandleAccessMtx = 0" and "0 < idx" and "idx < 128"
  shows "get_key_handle_data idx hs h = Some (0, gKeyHandleArray h (nat idx))"
  using assms by (simp add: get_key_handle_data_def rd_in c_const)

lemma get_key_handle_data_bad:
  assumes "idx \<le> 0 \<or> 128 \<le> idx"
  shows "get_key_handle_data idx hs h = Some (- 1, hs)"
  using assms by (auto simp: get_key_handle_data_def c_const)

lemma clear_key_handle_array_ok:
  assumes "mutex_rc h gKeyHandleAccessMtx = 0" and "0 \<le> idx" and "idx < 128"
  shows "clear_key_handle_array idx h =
     Some (h\<lparr>gKeyHandleArray := (gKeyHandleArray h)(nat idx := key_handle_zero)\<rparr>)"
  using assms by (simp add: clear_key_handle_array_def wr_in c_const)

lemma pool_inv_key_array [simp]:
  "pool_inv (h\<lparr>gKeyHandleArray := k\<rparr>) = pool_inv h"
  "live_handles (h\<lparr>gKeyHandleArray := k\<rparr>) = live_handles h"
  by (simp_all add: pool_inv_def live_handles_def free_list_def)

section \<open>Properties\<close>

text \<open>C35: from the start of the program, whatever sequence of opens and closes a client makes (closing
  only handles it holds), no table is accessed outside its bounds, the handles held are pairwise
  different, lie between 1 and 126, and there are never more than 126 of them.\<close>

theorem handle_pool_client:
  "\<exists>held h. pool_run get_persistence_handle_idx set_persistence_handle_close_idx ops [] handle_init
              = Some (held, h) \<and>
     distinct held \<and> set held = live_handles h \<and> set held \<subseteq> {1..126} \<and> length held \<le> 126"
proof -
  obtain held h where r: "pool_run get_persistence_handle_idx set_persistence_handle_close_idx ops [] handle_init
              = Some (held, h)" "pool_inv h" "set held = live_handles h" "distinct held" "length held \<le> 126"
    using pool.run_ok [of handle_init "[]" ops] pool_inv_init by auto
  moreover have "live_handles h \<subseteq> {1..126}"
    using r(2) by (auto simp: live_handles_def pool_inv_def c_const)
  ultimately show ?thesis by auto
qed

text \<open>C36: the pool is exact: as long as fewer than 126 handles are open the next open succeeds with a
  handle that is not open, and when 126 are open it returns \<open>EPERS_MAXHANDLE\<close> and changes nothing.
  (One less than the 127 usable entries of the tables: the last index is never handed out.)\<close>

theorem handle_pool_capacity:
  assumes "pool_inv h"
  shows "card (live_handles h) \<le> 126 \<and>
     (if card (live_handles h) < 126
      then \<exists>x h'. get_persistence_handle_idx h = Some (x, h') \<and> 0 < x \<and> x < 127 \<and>
             x \<notin> live_handles h \<and> live_handles h' = insert x (live_handles h) \<and> pool_inv h'
      else get_persistence_handle_idx h = Some (EPERS_MAXHANDLE, h))"
proof -
  have "nat (gHandleIdx h - 1) \<le> 126" using assms by (auto simp: pool_inv_def c_const nat_le_iff)
  then have b: "card (live_handles h) \<le> 126" using pool_inv_bounds(1) [OF assms] by simp
  moreover have "x < 127" if "pool_inv h'" "x \<in> live_handles h'" for x h'
    using that by (auto simp: pool_inv_def live_handles_def c_const)
  ultimately show ?thesis
    using alloc_fresh_model [OF assms] alloc_full_model [OF assms] by (auto simp: not_less)
qed

theorem handle_pool_capacity_witness:
  "card (live_handles handle_init) \<le> 126 \<and>
   (\<exists>x h'. get_persistence_handle_idx handle_init = Some (x, h') \<and> 0 < x)"
  using handle_pool_capacity [of handle_init] pool_inv_init by auto

text \<open>\<open>set_persistence_handle_close_idx\<close> does not notice that a handle is already closed: closing
  an open handle twice makes the next two opens return the same number.\<close>

theorem handle_double_close:
  assumes "pool_inv h" and "x \<in> live_handles h"
  shows "\<exists>h1 h2 h3 h4. set_persistence_handle_close_idx x h = Some h1 \<and>
     set_persistence_handle_close_idx x h1 = Some h2 \<and>
     get_persistence_handle_idx h2 = Some (x, h3) \<and> get_persistence_handle_idx h3 = Some (x, h4)"
proof -
  have head: "0 \<le> gFreeHandleIdxHead h" "gFreeHandleIdxHead h \<le> 126"
    using assms(1) pool_inv_bounds(2) [OF assms(1)] by (simp_all add: pool_inv_def)
  have m: "mutex_rc h gMtx = 0" using assms(1) by (simp add: pool_inv_def)
  show ?thesis
    using head m
    by (simp add: set_persistence_handle_close_idx_def get_persistence_handle_idx_def
        wr_in rd_in c_const Let_def nat_add_distrib)
qed

text \<open>One handle is open.\<close>

definition one_open :: handle_state where
  "one_open = handle_init\<lparr>gHandleIdx := 2\<rparr>"

lemma one_open_ok: "pool_inv one_open" "1 \<in> live_handles one_open"
  by (simp_all add: one_open_def pool_inv_def handle_init_def free_list_def live_handles_def c_const)

theorem handle_double_close_witness:
  "\<exists>h1 h2 h3 h4. set_persistence_handle_close_idx 1 one_open = Some h1 \<and>
     set_persistence_handle_close_idx 1 h1 = Some h2 \<and>
     get_persistence_handle_idx h2 = Some (1, h3) \<and> get_persistence_handle_idx h3 = Some (1, h4)"
  using handle_double_close [OF one_open_ok] by simp

text \<open>The key handle table is a map: what was stored at a valid index is what is read there, with
  the resource id cut to the size of its field; every other index keeps its entry; clearing an entry
  empties it; and an index outside 1 to 127 is rejected with -1 by both operations.\<close>

theorem key_handle_table:
  assumes "mutex_rc h gKeyHandleAccessMtx = 0" and "0 < idx" and "idx < 128"
  shows "\<exists>h'. set_key_handle_data c idx rid lid user seat h = Some (idx, h') \<and>
     get_key_handle_data idx k h' = Some (0, \<lparr>resource_id = take (DbResIDMaxLen c - 1) rid,
       kh_ldbid = lid, kh_user_no = user, kh_seat_no = seat\<rparr>) \<and>
     (\<forall>j. j \<noteq> idx \<longrightarrow> get_key_handle_data j k h' = get_key_handle_data j k h) \<and>
     (\<exists>h''. clear_key_handle_array idx h' = Some h'' \<and> get_key_handle_data idx k h'' = Some (0, key_handle_zero)) \<and>
     (j \<le> 0 \<or> 128 \<le> j \<longrightarrow> set_key_handle_data c j rid lid user seat h = Some (- 1, h) \<and>
        get_key_handle_data j k h = Some (- 1, k))"
  using assms
  by (auto simp: set_key_handle_data_ok get_key_handle_data_ok clear_key_handle_array_ok get_key_handle_data_bad)
     (auto simp: get_key_handle_data_def set_key_handle_data_def rd_def c_const)

theorem key_handle_table_witness:
  "\<forall>(c :: unit pers_consts_scheme) k. \<exists>h'. set_key_handle_data c 5 ''address/home'' 255 1 2 handle_init = Some (5, h') \<and>
     get_key_handle_data 5 k h' = Some (0, \<lparr>resource_id = take (DbResIDMaxLen c - 1) ''address/home'',
       kh_ldbid = 255, kh_user_no = 1, kh_seat_no = 2\<rparr>)"
proof (intro allI)
  fix c :: "unit pers_consts_scheme" and k
  show "\<exists>h'. set_key_handle_data c 5 ''address/home'' 255 1 2 handle_init = Some (5, h') \<and>
     get_key_handle_data 5 k h' = Some (0, \<lparr>resource_id = take (DbResIDMaxLen c - 1) ''address/home'',
       kh_ldbid = 255, kh_user_no = 1, kh_seat_no = 2\<rparr>)"
    using key_handle_table [of handle_init 5 c "''address/home''" 255 1 2 k] by (auto simp: handle_init_def)
qed

text \<open>The accessors of the file handle tables check their index only in part: the setters of the
  backup and cache status (and the OSS ones) take any index and leave the table for every index
  outside 0 to 127, and \<open>get_file_cache_status\<close> still leaves it for 128 and for negative indices,
  while the permission getters are safe for every index.\<close>

theorem file_handle_bounds:
  assumes "\<forall>m. mutex_rc h m = 0"
  shows "(set_file_backup_status i v h = None \<longleftrightarrow> i < 0 \<or> 128 \<le> i) \<and>
     (set_file_cache_status i v h = None \<longleftrightarrow> i < 0 \<or> 128 \<le> i) \<and>
     (set_ossfile_backup_status i v h = None \<longleftrightarrow> i < 0 \<or> 128 \<le> i) \<and>
     (get_file_cache_status i h = None \<longleftrightarrow> i < 0 \<or> i = 128) \<and>
     get_file_permission c i h \<noteq> None \<and> get_ossfile_permission c i h \<noteq> None"
  using assms
  by (auto simp: set_file_backup_status_def set_file_cache_status_def set_ossfile_backup_status_def
      get_file_cache_status_def get_file_permission_def get_ossfile_permission_def rd_def wr_def c_const)

theorem file_handle_bounds_witness:
  "set_file_cache_status (- 1) 1 handle_init = None \<and> get_file_cache_status 128 handle_init = None"
  using file_handle_bounds [of handle_init "- 1" 1 undefined]
    file_handle_bounds [of handle_init 128 1 undefined] by (auto simp: handle_init_def)

end
