(* ===== verification/Pers_Common.thy ===== *)
theory Pers_Common
  imports Data_Organization
begin

text \<open>
  The code the library calls but does not contain: libperscommon (databases and resource
  configuration tables), the dynamic linker, the functions of the loaded plugins. It is a parameter:
  the record \<open>perscom\<close> of functions on an abstract world \<open>'w\<close>. Database handles and error codes are
  integers as in its headers; a function pointer is its address (\<open>None\<close> is NULL).

  \<open>kv_lawful\<close> names the documented behaviour that the key-value properties rely on: a successful
  write is read back, other keys and handles keep their data, reading changes nothing, a configuration
  table keeps its entries.
\<close>

type_synonym fn_ptr = "nat option"

record 'w perscom = pers_consts +
  persComDbOpen :: "string \<Rightarrow> int \<Rightarrow> 'w \<Rightarrow> int \<times> 'w"
  persComDbClose :: "int \<Rightarrow> 'w \<Rightarrow> int \<times> 'w"
  persComDbReadKey :: "int \<Rightarrow> string \<Rightarrow> u8 list \<Rightarrow> int \<Rightarrow> 'w \<Rightarrow> (int \<times> u8 list) \<times> 'w"
  persComDbGetKeySize :: "int \<Rightarrow> string \<Rightarrow> 'w \<Rightarrow> int \<times> 'w"
  persComDbWriteKey :: "int \<Rightarrow> string \<Rightarrow> u8 list \<Rightarrow> int \<Rightarrow> 'w \<Rightarrow> int \<times> 'w"
  persComDbDeleteKey :: "int \<Rightarrow> string \<Rightarrow> 'w \<Rightarrow> int \<times> 'w"
  persComRctOpen :: "string \<Rightarrow> int \<Rightarrow> 'w \<Rightarrow> int \<times> 'w"
  persComRctRead :: "int \<Rightarrow> string \<Rightarrow> 'w \<Rightarrow> (int \<times> config_key) \<times> 'w"
  persComRctClose :: "int \<Rightarrow> 'w \<Rightarrow> int \<times> 'w"
  dlopen :: "string \<Rightarrow> 'w \<Rightarrow> fn_ptr \<times> 'w"
  dlsym :: "fn_ptr \<Rightarrow> string \<Rightarrow> 'w \<Rightarrow> fn_ptr \<times> 'w"
  dlclose :: "fn_ptr \<Rightarrow> 'w \<Rightarrow> int \<times> 'w"
  call_plugin_init :: "nat \<Rightarrow> 'w \<Rightarrow> int \<times> 'w"
  call_plugin_init_async :: "nat \<Rightarrow> fn_ptr \<Rightarrow> 'w \<Rightarrow> int \<times> 'w"
  call_plugin_deinit :: "nat \<Rightarrow> 'w \<Rightarrow> int \<times> 'w"
  call_plugin_get_data :: "nat \<Rightarrow> string \<Rightarrow> u8 list \<Rightarrow> int \<Rightarrow> 'w \<Rightarrow> (int \<times> u8 list) \<times> 'w"
  call_plugin_set_data :: "nat \<Rightarrow> string \<Rightarrow> u8 list \<Rightarrow> int \<Rightarrow> 'w \<Rightarrow> int \<times> 'w"
  call_plugin_get_size :: "nat \<Rightarrow> string \<Rightarrow> 'w \<Rightarrow> int \<times> 'w"
  call_plugin_delete_data :: "nat \<Rightarrow> string \<Rightarrow> 'w \<Rightarrow> int \<times> 'w"

section \<open>Documented behaviour of the databases\<close>

text \<open>What a database handle holds, and what a configuration table handle holds, in a world.\<close>

type_synonym 'w db_view = "'w \<Rightarrow> int \<Rightarrow> string \<Rightarrow> u8 list option"
type_synonym 'w rct_view = "'w \<Rightarrow> int \<Rightarrow> string \<Rightarrow> config_key option"

definition db_read_law :: "('w, 'e) perscom_scheme \<Rightarrow> 'w db_view \<Rightarrow> bool" where
  "db_read_law E D \<longleftrightarrow> (\<forall>w h k buf n.
     snd (persComDbReadKey E h k buf n w) = w \<and>
     (\<forall>d. D w h k = Some d \<longrightarrow> int (length d) \<le> n \<longrightarrow>
        fst (persComDbReadKey E h k buf n w) = (int (length d), d @ drop (length d) buf)) \<and>
     (D w h k = None \<longrightarrow> fst (persComDbReadKey E h k buf n w) = (PERS_COM_ERR_NOT_FOUND E, buf)))"

definition db_size_law :: "('w, 'e) perscom_scheme \<Rightarrow> 'w db_view \<Rightarrow> bool" where
  "db_size_law E D \<longleftrightarrow> (\<forall>w h k.
     persComDbGetKeySize E h k w =
       ((case D w h k of None \<Rightarrow> PERS_COM_ERR_NOT_FOUND E | Some d \<Rightarrow> int (length d)), w))"

definition db_write_law :: "('w, 'e) perscom_scheme \<Rightarrow> 'w db_view \<Rightarrow> 'w rct_view \<Rightarrow> bool" where
  "db_write_law E D R \<longleftrightarrow> (\<forall>w h k buf n r w'.
     persComDbWriteKey E h k buf n w = (r, w') \<longrightarrow> 0 \<le> n \<longrightarrow> nat n \<le> length buf \<longrightarrow>
       R w' = R w \<and>
       (0 \<le> r \<longrightarrow> r = n \<and> D w' h k = Some (take (nat n) buf)) \<and>
       (r < 0 \<longrightarrow> D w' h k = D w h k) \<and>
       (\<forall>h' k'. (h', k') \<noteq> (h, k) \<longrightarrow> D w' h' k' = D w h' k'))"

definition db_delete_law :: "('w, 'e) perscom_scheme \<Rightarrow> 'w db_view \<Rightarrow> 'w rct_view \<Rightarrow> bool" where
  "db_delete_law E D R \<longleftrightarrow> (\<forall>w h k r w'.
     persComDbDeleteKey E h k w = (r, w') \<longrightarrow>
       R w' = R w \<and> (0 \<le> r \<longrightarrow> D w' h k = None) \<and> (r < 0 \<longrightarrow> D w' h k = D w h k) \<and>
       (D w h k = None \<longrightarrow> r = PERS_COM_ERR_NOT_FOUND E) \<and>
       (\<forall>h' k'. (h', k') \<noteq> (h, k) \<longrightarrow> D w' h' k' = D w h' k'))"

text \<open>Opening a database or a configuration table does not change what the open ones hold.\<close>

definition open_law :: "('w, 'e) perscom_scheme \<Rightarrow> 'w db_view \<Rightarrow> 'w rct_view \<Rightarrow> bool" where
  "open_law E D R \<longleftrightarrow> (\<forall>w p m.
     D (snd (persComDbOpen E p m w)) = D w \<and> R (snd (persComDbOpen E p m w)) = R w \<and>
     D (snd (persComRctOpen E p m w)) = D w \<and> R (snd (persComRctOpen E p m w)) = R w)"

definition rct_law :: "('w, 'e) perscom_scheme \<Rightarrow> 'w rct_view \<Rightarrow> bool" where
  "rct_law E R \<longleftrightarrow> (\<forall>w h k.
     snd (persComRctRead E h k w) = w \<and>
     (\<forall>c. R w h k = Some c \<longrightarrow>
        fst (persComRctRead E h k w) = (sizeof_PersistenceConfigurationKey E, c)) \<and>
     (R w h k = None \<longrightarrow> fst (fst (persComRctRead E h k w)) < 0))"

definition kv_lawful :: "('w, 'e) perscom_scheme \<Rightarrow> 'w db_view \<Rightarrow> 'w rct_view \<Rightarrow> bool" where
  "kv_lawful E D R \<longleftrightarrow> consts_ok E \<and> db_read_law E D \<and> db_size_law E D \<and> db_write_law E D R \<and>
     db_delete_law E D R \<and> open_law E D R \<and> rct_law E R"

lemmas kv_lawful_defs = kv_lawful_def db_read_law_def db_size_law_def db_write_law_def
  db_delete_law_def open_law_def rct_law_def

section \<open>A concrete environment\<close>

text \<open>A small in-memory implementation that meets the laws: every database path is its own handle
  \<open>length path\<close>, every configuration table handle is 7 and holds the entries given. It serves to show that the
  hypotheses of the properties hold somewhere, and to run the model.\<close>

record mem_world =
  mem_db :: "int \<Rightarrow> string \<Rightarrow> u8 list option"
  mem_rct :: "string \<Rightarrow> config_key option"

definition mem_config :: "int \<Rightarrow> int \<Rightarrow> config_key" where
  "mem_config sto pol = \<lparr>policy = pol, storage = sto, rtype = 0, permission = 0, max_size = 4096,
     customID = [NUL], reponsible = [NUL], custom_name = ''secure'' @ [NUL]\<rparr>"

definition mem_env :: "mem_world perscom" where
  "mem_env = \<lparr>
     PERS_ORG_ROOT_PATH = ''/Data'', PERS_ORG_USER_FOLDER_NAME = ''/user/'',
     PERS_ORG_SEAT_FOLDER_NAME = ''/seat/'', PERS_ORG_DEFAULT_DATA_FOLDER_NAME = ''/defaultData/'',
     gNode = ''/node'', gUser = ''/user/'', gSeat = ''/seat/'', gLocalWt = ''/wt.itz'',
     gLocalCached = ''/cached.itz'', gLocalConfigurableDefault = ''/configurable-default-data.itz'',
     gLocalFactoryDefault = ''/default-data.itz'',
     gResTableCfg = ''/resource-table-cfg.itz'', PERS_DB_MAX_LENGTH_KEY_NAME = 128,
     PERS_ORG_MAX_LENGTH_PATH_FILENAME = 256, PERS_RCT_MAX_LENGTH_RESPONSIBLE = 32,
     PERS_RCT_MAX_LENGTH_CUSTOM_NAME = 32, PERS_DB_MAX_SIZE_KEY_DATA = 16384,
     PersistencePolicy_wc = 0, PersistencePolicy_wt = 1, PersistencePolicy_LastEntry = 3,
     PersistenceStorage_local = 0, PersistenceStorage_shared = 1, PersistenceStorage_custom = 2,
     PersistenceStorage_LastEntry = 3, PersistenceResourceType_key = 0, PersistenceResourceType_file = 1,
     PersistencePermission_ReadWrite = 0, PersistencePermission_ReadOnly = 1,
     PersistencePermission_WriteOnly = 2, PersistencePermission_LastEntry = 3,
     PERS_COM_ERR_NOT_FOUND = - 10, sizeof_PersistenceConfigurationKey = 160,
     persComDbOpen = (\<lambda>p m w. (int (length p), w)),
     persComDbClose = (\<lambda>h w. (0, w)),
     persComDbReadKey = (\<lambda>h k buf n w. case mem_db w h k of None \<Rightarrow> ((- 10, buf), w)
        | Some d \<Rightarrow> if int (length d) \<le> n then ((int (length d), d @ drop (length d) buf), w)
                    else ((- 3, buf), w)),
     persComDbGetKeySize = (\<lambda>h k w. (case mem_db w h k of None \<Rightarrow> - 10 | Some d \<Rightarrow> int (length d), w)),
     persComDbWriteKey = (\<lambda>h k buf n w.
        (n, w\<lparr>mem_db := (mem_db w)(h := (mem_db w h)(k \<mapsto> take (nat n) buf))\<rparr>)),
     persComDbDeleteKey = (\<lambda>h k w. if mem_db w h k = None then (- 10, w)
        else (0, w\<lparr>mem_db := (mem_db w)(h := (mem_db w h)(k := None))\<rparr>)),
     persComRctOpen = (\<lambda>p m w. (7, w)),
     persComRctRead = (\<lambda>h k w. case mem_rct w k of None \<Rightarrow> ((- 10, mem_config 0 0), w)
        | Some c \<Rightarrow> ((160, c), w)),
     persComRctClose = (\<lambda>h w. (0, w)),
     dlopen = (\<lambda>n w. (Some 1, w)),
     dlsym = (\<lambda>h n w. (Some 2, w)),
     dlclose = (\<lambda>h w. (0, w)),
     call_plugin_init = (\<lambda>f w. (1, w)),
     call_plugin_init_async = (\<lambda>f cb w. (1, w)),
     call_plugin_deinit = (\<lambda>f w. (1, w)),
     call_plugin_get_data = (\<lambda>f p buf n w. ((1, buf), w)),
     call_plugin_set_data = (\<lambda>f p buf n w. (n, w)),
     call_plugin_get_size = (\<lambda>f p w. (1, w)),
     call_plugin_delete_data = (\<lambda>f p w. (1, w))\<rparr>"

definition mem_start :: mem_world where
  "mem_start = \<lparr>mem_db = (\<lambda>_ _. None), mem_rct = (\<lambda>_. None)\<rparr>"

lemma mem_env_sel [simp]:
  "PersistencePolicy_wc mem_env = 0" "PersistencePolicy_wt mem_env = 1" "PersistencePolicy_LastEntry mem_env = 3"
  "PersistenceStorage_local mem_env = 0" "PersistenceStorage_shared mem_env = 1"
  "PersistenceStorage_custom mem_env = 2" "PersistenceStorage_LastEntry mem_env = 3"
  "PersistenceResourceType_key mem_env = 0" "PersistenceResourceType_file mem_env = 1"
  "PersistencePermission_ReadWrite mem_env = 0" "PersistencePermission_ReadOnly mem_env = 1"
  "PersistencePermission_WriteOnly mem_env = 2" "PersistencePermission_LastEntry mem_env = 3"
  "PERS_COM_ERR_NOT_FOUND mem_env = - 10" "sizeof_PersistenceConfigurationKey mem_env = 160"
  "DbKeyMaxLen mem_env = 128" "DbResIDMaxLen mem_env = 128" "DbPathMaxLen mem_env = 256"
  "MaxAppNameLen mem_env = 32" "defaultMaxKeyValDataSize mem_env = 16384"
  "gNode mem_env = ''/node''" "gUser mem_env = ''/user/''" "gSeat mem_env = ''/seat/''"
  "gLocalWt mem_env = ''/wt.itz''" "gLocalCached mem_env = ''/cached.itz''"
  "persComDbOpen mem_env p m w = (int (length p), w)"
  "persComDbClose mem_env h w = (0, w)"
  "persComDbWriteKey mem_env h k buf n w = (n, w\<lparr>mem_db := (mem_db w)(h := (mem_db w h)(k \<mapsto> take (nat n) buf))\<rparr>)"
  "persComRctClose mem_env h w = (0, w)"
  by (simp_all add: mem_env_def DbKeyMaxLen_def DbResIDMaxLen_def DbPathMaxLen_def MaxAppNameLen_def
      defaultMaxKeyValDataSize_def)

lemma mem_config_sel [simp]:
  "policy (mem_config sto pol) = pol" "storage (mem_config sto pol) = sto"
  "rtype (mem_config sto pol) = 0" "permission (mem_config sto pol) = 0"
  by (simp_all add: mem_config_def)

lemma mem_env_lawful: "kv_lawful mem_env mem_db (\<lambda>w h. mem_rct w)"
  unfolding kv_lawful_defs
  by (auto simp: mem_env_def consts_ok_def mem_config_def split: option.splits if_splits)

end
