(* ===== verification/Tokens.thy ===== *)
theory Tokens
  imports Data_Organization
begin

text \<open>
  Splitting a mapped configuration file into tokens, as the custom library loader
  (\<open>fillCustomCharTokenArray\<close>) and the backup blacklist (\<open>fillFileBackupCharTokenArray\<close>) both do: every
  separator is overwritten with a NUL and the address of the next character is stored in a table of 255
  pointers.

  A pointer is what can be read through it: the mapped memory from there on. A mapping ends in the zero
  padding of its last page, unless the file fills the page exactly.
\<close>

datatype token_ptr = Tok_null | Tok string | Tok_dangling

datatype mapped_file = Stat_failed | Open_failed | Map_failed | Mapped string

definition page_padding :: "nat \<Rightarrow> string" where
  "page_padding n = (if n mod 4096 = 0 then [] else [NUL])"

text \<open>The string at a token; \<open>None\<close> for NULL, for memory that is no longer mapped, and when the string
  runs off the mapping.\<close>

fun token_string :: "token_ptr \<Rightarrow> string option" where
  "token_string Tok_null = None"
| "token_string (Tok m) = cstr_of_array m"
| "token_string Tok_dangling = None"

text \<open>The loop: \<open>sep c\<close> says whether \<open>c\<close> is a separator (\<open>None\<close>: the lookup leaves its table), \<open>i\<close> is the offset,
  \<open>cnt\<close> the number of entries used. Returns the memory and the offsets stored.\<close>

fun fill_tokens :: "(char \<Rightarrow> bool option) \<Rightarrow> string \<Rightarrow> nat \<Rightarrow> nat \<Rightarrow> (string \<times> nat list) option" where
  "fill_tokens sep [] i cnt = Some ([], [])"
| "fill_tokens sep (c # cs) i cnt = do {
     b \<leftarrow> sep c;
     if b then
       if TOKENARRAYSIZE \<le> cnt then Some (NUL # cs, [])
       else do {
         (m, offs) \<leftarrow> fill_tokens sep cs (i + 1) (cnt + 1);
         Some (NUL # m, (i + 1) # offs)
       }
     else do {
       (m, offs) \<leftarrow> fill_tokens sep cs (i + 1) cnt;
       Some (c # m, offs)
     }
   }"

definition store_tokens :: "(nat \<Rightarrow> token_ptr) \<Rightarrow> string \<Rightarrow> nat list \<Rightarrow> nat \<Rightarrow> token_ptr" where
  "store_tokens old mem offs k =
     (if k < length offs then Tok (drop (offs ! k) (mem @ page_padding (length mem))) else old k)"

definition token_table :: "(char \<Rightarrow> bool option) \<Rightarrow> string \<Rightarrow> (nat \<Rightarrow> token_ptr) \<Rightarrow> (nat \<Rightarrow> token_ptr) option" where
  "token_table sep file old = do {
     (mem, offs) \<leftarrow> fill_tokens sep file 0 1;
     Some (store_tokens old mem (0 # offs))
   }"

text \<open>The lookups of the two files: the loader indexes the table with every character, the blacklist
  takes characters outside the table as part of a token.\<close>

definition sep_custom :: "char \<Rightarrow> bool option" where
  "sep_custom c =
     (if (of_char c :: nat) < gCharLookupSize then Some (gCharLookup (of_char c) \<noteq> 1) else None)"

definition sep_backup :: "char \<Rightarrow> bool option" where
  "sep_backup c =
     (if (of_char c :: nat) < 127 then Some (gCharLookup (of_char c) \<noteq> 1) else Some False)"

section \<open>A file of terminated tokens is read back\<close>

text \<open>The text of a configuration file: each token is followed by one separator character.\<close>

definition config_text :: "char \<Rightarrow> string list \<Rightarrow> string" where
  "config_text s ts = concat (map (\<lambda>t. t @ [s]) ts)"

definition token_ok :: "(char \<Rightarrow> bool option) \<Rightarrow> string \<Rightarrow> bool" where
  "token_ok sep t \<longleftrightarrow> (\<forall>c \<in> set t. sep c = Some False \<and> c \<noteq> NUL)"

lemma fill_token:
  assumes "\<forall>c \<in> set t. sep c = Some False"
  shows "fill_tokens sep (t @ cs) i cnt =
    map_option (\<lambda>(m, offs). (t @ m, offs)) (fill_tokens sep cs (i + length t) cnt)"
  using assms
proof (induction t arbitrary: i)
  case Nil
  then show ?case by (simp add: option.map_id0 [unfolded id_def] case_prod_beta)
next
  case (Cons c t)
  then show ?case
    by (cases "fill_tokens sep cs (i + Suc (length t)) cnt") (auto simp: ac_simps)
qed

fun offsets :: "nat \<Rightarrow> string list \<Rightarrow> nat list" where
  "offsets i [] = []"
| "offsets i (t # ts) = (i + length t + 1) # offsets (i + length t + 1) ts"

lemma length_offsets [simp]: "length (offsets i ts) = length ts"
  by (induction i ts rule: offsets.induct) auto

lemma fill_config_text:
  assumes "\<forall>t \<in> set ts. token_ok sep t" and "sep s = Some True" and "cnt + length ts \<le> TOKENARRAYSIZE"
  shows "fill_tokens sep (config_text s ts) i cnt = Some (config_text NUL ts, offsets i ts)"
  using assms(1,3)
proof (induction ts arbitrary: i cnt)
  case Nil
  then show ?case by (simp add: config_text_def)
next
  case (Cons t ts)
  have t: "\<forall>c \<in> set t. sep c = Some False" using Cons.prems(1) by (simp add: token_ok_def)
  have "fill_tokens sep (config_text s ts) (i + length t + 1) (cnt + 1)
     = Some (config_text NUL ts, offsets (i + length t + 1) ts)"
    using Cons.IH [of "cnt + 1" "i + length t + 1"] Cons.prems by simp
  moreover have "config_text s (t # ts) = t @ s # config_text s ts" for s by (simp add: config_text_def)
  ultimately show ?case
    using Cons.prems(2) assms(2) fill_token [OF t, of "s # config_text s ts" i cnt] by simp
qed

lemma drop_offsets:
  "k < length ts \<Longrightarrow> drop ((i # offsets i ts) ! k - i) (config_text NUL ts) = ts ! k @ NUL # config_text NUL (drop (Suc k) ts)
     \<and> i \<le> (i # offsets i ts) ! k"
proof (induction ts arbitrary: i k)
  case Nil
  then show ?case by simp
next
  case (Cons t ts)
  show ?case
  proof (cases k)
    case 0
    then show ?thesis by (simp add: config_text_def)
  next
    case (Suc j)
    let ?i = "i + length t + 1"
    have ih: "drop ((?i # offsets ?i ts) ! j - ?i) (config_text NUL ts) = ts ! j @ NUL # config_text NUL (drop (Suc j) ts)"
        "?i \<le> (?i # offsets ?i ts) ! j"
      using Cons.IH [of j ?i] Cons.prems Suc by simp_all
    obtain d where d: "(?i # offsets ?i ts) ! j = ?i + d" using ih(2) le_Suc_ex by blast
    have "config_text NUL (t # ts) = (t @ [NUL]) @ config_text NUL ts" by (simp add: config_text_def)
    then show ?thesis using ih(1) d Suc by simp
  qed
qed

lemma token_table_read:
  assumes "\<forall>t \<in> set ts. token_ok sep t" and "sep s = Some True" and "length ts < TOKENARRAYSIZE"
  shows "\<exists>tab. token_table sep (config_text s ts) old = Some tab \<and>
     (\<forall>k < length ts. token_string (tab k) = Some (ts ! k)) \<and>
     tab (length ts) \<noteq> Tok_null \<and> (\<forall>k > length ts. tab k = old k)"
proof -
  have "fill_tokens sep (config_text s ts) 0 1 = Some (config_text NUL ts, offsets 0 ts)"
    using fill_config_text [OF assms(1,2), of 1 0] assms(3) by simp
  then have tab: "token_table sep (config_text s ts) old =
      Some (store_tokens old (config_text NUL ts) (0 # offsets 0 ts))"
    by (simp add: token_table_def)
  have "token_string (store_tokens old (config_text NUL ts) (0 # offsets 0 ts) k) = Some (ts ! k)"
    if k: "k < length ts" for k
  proof -
    let ?o = "(0 # offsets 0 ts) ! k"
    have d: "drop ?o (config_text NUL ts) = ts ! k @ NUL # config_text NUL (drop (Suc k) ts)"
      using drop_offsets [OF k, of 0] by simp
    then have "?o \<le> length (config_text NUL ts)"
      by (metis append_is_Nil_conv drop_all list.discI nat_le_linear)
    then have "drop ?o (config_text NUL ts @ page_padding n) = ts ! k @ NUL # config_text NUL (drop (Suc k) ts) @ page_padding n" for n
      using d by simp
    moreover have "NUL \<notin> set (ts ! k)" using assms(1) k by (metis nth_mem token_ok_def)
    ultimately show ?thesis using k by (simp add: store_tokens_def cstr_of_array_terminated)
  qed
  then show ?thesis using tab by (simp add: store_tokens_def)
qed

lemma sep_table:
  "(of_char c :: nat) < 127 \<Longrightarrow> sep_custom c = Some ((of_char c :: nat) \<le> 32)"
  "(of_char c :: nat) < 127 \<Longrightarrow> sep_backup c = Some ((of_char c :: nat) \<le> 32)"
  by (auto simp: sep_custom_def sep_backup_def c_const gCharLookup_table)

end
