(* ===== verification/Posix_Fs.thy ===== *)
theory Posix_Fs
  imports C_Base
begin

text \<open>
  The part of the POSIX file interface that the backup and file components call: names, inodes, open
  file descriptors.

  \<^item> A path is resolved to the list of its components; \<open>.\<close>, \<open>..\<close> and links are not interpreted.
  \<^item> A name is a directory or the number of an inode. \<open>fs_data\<close> is what the system shows of an inode,
    \<open>fs_disk\<close> what is on the medium: only \<open>fsync\<close> moves the one to the other.
  \<^item> \<open>fs_denied r m\<close>: access to the path \<open>r\<close> with mode \<open>m\<close> (0 read, 1 write, 2 both, 3 adding or
    removing the name) is refused by the system.
  \<^item> Directories can neither be opened nor removed: the library does that only with files. The device
    is never full, reads and writes of regular files are complete.
  \<^item> \<open>errno\<close> is kept for \<open>open\<close>, the only call after which the library looks at it.
\<close>

named_theorems fs_sel \<comment> \<open>what an operation keeps\<close>

section \<open>State\<close>

datatype fs_node = Dir | Reg nat

datatype errno_t = ENONE | ENOENT | EACCES | EMFILE | EISDIR

record ofd =
  of_ino :: nat
  of_pos :: nat
  of_read :: bool
  of_write :: bool

record fs =
  fs_names :: "string list \<Rightarrow> fs_node option"
  fs_data :: "nat \<Rightarrow> u8 list"
  fs_disk :: "nat \<Rightarrow> u8 list"
  fs_next :: nat
  fs_fds :: "ofd option list"
  fs_maxfd :: nat
  fs_denied :: "string list \<Rightarrow> int \<Rightarrow> bool"
  fs_errno :: errno_t

definition O_RDONLY :: int where [simp]: "O_RDONLY = 0"
definition O_WRONLY :: int where [simp]: "O_WRONLY = 1"
definition O_RDWR :: int where [simp]: "O_RDWR = 2"

section \<open>Strings and bytes\<close>

text \<open>\<open>strtok\<close>, called until it returns NULL: the non-empty pieces between separators.\<close>

fun strtok_all :: "(char \<Rightarrow> bool) \<Rightarrow> string \<Rightarrow> string \<Rightarrow> string list" where
  "strtok_all sep cur [] = (if cur = [] then [] else [cur])"
| "strtok_all sep cur (c # cs) =
     (if sep c then (if cur = [] then strtok_all sep [] cs else cur # strtok_all sep [] cs)
      else strtok_all sep (cur @ [c]) cs)"

definition resolve :: "string \<Rightarrow> string list" where
  "resolve p = strtok_all (\<lambda>c. c = CHR ''/'') [] p"

text \<open>The path of a list of components.\<close>

definition path_of :: "string list \<Rightarrow> string" where
  "path_of xs = concat (map (\<lambda>x. CHR ''/'' # x) xs)"

lemma path_of_inject:
  assumes "path_of xs = path_of ys"
    and "\<forall>x \<in> set xs. CHR ''/'' \<notin> set x" and "\<forall>y \<in> set ys. CHR ''/'' \<notin> set y"
  shows "xs = ys"
  using assms
proof (induction xs arbitrary: ys)
  case Nil
  then show ?case by (cases ys) (auto simp: path_of_def)
next
  case (Cons x xs)
  from Cons.prems(1) obtain y ys' where ys: "ys = y # ys'" by (cases ys) (auto simp: path_of_def)
  have tail: "path_of zs = [] \<or> hd (path_of zs) = CHR ''/''" for zs by (cases zs) (auto simp: path_of_def)
  have take: "takeWhile (\<lambda>c. c \<noteq> CHR ''/'') (x @ path_of zs) = x"
    if "CHR ''/'' \<notin> set x" for x zs
    using that tail [of zs] by (induction x) (auto simp: takeWhile_eq_Nil_iff)
  have eq: "x @ path_of xs = y @ path_of ys'" using Cons.prems(1) ys by (simp add: path_of_def)
  then have "x = y" using take Cons.prems(2,3) ys by (metis list.set_intros(1))
  with eq have "path_of xs = path_of ys'" by simp
  with Cons.IH [of ys'] Cons.prems(2,3) ys \<open>x = y\<close> show ?case by simp
qed

definition char_byte :: "char \<Rightarrow> u8" where
  "char_byte c = of_nat (of_char c)"

definition byte_char :: "u8 \<Rightarrow> char" where
  "byte_char b = char_of (unat b)"

definition bytes :: "string \<Rightarrow> u8 list" where
  "bytes s = map char_byte s"

text \<open>The string in a zeroed buffer into which bytes have been read.\<close>

definition str_of_bytes :: "u8 list \<Rightarrow> string" where
  "str_of_bytes bs = takeWhile (\<lambda>c. c \<noteq> NUL) (map byte_char bs)"

lemma byte_char_char_byte [simp]: "byte_char (char_byte c) = c"
proof -
  have "(of_char c :: nat) < 256" by (metis of_char_mod_256 mod_less_divisor zero_less_numeral)
  then show ?thesis by (simp add: byte_char_def char_byte_def unat_of_nat)
qed

lemma length_bytes [simp]: "length (bytes s) = length s"
  by (simp add: bytes_def)

lemma str_of_bytes_bytes: "NUL \<notin> set s \<Longrightarrow> str_of_bytes (bytes s) = s"
  by (simp add: str_of_bytes_def bytes_def comp_def takeWhile_eq_all_conv) (auto intro: takeWhile_eq_all_conv [THEN iffD2])

section \<open>File descriptors\<close>

fun free_fd :: "ofd option list \<Rightarrow> nat" where
  "free_fd [] = 0"
| "free_fd (None # r) = 0"
| "free_fd (Some x # r) = Suc (free_fd r)"

definition put_fd :: "ofd option list \<Rightarrow> nat \<Rightarrow> ofd \<Rightarrow> ofd option list" where
  "put_fd l i x = (if i < length l then l[i := Some x] else l @ [Some x])"

definition get_fd :: "fs \<Rightarrow> int \<Rightarrow> ofd option" where
  "get_fd f fd = (if 0 \<le> fd \<and> nat fd < length (fs_fds f) then fs_fds f ! nat fd else None)"

definition set_pos :: "int \<Rightarrow> nat \<Rightarrow> fs \<Rightarrow> fs" where
  "set_pos fd pos f =
     (case get_fd f fd of
        Some d \<Rightarrow> f\<lparr>fs_fds := (fs_fds f)[nat fd := Some (d\<lparr>of_pos := pos\<rparr>)]\<rparr>
      | None \<Rightarrow> f)"

section \<open>Calls\<close>

definition fs_access :: "string \<Rightarrow> fs \<Rightarrow> int" where
  "fs_access p f = (if fs_names f (resolve p) = None then - 1 else 0)"

definition may_add :: "fs \<Rightarrow> string list \<Rightarrow> bool" where
  "may_add f r \<longleftrightarrow> r \<noteq> [] \<and> fs_names f (butlast r) = Some Dir \<and> \<not> fs_denied f r 3"

definition fs_fail :: "errno_t \<Rightarrow> fs \<Rightarrow> int \<times> fs" where
  "fs_fail e f = (- 1, f\<lparr>fs_errno := e\<rparr>)"

definition new_fd :: "nat \<Rightarrow> int \<Rightarrow> fs \<Rightarrow> int \<times> fs" where
  "new_fd n mode f =
     (let i = free_fd (fs_fds f) in
      (int i, f\<lparr>fs_fds := put_fd (fs_fds f) i
         \<lparr>of_ino = n, of_pos = 0, of_read = (mode \<noteq> O_WRONLY), of_write = (mode \<noteq> O_RDONLY)\<rparr>\<rparr>))"

definition fs_open :: "string \<Rightarrow> int \<Rightarrow> bool \<Rightarrow> bool \<Rightarrow> fs \<Rightarrow> int \<times> fs" where
  "fs_open p mode creat trunc f =
     (let r = resolve p in
      case fs_names f r of
        Some Dir \<Rightarrow> fs_fail EISDIR f
      | Some (Reg n) \<Rightarrow>
          if fs_denied f r mode then fs_fail EACCES f
          else if fs_maxfd f \<le> free_fd (fs_fds f) then fs_fail EMFILE f
          else new_fd n mode (if trunc then f\<lparr>fs_data := (fs_data f)(n := [])\<rparr> else f)
      | None \<Rightarrow>
          if \<not> creat \<or> r = [] \<or> fs_names f (butlast r) \<noteq> Some Dir then fs_fail ENOENT f
          else if fs_denied f r 3 then fs_fail EACCES f
          else if fs_maxfd f \<le> free_fd (fs_fds f) then fs_fail EMFILE f
          else new_fd (fs_next f) mode
                 (f\<lparr>fs_names := (fs_names f)(r \<mapsto> Reg (fs_next f)),
                    fs_data := (fs_data f)(fs_next f := []), fs_disk := (fs_disk f)(fs_next f := []),
                    fs_next := fs_next f + 1\<rparr>))"

definition fs_close :: "int \<Rightarrow> fs \<Rightarrow> int \<times> fs" where
  "fs_close fd f =
     (case get_fd f fd of
        None \<Rightarrow> (- 1, f)
      | Some d \<Rightarrow> (0, f\<lparr>fs_fds := (fs_fds f)[nat fd := None]\<rparr>))"

definition fs_read :: "int \<Rightarrow> nat \<Rightarrow> fs \<Rightarrow> (int \<times> u8 list) \<times> fs" where
  "fs_read fd n f =
     (case get_fd f fd of
        None \<Rightarrow> ((- 1, []), f)
      | Some d \<Rightarrow>
          if of_read d then
            let bs = take n (drop (of_pos d) (fs_data f (of_ino d)))
            in ((int (length bs), bs), set_pos fd (of_pos d + length bs) f)
          else ((- 1, []), f))"

definition write_at :: "nat \<Rightarrow> u8 list \<Rightarrow> u8 list \<Rightarrow> u8 list" where
  "write_at pos bs d = take pos d @ replicate (pos - length d) 0 @ bs @ drop (pos + length bs) d"

definition fs_write :: "int \<Rightarrow> u8 list \<Rightarrow> fs \<Rightarrow> int \<times> fs" where
  "fs_write fd bs f =
     (case get_fd f fd of
        None \<Rightarrow> (- 1, f)
      | Some d \<Rightarrow>
          if of_write d then
            (int (length bs),
             set_pos fd (of_pos d + length bs)
               (f\<lparr>fs_data := (fs_data f)(of_ino d := write_at (of_pos d) bs (fs_data f (of_ino d)))\<rparr>))
          else (- 1, f))"

text \<open>\<open>whence\<close>: 0 from the start, 1 from the position, 2 from the end.\<close>

definition fs_lseek :: "int \<Rightarrow> int \<Rightarrow> int \<Rightarrow> fs \<Rightarrow> int \<times> fs" where
  "fs_lseek fd off whence f =
     (case get_fd f fd of
        None \<Rightarrow> (- 1, f)
      | Some d \<Rightarrow>
          let base = (if whence = 0 then 0 else if whence = 1 then int (of_pos d)
                      else int (length (fs_data f (of_ino d))))
          in if whence < 0 \<or> 2 < whence \<or> base + off < 0 then (- 1, f)
             else (base + off, set_pos fd (nat (base + off)) f))"

text \<open>The size, when the descriptor is open.\<close>

definition fs_fstat :: "int \<Rightarrow> fs \<Rightarrow> nat option" where
  "fs_fstat fd f = map_option (\<lambda>d. length (fs_data f (of_ino d))) (get_fd f fd)"

definition fs_sendfile :: "int \<Rightarrow> int \<Rightarrow> nat \<Rightarrow> fs \<Rightarrow> int \<times> fs" where
  "fs_sendfile out_fd in_fd n f =
     (case (get_fd f in_fd, get_fd f out_fd) of
        (Some i, Some out) \<Rightarrow>
          if of_read i \<and> of_write out then
            let ((r, bs), f) = fs_read in_fd n f in fs_write out_fd bs f
          else (- 1, f)
      | _ \<Rightarrow> (- 1, f))"

definition fs_mkdir :: "string \<Rightarrow> fs \<Rightarrow> fs" where
  "fs_mkdir p f =
     (if fs_names f (resolve p) = None \<and> may_add f (resolve p)
      then f\<lparr>fs_names := (fs_names f)(resolve p \<mapsto> Dir)\<rparr> else f)"

definition fs_remove :: "string \<Rightarrow> fs \<Rightarrow> int \<times> fs" where
  "fs_remove p f =
     (case fs_names f (resolve p) of
        Some (Reg n) \<Rightarrow>
          if fs_denied f (resolve p) 3 then (- 1, f)
          else (0, f\<lparr>fs_names := (fs_names f)(resolve p := None)\<rparr>)
      | _ \<Rightarrow> (- 1, f))"

definition fs_fsync :: "int \<Rightarrow> fs \<Rightarrow> int \<times> fs" where
  "fs_fsync fd f =
     (case get_fd f fd of
        None \<Rightarrow> (- 1, f)
      | Some d \<Rightarrow> (0, f\<lparr>fs_disk := (fs_disk f)(of_ino d := fs_data f (of_ino d))\<rparr>))"

section \<open>Views\<close>

definition file_content :: "fs \<Rightarrow> string \<Rightarrow> u8 list option" where
  "file_content f p = (case fs_names f (resolve p) of Some (Reg n) \<Rightarrow> Some (fs_data f n) | _ \<Rightarrow> None)"

definition fs_wf :: "fs \<Rightarrow> bool" where
  "fs_wf f \<longleftrightarrow>
     (\<forall>r n. fs_names f r = Some (Reg n) \<longrightarrow> n < fs_next f) \<and>
     (\<forall>r r' n. fs_names f r = Some (Reg n) \<longrightarrow> fs_names f r' = Some (Reg n) \<longrightarrow> r = r') \<and>
     (\<forall>k d. get_fd f k = Some d \<longrightarrow> of_ino d < fs_next f) \<and> length (fs_fds f) \<le> fs_maxfd f"

text \<open>A file system with some directories, the three standard descriptors on a file without a name.\<close>

definition fs_start :: "string list \<Rightarrow> fs" where
  "fs_start dirs = \<lparr>fs_names = (\<lambda>r. if r = [] \<or> r \<in> set (map resolve dirs) then Some Dir else None),
     fs_data = (\<lambda>_. []), fs_disk = (\<lambda>_. []), fs_next = 1,
     fs_fds = replicate 3 (Some \<lparr>of_ino = 0, of_pos = 0, of_read = True, of_write = True\<rparr>),
     fs_maxfd = 1024, fs_denied = (\<lambda>_ _. False), fs_errno = ENONE\<rparr>"

section \<open>Descriptors after each call\<close>

lemma free_fd_le: "free_fd l \<le> length l"
  by (induction l rule: free_fd.induct) auto

lemma free_fd_None: "free_fd l < length l \<Longrightarrow> l ! free_fd l = None"
  by (induction l rule: free_fd.induct) auto

lemma get_fd_free: "get_fd f (int (free_fd (fs_fds f))) = None"
  using free_fd_None by (simp add: get_fd_def)

lemma get_fd_cong [simp]:
  "get_fd (f\<lparr>fs_data := x\<rparr>) = get_fd f" "get_fd (f\<lparr>fs_disk := x\<rparr>) = get_fd f"
  "get_fd (f\<lparr>fs_names := y\<rparr>) = get_fd f" "get_fd (f\<lparr>fs_errno := e\<rparr>) = get_fd f"
  "get_fd (f\<lparr>fs_next := n\<rparr>) = get_fd f"
  by (simp_all add: get_fd_def fun_eq_iff)

lemma get_fd_put:
  "get_fd (f\<lparr>fs_fds := put_fd (fs_fds f) (free_fd (fs_fds f)) d\<rparr>)
     = (get_fd f)(int (free_fd (fs_fds f)) := Some d)"
  using free_fd_le [of "fs_fds f"]
  by (auto simp: get_fd_def put_fd_def fun_eq_iff nth_append nth_list_update split: if_splits)

lemma get_fd_less: "get_fd f fd = Some d \<Longrightarrow> fd < int (length (fs_fds f))"
  by (auto simp: get_fd_def split: if_splits)

lemma length_put_fd: "length (put_fd l i d) \<le> Suc (length l)"
  by (simp add: put_fd_def)

lemma get_fd_upd:
  "get_fd f fd \<noteq> None \<Longrightarrow> get_fd (f\<lparr>fs_fds := (fs_fds f)[nat fd := x]\<rparr>) = (get_fd f)(fd := x)"
  by (auto simp: get_fd_def fun_eq_iff nth_list_update nat_eq_iff split: if_splits)

lemma set_pos_sel [simp]:
  "fs_names (set_pos fd p f) = fs_names f" "fs_data (set_pos fd p f) = fs_data f"
  "fs_next (set_pos fd p f) = fs_next f" "fs_maxfd (set_pos fd p f) = fs_maxfd f"
  "fs_denied (set_pos fd p f) = fs_denied f" "length (fs_fds (set_pos fd p f)) = length (fs_fds f)"
  "fs_disk (set_pos fd p f) = fs_disk f"
  by (simp_all add: set_pos_def split: option.split)

lemma get_fd_set_pos:
  "get_fd f fd = Some d \<Longrightarrow> get_fd (set_pos fd p f) = (get_fd f)(fd := Some (d\<lparr>of_pos := p\<rparr>))"
  by (simp add: set_pos_def get_fd_upd)

lemma set_pos_same:
  assumes "get_fd f fd = Some d" and "of_pos d = p"
  shows "set_pos fd p f = f"
proof -
  have "fs_fds f ! nat fd = Some (d\<lparr>of_pos := p\<rparr>)"
    using assms by (auto simp: get_fd_def split: if_splits)
  then have "(fs_fds f)[nat fd := Some (d\<lparr>of_pos := p\<rparr>)] = fs_fds f" by (metis list_update_id)
  then show ?thesis using assms(1) by (simp add: set_pos_def)
qed

lemma set_pos_set_pos: "get_fd f fd = Some d \<Longrightarrow> set_pos fd q (set_pos fd p f) = set_pos fd q f"
proof -
  assume a: "get_fd f fd = Some d"
  then have "get_fd (set_pos fd p f) fd = Some (d\<lparr>of_pos := p\<rparr>)" by (simp add: get_fd_set_pos)
  with a show ?thesis by (simp add: set_pos_def)
qed

lemma fs_close_sel [simp]:
  "fs_names (snd (fs_close fd f)) = fs_names f" "fs_data (snd (fs_close fd f)) = fs_data f"
  "fs_next (snd (fs_close fd f)) = fs_next f" "fs_maxfd (snd (fs_close fd f)) = fs_maxfd f"
  "fs_denied (snd (fs_close fd f)) = fs_denied f" "length (fs_fds (snd (fs_close fd f))) = length (fs_fds f)"
  "fs_disk (snd (fs_close fd f)) = fs_disk f" "fs_errno (snd (fs_close fd f)) = fs_errno f"
  "get_fd (snd (fs_close fd f)) = (get_fd f)(fd := None)"
  by (auto simp: fs_close_def get_fd_upd split: option.split)

lemma fs_remove_sel [simp]:
  "fs_data (snd (fs_remove p f)) = fs_data f" "fs_next (snd (fs_remove p f)) = fs_next f"
  "fs_maxfd (snd (fs_remove p f)) = fs_maxfd f" "fs_denied (snd (fs_remove p f)) = fs_denied f"
  "fs_fds (snd (fs_remove p f)) = fs_fds f" "get_fd (snd (fs_remove p f)) = get_fd f"
  "fs_disk (snd (fs_remove p f)) = fs_disk f"
  by (auto simp: fs_remove_def split: option.split fs_node.split)

lemma fs_remove_names:
  "fs_names (snd (fs_remove p f)) =
     (if (\<exists>n. fs_names f (resolve p) = Some (Reg n)) \<and> \<not> fs_denied f (resolve p) 3
      then (fs_names f)(resolve p := None) else fs_names f)"
  by (auto simp: fs_remove_def split: option.split fs_node.split)

lemma fs_lseek_set [simp]:
  "get_fd f fd = Some d \<Longrightarrow> fs_lseek fd (int p) 0 f = (int p, set_pos fd p f)"
  "get_fd f fd = Some d \<Longrightarrow> fs_lseek fd 0 0 f = (0, set_pos fd 0 f)"
  "get_fd f fd = Some d \<Longrightarrow> fs_lseek fd 0 1 f = (int (of_pos d), f)"
  using set_pos_same by (auto simp: fs_lseek_def)

lemma fs_fstat_open: "get_fd f fd = Some d \<Longrightarrow> fs_fstat fd f = Some (length (fs_data f (of_ino d)))"
  by (simp add: fs_fstat_def)

lemma fs_read_open:
  "get_fd f fd = Some d \<Longrightarrow> of_read d \<Longrightarrow>
   fs_read fd n f = (let bs = take n (drop (of_pos d) (fs_data f (of_ino d)))
     in ((int (length bs), bs), set_pos fd (of_pos d + length bs) f))"
  by (simp add: fs_read_def)

lemma write_at_empty: "write_at 0 bs [] = bs"
  by (simp add: write_at_def)

text \<open>Opening a file that exists, and one that does not.\<close>

lemma free_fd_least: "get_fd f (int k) = None \<Longrightarrow> free_fd (fs_fds f) \<le> k"
proof (rule ccontr)
  assume n: "get_fd f (int k) = None" and "\<not> free_fd (fs_fds f) \<le> k"
  then have "k < free_fd (fs_fds f)" by simp
  have "i < free_fd l \<Longrightarrow> i < length l \<and> l ! i \<noteq> None" for i and l :: "ofd option list"
    by (induction l arbitrary: i rule: free_fd.induct) (auto simp: nth_Cons' less_Suc_eq_0_disj)
  from this [of k "fs_fds f"] show False using n \<open>k < free_fd (fs_fds f)\<close> by (auto simp: get_fd_def)
qed

lemma fs_open_reg_free:
  assumes "fs_names f (resolve p) = Some (Reg n)" and "\<not> fs_denied f (resolve p) m"
    and "free_fd (fs_fds f) < fs_maxfd f"
  shows "\<exists>i f'. fs_open p m c t f = (int i, f') \<and> get_fd f (int i) = None \<and>
     fs_names f' = fs_names f \<and> fs_data f' = (if t then (fs_data f)(n := []) else fs_data f) \<and>
     fs_next f' = fs_next f \<and> fs_maxfd f' = fs_maxfd f \<and> fs_denied f' = fs_denied f \<and>
     get_fd f' = (get_fd f)(int i \<mapsto> \<lparr>of_ino = n, of_pos = 0, of_read = (m \<noteq> 1), of_write = (m \<noteq> 0)\<rparr>) \<and>
     length (fs_fds f') \<le> Suc (length (fs_fds f)) \<and>
     (length (fs_fds f) \<le> fs_maxfd f \<longrightarrow> length (fs_fds f') \<le> fs_maxfd f)"
proof -
  let ?i = "free_fd (fs_fds f)" and ?d = "\<lparr>of_ino = n, of_pos = 0, of_read = (m \<noteq> 1), of_write = (m \<noteq> 0)\<rparr>"
  let ?g = "if t then f\<lparr>fs_data := (fs_data f)(n := [])\<rparr> else f"
  have g: "fs_fds ?g = fs_fds f" "get_fd ?g = get_fd f" by simp_all
  have "\<not> fs_maxfd f \<le> ?i" using assms(3) by simp
  then have "fs_open p m c t f = (int ?i, ?g\<lparr>fs_fds := put_fd (fs_fds f) ?i ?d\<rparr>)"
    using assms(1,2) g by (simp add: fs_open_def new_fd_def Let_def)
  moreover have "get_fd (?g\<lparr>fs_fds := put_fd (fs_fds f) ?i ?d\<rparr>) = (get_fd f)(int ?i \<mapsto> ?d)"
    using get_fd_put [of ?g ?d] g by simp
  ultimately show ?thesis using get_fd_free [of f] length_put_fd [of "fs_fds f" ?i ?d] assms(3)
    by (auto simp: put_fd_def)
qed

lemma fs_open_reg:
  assumes "fs_names f (resolve p) = Some (Reg n)" and "\<not> fs_denied f (resolve p) m"
    and "length (fs_fds f) < fs_maxfd f"
  shows "\<exists>i f'. fs_open p m c t f = (int i, f') \<and> get_fd f (int i) = None \<and>
     fs_names f' = fs_names f \<and> fs_data f' = (if t then (fs_data f)(n := []) else fs_data f) \<and>
     fs_next f' = fs_next f \<and> fs_maxfd f' = fs_maxfd f \<and> fs_denied f' = fs_denied f \<and>
     get_fd f' = (get_fd f)(int i \<mapsto> \<lparr>of_ino = n, of_pos = 0, of_read = (m \<noteq> 1), of_write = (m \<noteq> 0)\<rparr>) \<and>
     length (fs_fds f') \<le> Suc (length (fs_fds f))"
  using fs_open_reg_free [OF assms(1,2) le_less_trans [OF free_fd_le assms(3)]] by blast

lemma fs_open_missing: "fs_names f (resolve p) = None \<Longrightarrow> fs_open p m False t f = (- 1, f\<lparr>fs_errno := ENOENT\<rparr>)"
  by (simp add: fs_open_def fs_fail_def)

lemma fs_open_new:
  assumes "fs_names f (resolve p) = None" and "may_add f (resolve p)"
    and "length (fs_fds f) < fs_maxfd f"
  shows "\<exists>i f'. fs_open p m True t f = (int i, f') \<and> get_fd f (int i) = None \<and>
     fs_names f' = (fs_names f)(resolve p \<mapsto> Reg (fs_next f)) \<and> fs_data f' = (fs_data f)(fs_next f := []) \<and>
     fs_next f' = fs_next f + 1 \<and> fs_maxfd f' = fs_maxfd f \<and> fs_denied f' = fs_denied f \<and>
     get_fd f' = (get_fd f)(int i \<mapsto> \<lparr>of_ino = fs_next f, of_pos = 0, of_read = (m \<noteq> 1), of_write = (m \<noteq> 0)\<rparr>) \<and>
     length (fs_fds f') \<le> Suc (length (fs_fds f))"
proof -
  let ?i = "free_fd (fs_fds f)"
  let ?d = "\<lparr>of_ino = fs_next f, of_pos = 0, of_read = (m \<noteq> 1), of_write = (m \<noteq> 0)\<rparr>"
  let ?g = "f\<lparr>fs_names := (fs_names f)(resolve p \<mapsto> Reg (fs_next f)),
               fs_data := (fs_data f)(fs_next f := []), fs_disk := (fs_disk f)(fs_next f := []),
               fs_next := fs_next f + 1\<rparr>"
  have "\<not> fs_maxfd f \<le> ?i" using assms(3) free_fd_le [of "fs_fds f"] by linarith
  then have "fs_open p m True t f = (int ?i, ?g\<lparr>fs_fds := put_fd (fs_fds f) ?i ?d\<rparr>)"
    using assms(1,2) by (simp add: fs_open_def new_fd_def may_add_def Let_def)
  moreover have "get_fd (?g\<lparr>fs_fds := put_fd (fs_fds f) ?i ?d\<rparr>) = (get_fd f)(int ?i \<mapsto> ?d)"
    using get_fd_put [of ?g ?d] by simp
  ultimately show ?thesis using get_fd_free [of f] length_put_fd [of "fs_fds f" ?i ?d] by auto
qed

lemma file_content_reg: "file_content f p = Some x \<longleftrightarrow> (\<exists>n. fs_names f (resolve p) = Some (Reg n) \<and> fs_data f n = x)"
  by (auto simp: file_content_def split: option.splits fs_node.splits)

end
