(* ===== verification/Poll_Table.thy ===== *)
theory Poll_Table
  imports C_Base
begin

text \<open>
  The poll table of the D-Bus main loop (\<open>gPollInfo\<close> in
  \<open>src/persistence_client_library_dbus_service.c\<close>) and the callbacks through which libdbus adds and
  removes its watches and timeouts: \<open>addWatch\<close>, \<open>removeWatch\<close>, \<open>watchToggled\<close>, \<open>addTimeout\<close>,
  \<open>removeTimeout\<close>, \<open>timeoutToggled\<close>.

  A watch or timeout of libdbus is what its accessor functions return, with its address. The file
  descriptor that \<open>timerfd_create\<close> returns and the result of \<open>timerfd_settime\<close> are arguments. The
  specification is the list \<open>poll_list\<close> of the entries in use.
\<close>

section \<open>Data\<close>

datatype tDBusObjectType = OT_NONE | OT_WATCH | OT_TIMEOUT

record tObjectEntry =
  objtype :: tDBusObjectType
  objptr :: nat

record pollfd =
  pfd :: int
  events :: u32

record tPollInfo =
  nfds :: int
  pfds :: "nat \<Rightarrow> pollfd"
  objects :: "nat \<Rightarrow> tObjectEntry"

definition poll_size :: nat where [simp]: "poll_size = 10"

definition POLLIN :: u32 where [simp]: "POLLIN = 1"
definition POLLOUT :: u32 where [simp]: "POLLOUT = 4"
definition DBUS_WATCH_READABLE :: u32 where [simp]: "DBUS_WATCH_READABLE = 1"
definition DBUS_WATCH_WRITABLE :: u32 where [simp]: "DBUS_WATCH_WRITABLE = 2"

text \<open>What libdbus tells of a watch and of a timeout.\<close>

record dbus_watch =
  w_ptr :: nat
  w_flags :: u32
  w_fd :: int
  w_enabled :: bool

record dbus_timeout =
  t_ptr :: nat
  t_interval :: int
  t_enabled :: bool

definition poll_zero :: tPollInfo where
  "poll_zero = \<lparr>nfds = 0, pfds = (\<lambda>_. \<lparr>pfd = 0, events = 0\<rparr>), objects = (\<lambda>_. \<lparr>objtype = OT_NONE, objptr = 0\<rparr>)\<rparr>"

text \<open>The table at the start of the main loop: entry 0 is the read end of the command pipe.\<close>

definition poll_init :: "int \<Rightarrow> tPollInfo" where
  "poll_init pipefd = poll_zero\<lparr>nfds := 1, pfds := (pfds poll_zero)(0 := \<lparr>pfd = pipefd, events = POLLIN\<rparr>)\<rparr>"

section \<open>Callbacks\<close>

definition set_entry ::
  "int \<Rightarrow> tObjectEntry \<Rightarrow> (pollfd \<Rightarrow> pollfd) \<Rightarrow> tPollInfo \<Rightarrow> tPollInfo option" where
  "set_entry i ob f p = do {
     obs \<leftarrow> wr poll_size (objects p) i ob;
     q \<leftarrow> rd poll_size (pfds p) i;
     ps \<leftarrow> wr poll_size (pfds p) i (f q);
     Some (p\<lparr>objects := obs, pfds := ps\<rparr>)
   }"

definition watch_events :: "u32 \<Rightarrow> u32 \<Rightarrow> u32" where
  "watch_events flags ev =
     (let ev = (if flags AND DBUS_WATCH_READABLE \<noteq> 0 then ev OR POLLIN else ev)
      in if flags AND DBUS_WATCH_WRITABLE \<noteq> 0 then ev OR POLLOUT else ev)"

definition addWatch :: "dbus_watch \<Rightarrow> tPollInfo \<Rightarrow> (bool \<times> tPollInfo) option" where
  "addWatch w p =
     (if int poll_size > nfds p then do {
        p \<leftarrow> set_entry (nfds p) \<lparr>objtype = OT_WATCH, objptr = w_ptr w\<rparr>
               (\<lambda>q. if w_enabled w then \<lparr>pfd = w_fd w, events = watch_events (w_flags w) (events q)\<rparr>
                    else q\<lparr>pfd := w_fd w\<rparr>) p;
        Some (True, if w_enabled w then p\<lparr>nfds := nfds p + 1\<rparr> else p)
      }
      else Some (False, p))"

text \<open>\<open>removeWatch\<close> frees the data attached to the watch and leaves the table alone.\<close>

definition removeWatch :: "dbus_watch \<Rightarrow> tPollInfo \<Rightarrow> tPollInfo" where
  "removeWatch w p = p"

definition watchToggled :: "dbus_watch \<Rightarrow> tPollInfo \<Rightarrow> tPollInfo option" where
  "watchToggled w p =
     (if w_enabled w then map_option snd (addWatch w p) else Some (removeWatch w p))"

definition addTimeout :: "dbus_timeout \<Rightarrow> int \<Rightarrow> int \<Rightarrow> tPollInfo \<Rightarrow> (bool \<times> tPollInfo) option" where
  "addTimeout t tfd settime_rc p =
     (if int poll_size > nfds p then
        if 0 < t_interval t \<and> t_enabled t \<and> tfd \<noteq> - 1 \<and> settime_rc \<noteq> - 1 then do {
          p \<leftarrow> set_entry (nfds p) \<lparr>objtype = OT_TIMEOUT, objptr = t_ptr t\<rparr>
                 (\<lambda>q. \<lparr>pfd = tfd, events = events q OR POLLIN\<rparr>) p;
          Some (True, p\<lparr>nfds := nfds p + 1\<rparr>)
        }
        else Some (False, p)
      else Some (False, p))"

text \<open>\<open>while ((0<i--) && (timeout!=gPollInfo.objects[i].timeout));\<close>: the last index with the pointer, or -1.\<close>

fun find_timeout :: "nat \<Rightarrow> nat \<Rightarrow> tPollInfo \<Rightarrow> int option" where
  "find_timeout t 0 p = Some (- 1)"
| "find_timeout t (Suc i) p = do {
     ob \<leftarrow> rd poll_size (objects p) (int i);
     if t \<noteq> objptr ob then find_timeout t i p else Some (int i)
   }"

text \<open>The loop that moves the entries behind \<open>i\<close> down: \<open>n\<close> of them.\<close>

fun shift_down :: "nat \<Rightarrow> int \<Rightarrow> tPollInfo \<Rightarrow> tPollInfo option" where
  "shift_down 0 i p = Some p"
| "shift_down (Suc n) i p = do {
     q \<leftarrow> rd poll_size (pfds p) (i + 1);
     ob \<leftarrow> rd poll_size (objects p) (i + 1);
     p \<leftarrow> set_entry i ob (\<lambda>_. q) p;
     shift_down n (i + 1) p
   }"

definition removeTimeout :: "nat \<Rightarrow> tPollInfo \<Rightarrow> tPollInfo option" where
  "removeTimeout t p = do {
     i \<leftarrow> find_timeout t (nat (nfds p)) p;
     if 0 < i then do {
       let p = p\<lparr>nfds := nfds p - 1\<rparr>;
       p \<leftarrow> shift_down (nat (nfds p - i)) i p;
       ob \<leftarrow> rd poll_size (objects p) (nfds p);
       set_entry (nfds p) (ob\<lparr>objtype := OT_NONE\<rparr>) (\<lambda>q. q\<lparr>pfd := - 1\<rparr>) p
     }
     else Some p
   }"

text \<open>\<open>timeoutToggled\<close> sets the timer of the entry and leaves the table alone: the result is the timer set
  and its interval.\<close>

definition timeoutToggled :: "dbus_timeout \<Rightarrow> tPollInfo \<Rightarrow> (int \<times> int) option option" where
  "timeoutToggled t p = do {
     i \<leftarrow> find_timeout (t_ptr t) (nat (nfds p)) p;
     if 0 < i then do {
       q \<leftarrow> rd poll_size (pfds p) i;
       Some (Some (pfd q, if t_enabled t then t_interval t else 0))
     }
     else Some None
   }"

section \<open>Specification\<close>

definition poll_entry :: "tPollInfo \<Rightarrow> nat \<Rightarrow> int \<times> tObjectEntry" where
  "poll_entry p i = (pfd (pfds p i), objects p i)"

text \<open>The entries that \<open>poll\<close> is called with.\<close>

definition poll_list :: "tPollInfo \<Rightarrow> (int \<times> tObjectEntry) list" where
  "poll_list p = map (poll_entry p) [0..<nat (nfds p)]"

text \<open>Addresses of libdbus objects are not NULL, so the pipe's entry cannot be taken for one.\<close>

definition poll_inv :: "int \<Rightarrow> tPollInfo \<Rightarrow> bool" where
  "poll_inv pipefd p \<longleftrightarrow> 1 \<le> nfds p \<and> nfds p \<le> int poll_size \<and>
     poll_entry p 0 = (pipefd, \<lparr>objtype = OT_NONE, objptr = 0\<rparr>)"

text \<open>The entries without the last one of a pointer.\<close>

fun drop_last_ptr :: "nat \<Rightarrow> (int \<times> tObjectEntry) list \<Rightarrow> (int \<times> tObjectEntry) list" where
  "drop_last_ptr t [] = []"
| "drop_last_ptr t (e # es) =
     (if objptr (snd e) = t \<and> t \<notin> (\<lambda>e. objptr (snd e)) ` set es then es else e # drop_last_ptr t es)"

lemma length_poll_list: "length (poll_list p) = nat (nfds p)"
  by (simp add: poll_list_def)

lemma set_entry_in:
  assumes "0 \<le> i" and "i < int poll_size"
  shows "set_entry i ob f p = Some (p\<lparr>objects := (objects p)(nat i := ob), pfds := (pfds p)(nat i := f (pfds p (nat i)))\<rparr>)"
  using assms by (simp add: set_entry_def wr_in rd_in)

lemma poll_list_grow:
  assumes "0 \<le> n" and "nfds p = n" and "nfds p' = n + 1"
    and "\<And>i. i < nat n \<Longrightarrow> poll_entry p' i = poll_entry p i"
  shows "poll_list p' = poll_list p @ [poll_entry p' (nat n)]"
proof -
  have "nat (n + 1) = Suc (nat n)" using assms(1) by simp
  then show ?thesis using assms by (simp add: poll_list_def)
qed

lemma addWatch_list:
  assumes "poll_inv d p"
  shows "\<exists>p'. addWatch w p = Some (nfds p < int poll_size, p') \<and> poll_inv d p' \<and>
     poll_list p' = poll_list p @ (if nfds p < int poll_size \<and> w_enabled w
        then [(w_fd w, \<lparr>objtype = OT_WATCH, objptr = w_ptr w\<rparr>)] else [])"
proof (cases "nfds p < int poll_size")
  case False
  then show ?thesis using assms by (simp add: addWatch_def)
next
  case True
  let ?n = "nfds p"
  have n: "1 \<le> ?n" using assms by (simp add: poll_inv_def)
  let ?p = "p\<lparr>objects := (objects p)(nat ?n := \<lparr>objtype = OT_WATCH, objptr = w_ptr w\<rparr>),
      pfds := (pfds p)(nat ?n := if w_enabled w then \<lparr>pfd = w_fd w, events = watch_events (w_flags w) (events (pfds p (nat ?n)))\<rparr>
                    else (pfds p (nat ?n))\<lparr>pfd := w_fd w\<rparr>)\<rparr>"
  have e: "addWatch w p = Some (True, if w_enabled w then ?p\<lparr>nfds := ?n + 1\<rparr> else ?p)"
    using n True by (simp add: addWatch_def set_entry_in)
  show ?thesis
  proof (cases "w_enabled w")
    case en: True
    have "poll_list (?p\<lparr>nfds := ?n + 1\<rparr>) = poll_list p @ [poll_entry (?p\<lparr>nfds := ?n + 1\<rparr>) (nat ?n)]"
      by (rule poll_list_grow) (use n in \<open>auto simp: poll_entry_def\<close>)
    then show ?thesis using e en n True assms by (auto simp: poll_entry_def poll_inv_def)
  next
    case dis: False
    have "poll_list ?p = poll_list p" by (auto simp: poll_list_def poll_entry_def)
    then show ?thesis using e dis n True assms by (auto simp: poll_entry_def poll_inv_def)
  qed
qed

lemma addTimeout_list:
  assumes "poll_inv d p"
  shows "\<exists>p'. addTimeout t tfd rc p
        = Some (nfds p < int poll_size \<and> 0 < t_interval t \<and> t_enabled t \<and> tfd \<noteq> - 1 \<and> rc \<noteq> - 1, p') \<and> poll_inv d p' \<and>
     poll_list p' = poll_list p @
       (if nfds p < int poll_size \<and> 0 < t_interval t \<and> t_enabled t \<and> tfd \<noteq> - 1 \<and> rc \<noteq> - 1
        then [(tfd, \<lparr>objtype = OT_TIMEOUT, objptr = t_ptr t\<rparr>)] else [])"
proof (cases "nfds p < int poll_size \<and> 0 < t_interval t \<and> t_enabled t \<and> tfd \<noteq> - 1 \<and> rc \<noteq> - 1")
  case False
  then show ?thesis using assms by (auto simp: addTimeout_def)
next
  case True
  let ?n = "nfds p"
  have n: "1 \<le> ?n" using assms by (simp add: poll_inv_def)
  let ?p = "p\<lparr>objects := (objects p)(nat ?n := \<lparr>objtype = OT_TIMEOUT, objptr = t_ptr t\<rparr>),
      pfds := (pfds p)(nat ?n := \<lparr>pfd = tfd, events = events (pfds p (nat ?n)) OR POLLIN\<rparr>), nfds := ?n + 1\<rparr>"
  have "addTimeout t tfd rc p = Some (True, ?p)"
    using n True by (simp add: addTimeout_def set_entry_in)
  moreover have "poll_list ?p = poll_list p @ [poll_entry ?p (nat ?n)]"
    by (rule poll_list_grow) (use n in \<open>auto simp: poll_entry_def\<close>)
  ultimately show ?thesis using n True assms by (auto simp: poll_entry_def poll_inv_def)
qed

lemma shift_down_spec:
  assumes "0 \<le> i" and "i + int n < int poll_size"
  shows "shift_down n i p = Some (p\<lparr>
     pfds := (\<lambda>k. if nat i \<le> k \<and> k < nat i + n then pfds p (k + 1) else pfds p k),
     objects := (\<lambda>k. if nat i \<le> k \<and> k < nat i + n then objects p (k + 1) else objects p k)\<rparr>)"
  using assms
proof (induction n arbitrary: i p)
  case 0
  then show ?case by (auto intro!: tPollInfo.equality ext)
next
  case (Suc n)
  let ?q = "p\<lparr>objects := (objects p)(nat i := objects p (nat (i + 1))),
             pfds := (pfds p)(nat i := pfds p (nat (i + 1)))\<rparr>"
  have s: "shift_down (Suc n) i p = shift_down n (i + 1) ?q"
    using Suc.prems by (simp add: rd_in set_entry_in)
  have i: "nat (i + 1) = Suc (nat i)" using Suc.prems by simp
  have "shift_down n (i + 1) ?q = Some (?q\<lparr>
     pfds := (\<lambda>k. if nat (i + 1) \<le> k \<and> k < nat (i + 1) + n then pfds ?q (k + 1) else pfds ?q k),
     objects := (\<lambda>k. if nat (i + 1) \<le> k \<and> k < nat (i + 1) + n then objects ?q (k + 1) else objects ?q k)\<rparr>)"
    by (rule Suc.IH) (use Suc.prems in simp_all)
  also have "\<dots> = Some (p\<lparr>
     pfds := (\<lambda>k. if nat i \<le> k \<and> k < nat i + Suc n then pfds p (k + 1) else pfds p k),
     objects := (\<lambda>k. if nat i \<le> k \<and> k < nat i + Suc n then objects p (k + 1) else objects p k)\<rparr>)"
    unfolding i by (auto simp: fun_eq_iff)
  finally show ?case using s by simp
qed

lemma find_timeout_spec:
  assumes "n \<le> poll_size"
  shows "\<exists>i. find_timeout t n p = Some i \<and>
     (i = - 1 \<and> (\<forall>j < n. objptr (objects p j) \<noteq> t) \<or>
      0 \<le> i \<and> nat i < n \<and> objptr (objects p (nat i)) = t \<and> (\<forall>j < n. nat i < j \<longrightarrow> objptr (objects p j) \<noteq> t))"
  using assms
proof (induction n)
  case 0
  then show ?case by simp
next
  case (Suc n)
  then obtain i where i: "find_timeout t n p = Some i"
     "i = - 1 \<and> (\<forall>j < n. objptr (objects p j) \<noteq> t) \<or>
      0 \<le> i \<and> nat i < n \<and> objptr (objects p (nat i)) = t \<and> (\<forall>j < n. nat i < j \<longrightarrow> objptr (objects p j) \<noteq> t)"
    by auto
  show ?case
  proof (cases "objptr (objects p n) = t")
    case True
    then show ?thesis using Suc.prems by (auto simp: rd_in)
  next
    case False
    then have "find_timeout t (Suc n) p = Some i" using Suc.prems i(1) by (simp add: rd_in)
    then show ?thesis using i(2) False less_Suc_eq by auto
  qed
qed

lemma drop_last_none: "\<forall>e \<in> set l. objptr (snd e) \<noteq> t \<Longrightarrow> drop_last_ptr t l = l"
  by (induction l) auto

lemma drop_last_at:
  assumes "i < length l" and "objptr (snd (l ! i)) = t"
    and "\<forall>j < length l. i < j \<longrightarrow> objptr (snd (l ! j)) \<noteq> t"
  shows "drop_last_ptr t l = take i l @ drop (Suc i) l"
  using assms
proof (induction l arbitrary: i)
  case Nil
  then show ?case by simp
next
  case (Cons e es)
  show ?case
  proof (cases i)
    case 0
    have "\<forall>x \<in> set es. objptr (snd x) \<noteq> t"
      using Cons.prems(3) 0 by (metis Suc_less_eq in_set_conv_nth length_Cons nth_Cons_Suc zero_less_Suc)
    then show ?thesis using Cons.prems 0 by auto
  next
    case (Suc k)
    have k: "k < length es" "objptr (snd (es ! k)) = t" using Cons.prems Suc by auto
    moreover have "\<forall>j < length es. k < j \<longrightarrow> objptr (snd (es ! j)) \<noteq> t"
      using Cons.prems(3) Suc by (metis Suc_less_eq length_Cons nth_Cons_Suc)
    ultimately have "drop_last_ptr t es = take k es @ drop (Suc k) es" by (rule Cons.IH)
    moreover have "t \<in> (\<lambda>e. objptr (snd e)) ` set es" using k nth_mem by force
    ultimately show ?thesis using Suc by simp
  qed
qed

lemma removeTimeout_list:
  assumes inv: "poll_inv d p" and t: "t \<noteq> 0"
  shows "\<exists>p'. removeTimeout t p = Some p' \<and> poll_inv d p' \<and> poll_list p' = drop_last_ptr t (poll_list p)"
proof -
  let ?n = "nat (nfds p)"
  have n: "1 \<le> nfds p" "?n \<le> poll_size" "nfds p = int ?n" using inv by (auto simp: poll_inv_def)
  have len: "length (poll_list p) = ?n" by (rule length_poll_list)
  have nth: "poll_list p ! j = poll_entry p j" if "j < ?n" for j using that by (simp add: poll_list_def)
  obtain i where f: "find_timeout t ?n p = Some i" and
     c: "i = - 1 \<and> (\<forall>j < ?n. objptr (objects p j) \<noteq> t) \<or>
      0 \<le> i \<and> nat i < ?n \<and> objptr (objects p (nat i)) = t \<and> (\<forall>j < ?n. nat i < j \<longrightarrow> objptr (objects p j) \<noteq> t)"
    using find_timeout_spec [OF n(2)] by blast
  have p0: "objptr (objects p 0) = 0" using inv by (simp add: poll_inv_def poll_entry_def)
  from c show ?thesis
  proof
    assume a: "i = - 1 \<and> (\<forall>j < ?n. objptr (objects p j) \<noteq> t)"
    then have "\<forall>e \<in> set (poll_list p). objptr (snd e) \<noteq> t"
      by (auto simp: poll_list_def poll_entry_def)
    then show ?thesis using f a inv by (simp add: removeTimeout_def drop_last_none)
  next
    assume a: "0 \<le> i \<and> nat i < ?n \<and> objptr (objects p (nat i)) = t \<and> (\<forall>j < ?n. nat i < j \<longrightarrow> objptr (objects p j) \<noteq> t)"
    then have i: "0 < i" "i < nfds p" using p0 t n by (auto intro: ccontr simp: le_less)
    let ?m = "nat (nfds p - 1 - i)"
    let ?sh = "p\<lparr>nfds := nfds p - 1,
     pfds := (\<lambda>k. if nat i \<le> k \<and> k < nat i + ?m then pfds p (k + 1) else pfds p k),
     objects := (\<lambda>k. if nat i \<le> k \<and> k < nat i + ?m then objects p (k + 1) else objects p k)\<rparr>"
    let ?e = "?n - 1"
    let ?p' = "?sh\<lparr>objects := (objects ?sh)(?e := (objects ?sh ?e)\<lparr>objtype := OT_NONE\<rparr>),
                  pfds := (pfds ?sh)(?e := (pfds ?sh ?e)\<lparr>pfd := - 1\<rparr>)\<rparr>"
    have s: "shift_down ?m i (p\<lparr>nfds := nfds p - 1\<rparr>) = Some ?sh"
      by (subst shift_down_spec) (use i n in \<open>auto intro!: tPollInfo.equality\<close>)
    have e: "nat (nfds p - 1) = ?e" using n by simp
    have r: "removeTimeout t p = Some ?p'"
      using f i n s by (simp add: removeTimeout_def Let_def rd_in set_entry_in e)
    have "poll_list ?p' = take (nat i) (poll_list p) @ drop (Suc (nat i)) (poll_list p)"
    proof (rule nth_equalityI)
      show "length (poll_list ?p') = length (take (nat i) (poll_list p) @ drop (Suc (nat i)) (poll_list p))"
        using i n by (simp add: length_poll_list)
    next
      fix k assume "k < length (poll_list ?p')"
      then have k: "k < ?n - 1" by (simp add: length_poll_list e)
      then have "poll_list ?p' ! k = poll_entry ?p' k" by (simp add: poll_list_def e)
      also have "\<dots> = (if k < nat i then poll_entry p k else poll_entry p (k + 1))"
        using k i n by (auto simp: poll_entry_def)
      also have "\<dots> = (take (nat i) (poll_list p) @ drop (Suc (nat i)) (poll_list p)) ! k"
        using k i n nth by (simp add: nth_append len)
      finally show "poll_list ?p' ! k = (take (nat i) (poll_list p) @ drop (Suc (nat i)) (poll_list p)) ! k" .
    qed
    moreover have "drop_last_ptr t (poll_list p) = take (nat i) (poll_list p) @ drop (Suc (nat i)) (poll_list p)"
      by (rule drop_last_at) (use a nth len in \<open>auto simp: poll_entry_def\<close>)
    moreover have "poll_inv d ?p'" using inv i n by (auto simp: poll_inv_def poll_entry_def)
    ultimately show ?thesis using r by simp
  qed
qed

section \<open>Properties\<close>

text \<open>The callbacks as operations, and the table as a list.\<close>

datatype poll_op =
    Add_watch dbus_watch | Remove_watch dbus_watch | Toggle_watch dbus_watch
  | Add_timeout dbus_timeout int int | Remove_timeout nat

fun poll_step :: "poll_op \<Rightarrow> tPollInfo \<Rightarrow> tPollInfo option" where
  "poll_step (Add_watch w) p = map_option snd (addWatch w p)"
| "poll_step (Remove_watch w) p = Some (removeWatch w p)"
| "poll_step (Toggle_watch w) p = watchToggled w p"
| "poll_step (Add_timeout t tfd rc) p = map_option snd (addTimeout t tfd rc p)"
| "poll_step (Remove_timeout t) p = removeTimeout t p"

fun list_step :: "poll_op \<Rightarrow> (int \<times> tObjectEntry) list \<Rightarrow> (int \<times> tObjectEntry) list" where
  "list_step (Add_watch w) l =
     (if length l < poll_size \<and> w_enabled w then l @ [(w_fd w, \<lparr>objtype = OT_WATCH, objptr = w_ptr w\<rparr>)] else l)"
| "list_step (Remove_watch w) l = l"
| "list_step (Toggle_watch w) l =
     (if length l < poll_size \<and> w_enabled w then l @ [(w_fd w, \<lparr>objtype = OT_WATCH, objptr = w_ptr w\<rparr>)] else l)"
| "list_step (Add_timeout t tfd rc) l =
     (if length l < poll_size \<and> 0 < t_interval t \<and> t_enabled t \<and> tfd \<noteq> - 1 \<and> rc \<noteq> - 1
      then l @ [(tfd, \<lparr>objtype = OT_TIMEOUT, objptr = t_ptr t\<rparr>)] else l)"
| "list_step (Remove_timeout t) l = drop_last_ptr t l"

fun poll_run :: "poll_op list \<Rightarrow> tPollInfo \<Rightarrow> tPollInfo option" where
  "poll_run [] p = Some p"
| "poll_run (a # as) p = Option.bind (poll_step a p) (poll_run as)"

lemma poll_step_refines:
  assumes "poll_inv d p" and "\<forall>t. a = Remove_timeout t \<longrightarrow> t \<noteq> 0"
  shows "\<exists>p'. poll_step a p = Some p' \<and> poll_inv d p' \<and> poll_list p' = list_step a (poll_list p)"
proof -
  have l: "nfds p < int poll_size \<longleftrightarrow> length (poll_list p) < poll_size"
    using assms(1) by (auto simp: length_poll_list poll_inv_def)
  show ?thesis
  proof (cases a)
    case (Add_watch w)
    then show ?thesis using addWatch_list [OF assms(1), of w] l by auto
  next
    case (Remove_watch w)
    then show ?thesis using assms(1) by (simp add: removeWatch_def)
  next
    case (Toggle_watch w)
    then show ?thesis using addWatch_list [OF assms(1), of w] assms(1) l
      by (auto simp: watchToggled_def removeWatch_def)
  next
    case (Add_timeout t tfd rc)
    then show ?thesis using addTimeout_list [OF assms(1), of t tfd rc] l by auto
  next
    case (Remove_timeout t)
    then show ?thesis using removeTimeout_list [OF assms(1)] assms(2) by auto
  qed
qed

lemma poll_list_init: "poll_list (poll_init d) = [(d, \<lparr>objtype = OT_NONE, objptr = 0\<rparr>)]"
  by (simp add: poll_list_def poll_entry_def poll_init_def poll_zero_def)

text \<open>C21: whatever watches and timeouts libdbus adds, toggles and removes (their addresses are not NULL),
  the poll table is never accessed outside its ten entries, entry 0 stays the command pipe, and the
  entries in use are those of the list on which adding appends, until ten entries are in use, and removing
  a timeout drops its last entry. Removing a watch drops nothing, and enabling one again adds it a
  second time: the loop keeps polling watches that libdbus has removed.\<close>

theorem poll_table_refines:
  assumes "\<forall>t. Remove_timeout t \<in> set ops \<longrightarrow> t \<noteq> 0"
  shows "\<exists>p. poll_run ops (poll_init d) = Some p \<and> poll_inv d p \<and>
     poll_list p = fold list_step ops (poll_list (poll_init d))"
proof -
  have "\<exists>p'. poll_run ops p = Some p' \<and> poll_inv d p' \<and> poll_list p' = fold list_step ops (poll_list p)"
    if "poll_inv d p" for p
    using that assms
  proof (induction ops arbitrary: p)
    case Nil
    then show ?case by simp
  next
    case (Cons a as)
    have h: "\<forall>t. a = Remove_timeout t \<longrightarrow> t \<noteq> 0" "\<forall>t. Remove_timeout t \<in> set as \<longrightarrow> t \<noteq> 0"
      using Cons.prems(2) by simp_all
    obtain p1 where p1: "poll_step a p = Some p1" "poll_inv d p1" "poll_list p1 = list_step a (poll_list p)"
      using poll_step_refines [OF Cons.prems(1) h(1)] by blast
    obtain p' where "poll_run as p1 = Some p'" "poll_inv d p'"
        "poll_list p' = fold list_step as (poll_list p1)"
      using Cons.IH [OF p1(2) h(2)] by blast
    then show ?case using p1 by (simp del: list_step.simps poll_step.simps)
  qed
  moreover have "poll_inv d (poll_init d)"
    by (simp add: poll_inv_def poll_init_def poll_zero_def poll_entry_def)
  ultimately show ?thesis by blast
qed

theorem poll_table_refines_witness:
  "\<exists>p. poll_run [Add_watch \<lparr>w_ptr = 8, w_flags = 1, w_fd = 5, w_enabled = True\<rparr>,
        Add_timeout \<lparr>t_ptr = 9, t_interval = 25, t_enabled = True\<rparr> 6 0,
        Remove_watch \<lparr>w_ptr = 8, w_flags = 1, w_fd = 5, w_enabled = True\<rparr>, Remove_timeout 9] (poll_init 3) = Some p \<and>
     poll_list p = [(3, \<lparr>objtype = OT_NONE, objptr = 0\<rparr>), (5, \<lparr>objtype = OT_WATCH, objptr = 8\<rparr>)]"
proof -
  let ?w = "\<lparr>w_ptr = 8, w_flags = 1, w_fd = 5, w_enabled = True\<rparr>"
  let ?t = "\<lparr>t_ptr = 9, t_interval = 25, t_enabled = True\<rparr>"
  let ?ops = "[Add_watch ?w, Add_timeout ?t 6 0, Remove_watch ?w, Remove_timeout 9]"
  have "\<exists>p. poll_run ?ops (poll_init 3) = Some p \<and> poll_inv 3 p \<and>
      poll_list p = fold list_step ?ops (poll_list (poll_init 3))"
    by (rule poll_table_refines) simp
  moreover have "fold list_step ?ops (poll_list (poll_init 3))
      = [(3, \<lparr>objtype = OT_NONE, objptr = 0\<rparr>), (5, \<lparr>objtype = OT_WATCH, objptr = 8\<rparr>)]"
    by (simp add: poll_list_init)
  ultimately show ?thesis by metis
qed

end
