(* ===== verification/RbTree.thy ===== *)
theory RbTree
  imports C_Base
begin

text \<open>
  The red-black tree (\<open>src/rbtree.[ch]\<close>, the part that is compiled: everything after \<open>jsw_rbinsert\<close> is
  inside \<open>#if 0\<close>), on an explicit heap of nodes.

  A pointer is an address, 0 is NULL; dereferencing NULL or an address that was never allocated is
  \<open>None\<close>. \<open>room\<close> is the number of nodes that \<open>malloc\<close> can still provide. The insertion is the top-down
  loop of the source with its helpers \<open>t\<close> (great-grandparent), \<open>g\<close>, \<open>p\<close>, \<open>q\<close> and the false root \<open>head\<close>. A loop
  that does not end is also \<open>None\<close>; the properties show that it ends.

  The comparison function is an argument. As the source, it is called on the item in the tree and the
  item looked for; the directions 0 and 1 of a link are \<open>False\<close> and \<open>True\<close>.
\<close>

section \<open>The heap\<close>

record 'a rbnode =
  red :: int
  ndata :: "'a option"
  link0 :: nat
  link1 :: nat

record 'a rbheap =
  nodes :: "nat \<Rightarrow> 'a rbnode"
  brk :: nat
  room :: nat

record jsw_rbtree =
  root :: nat
  tsize :: nat

definition link :: "'a rbnode \<Rightarrow> bool \<Rightarrow> nat" where
  "link n d = (if d then link1 n else link0 n)"

definition set_link :: "bool \<Rightarrow> nat \<Rightarrow> 'a rbnode \<Rightarrow> 'a rbnode" where
  "set_link d p n = (if d then n\<lparr>link1 := p\<rparr> else n\<lparr>link0 := p\<rparr>)"

definition deref :: "'a rbheap \<Rightarrow> nat \<Rightarrow> 'a rbnode option" where
  "deref h p = (if 0 < p \<and> p < brk h then Some (nodes h p) else None)"

definition upd :: "nat \<Rightarrow> ('a rbnode \<Rightarrow> 'a rbnode) \<Rightarrow> 'a rbheap \<Rightarrow> 'a rbheap option" where
  "upd p f h = (if 0 < p \<and> p < brk h then Some (h\<lparr>nodes := (nodes h)(p := f (nodes h p))\<rparr>) else None)"

definition heap_empty :: "nat \<Rightarrow> 'a rbheap" where
  "heap_empty n = \<lparr>nodes = (\<lambda>_. \<lparr>red = 0, ndata = None, link0 = 0, link1 = 0\<rparr>), brk = 1, room = n\<rparr>"

section \<open>Operations\<close>

definition is_red :: "'a rbheap \<Rightarrow> nat \<Rightarrow> bool option" where
  "is_red h p = (if p = 0 then Some False else map_option (\<lambda>n. red n = 1) (deref h p))"

definition jsw_single :: "nat \<Rightarrow> bool \<Rightarrow> 'a rbheap \<Rightarrow> (nat \<times> 'a rbheap) option" where
  "jsw_single rt dir h =
     (if rt \<noteq> 0 then do {
        r \<leftarrow> deref h rt;
        let save = link r (\<not> dir);
        s \<leftarrow> deref h save;
        h \<leftarrow> upd rt (set_link (\<not> dir) (link s dir)) h;
        h \<leftarrow> upd save (set_link dir rt) h;
        h \<leftarrow> upd rt (\<lambda>n. n\<lparr>red := 1\<rparr>) h;
        h \<leftarrow> upd save (\<lambda>n. n\<lparr>red := 0\<rparr>) h;
        Some (save, h)
      }
      else Some (0, h))"

definition jsw_double :: "nat \<Rightarrow> bool \<Rightarrow> 'a rbheap \<Rightarrow> (nat \<times> 'a rbheap) option" where
  "jsw_double rt dir h = do {
     r \<leftarrow> deref h rt;
     (s, h) \<leftarrow> jsw_single (link r (\<not> dir)) (\<not> dir) h;
     h \<leftarrow> upd rt (set_link (\<not> dir) s) h;
     jsw_single rt dir h
   }"

text \<open>The item is copied by \<open>dup\<close>: the copy has the same value.\<close>

definition new_node :: "'a \<Rightarrow> 'a rbheap \<Rightarrow> nat \<times> 'a rbheap" where
  "new_node x h =
     (if room h = 0 then (0, h)
      else (brk h, h\<lparr>nodes := (nodes h)(brk h := \<lparr>red = 1, ndata = Some x, link0 = 0, link1 = 0\<rparr>),
                    brk := brk h + 1, room := room h - 1\<rparr>))"

definition jsw_rbnew :: jsw_rbtree where
  "jsw_rbnew = \<lparr>root = 0, tsize = 0\<rparr>"

text \<open>The search loop: the item found, \<open>Some None\<close> for a NULL result.\<close>

partial_function (option) rbfind_loop ::
  "('a \<Rightarrow> 'a \<Rightarrow> int) \<Rightarrow> 'a rbheap \<Rightarrow> 'a \<Rightarrow> nat \<Rightarrow> 'a option option" where
  "rbfind_loop cmp h x it =
     (if it = 0 then Some None
      else Option.bind (deref h it) (\<lambda>n.
        Option.bind (ndata n) (\<lambda>y.
          if cmp y x = 0 then Some (Some y)
          else rbfind_loop cmp h x (link n (cmp y x < 0)))))"

declare rbfind_loop.simps [code]

definition jsw_rbfind :: "('a \<Rightarrow> 'a \<Rightarrow> int) \<Rightarrow> 'a rbheap \<Rightarrow> jsw_rbtree \<Rightarrow> 'a \<Rightarrow> 'a option option" where
  "jsw_rbfind cmp h t x = rbfind_loop cmp h x (root t)"

section \<open>Insertion\<close>

text \<open>The variables of the loop.\<close>

record rb_vars =
  v_t :: nat
  v_g :: nat
  v_p :: nat
  v_q :: nat
  v_dir :: bool
  v_last :: bool

text \<open>First part of an iteration: insert a new node at a null link, or flip colours. The flag tells that
  the allocation failed, which ends the function.\<close>

definition rb_insert_or_flip :: "'a \<Rightarrow> rb_vars \<Rightarrow> 'a rbheap \<Rightarrow> (bool \<times> rb_vars \<times> 'a rbheap) option" where
  "rb_insert_or_flip x v h =
     (if v_q v = 0 then do {
        let (q, h) = new_node x h;
        h \<leftarrow> upd (v_p v) (set_link (v_dir v) q) h;
        Some (q = 0, v\<lparr>v_q := q\<rparr>, h)
      }
      else do {
        n \<leftarrow> deref h (v_q v);
        r0 \<leftarrow> is_red h (link0 n);
        r1 \<leftarrow> is_red h (link1 n);
        if r0 \<and> r1 then do {
          h \<leftarrow> upd (v_q v) (\<lambda>n. n\<lparr>red := 1\<rparr>) h;
          h \<leftarrow> upd (link0 n) (\<lambda>n. n\<lparr>red := 0\<rparr>) h;
          h \<leftarrow> upd (link1 n) (\<lambda>n. n\<lparr>red := 0\<rparr>) h;
          Some (False, v, h)
        }
        else Some (False, v, h)
      })"

text \<open>Second part: a red node below a red node is rotated away at the grandparent.\<close>

definition rb_fix :: "rb_vars \<Rightarrow> 'a rbheap \<Rightarrow> 'a rbheap option" where
  "rb_fix v h = do {
     rq \<leftarrow> is_red h (v_q v);
     rp \<leftarrow> is_red h (v_p v);
     if rq \<and> rp then do {
       t \<leftarrow> deref h (v_t v);
       let dir2 = (link1 t = v_g v);
       p \<leftarrow> deref h (v_p v);
       (s, h) \<leftarrow> (if v_q v = link p (v_last v) then jsw_single (v_g v) (\<not> v_last v) h
                  else jsw_double (v_g v) (\<not> v_last v) h);
       upd (v_t v) (set_link dir2 s) h
     }
     else Some h
   }"

text \<open>Third part: stop at the item itself, or move the helpers down.\<close>

definition rb_move :: "('a \<Rightarrow> 'a \<Rightarrow> int) \<Rightarrow> 'a \<Rightarrow> rb_vars \<Rightarrow> 'a rbheap \<Rightarrow> (bool \<times> rb_vars) option" where
  "rb_move cmp x v h = do {
     n \<leftarrow> deref h (v_q v);
     y \<leftarrow> ndata n;
     if cmp y x = 0 then Some (True, v)
     else do {
       let dir = (cmp y x < 0);
       Some (False, \<lparr>v_t = (if v_g v \<noteq> 0 then v_g v else v_t v), v_g = v_p v, v_p = v_q v,
              v_q = link n dir, v_dir = dir, v_last = v_dir v\<rparr>)
     }
   }"

definition rb_step :: "('a \<Rightarrow> 'a \<Rightarrow> int) \<Rightarrow> 'a \<Rightarrow> rb_vars \<Rightarrow> 'a rbheap \<Rightarrow> (bool \<times> bool \<times> rb_vars \<times> 'a rbheap) option" where
  "rb_step cmp x v h = do {
     (failed, v, h) \<leftarrow> rb_insert_or_flip x v h;
     if failed then Some (True, True, v, h)
     else do {
       h \<leftarrow> rb_fix v h;
       (stop, v) \<leftarrow> rb_move cmp x v h;
       Some (False, stop, v, h)
     }
   }"

text \<open>The loop: whether it ended in the failed allocation, and the heap.\<close>

partial_function (option) rbinsert_loop ::
  "('a \<Rightarrow> 'a \<Rightarrow> int) \<Rightarrow> 'a \<Rightarrow> rb_vars \<Rightarrow> 'a rbheap \<Rightarrow> (bool \<times> 'a rbheap) option" where
  "rbinsert_loop cmp x v h =
     Option.bind (rb_step cmp x v h) (\<lambda>(failed, stop, v', h').
       if stop then Some (failed, h') else rbinsert_loop cmp x v' h')"

declare rbinsert_loop.simps [code]

text \<open>Returns 1 or 0, the tree and the heap. The false root is a local variable: it is a node of its own at
  the next address.\<close>

definition jsw_rbinsert ::
  "('a \<Rightarrow> 'a \<Rightarrow> int) \<Rightarrow> jsw_rbtree \<Rightarrow> 'a \<Rightarrow> 'a rbheap \<Rightarrow> ((int \<times> jsw_rbtree) \<times> 'a rbheap) option" where
  "jsw_rbinsert cmp tree x h =
     (if root tree = 0 then do {
        let (rt, h) = new_node x h;
        let tree = tree\<lparr>root := rt\<rparr>;
        if rt = 0 then Some ((0, tree), h)
        else do {
          h \<leftarrow> upd (root tree) (\<lambda>n. n\<lparr>red := 0\<rparr>) h;
          Some ((1, tree\<lparr>tsize := tsize tree + 1\<rparr>), h)
        }
      }
      else do {
        let head = brk h;
        let h = h\<lparr>nodes := (nodes h)(head := \<lparr>red = 0, ndata = None, link0 = 0, link1 = root tree\<rparr>),
                  brk := brk h + 1\<rparr>;
        (failed, h) \<leftarrow> rbinsert_loop cmp x
           \<lparr>v_t = head, v_g = 0, v_p = 0, v_q = root tree, v_dir = False, v_last = False\<rparr> h;
        if failed then Some ((0, tree), h)
        else do {
          hd \<leftarrow> deref h head;
          let tree = tree\<lparr>root := link1 hd\<rparr>;
          h \<leftarrow> upd (root tree) (\<lambda>n. n\<lparr>red := 0\<rparr>) h;
          Some ((1, tree\<lparr>tsize := tsize tree + 1\<rparr>), h)
        }
      })"

end
