(* ===== verification/Pcl_State.thy ===== *)
theory Pcl_State
  imports Handle Pers_Common Tokens Posix_Fs Poll_Table RbTree
begin

text \<open>
  The static state of the library: every global variable of the modelled files, in one record, with
  the world of the external code as its last field. Each operation of the components takes this record
  and returns it updated.

  Also here: the message that the API functions send to the D-Bus main loop and the two functions that
  send it (\<open>MainLoopData_u\<close> of \<open>src/persistence_client_library_dbus_service.h\<close>, \<open>deliverToMainloop\<close>,
  \<open>deliverToMainloop_NM\<close>), because every component sends through them.
\<close>

section \<open>Custom library structures\<close>

datatype PersInitType_e = Init_Synchronous | Init_Asynchronous | Init_Undefined

datatype PersLoadingType_e = LoadType_PclInit | LoadType_OnDemand | LoadType_Undefined

record PersCustomLibInfo =
  libname :: string
  valid :: int
  initFunction :: PersInitType_e
  loadingType :: PersLoadingType_e

record Pers_custom_functs_s =
  cf_handle :: fn_ptr
  custom_plugin_create_backup :: fn_ptr
  custom_plugin_deinit :: fn_ptr
  custom_plugin_delete_data :: fn_ptr
  custom_plugin_get_backup :: fn_ptr
  custom_plugin_get_size :: fn_ptr
  custom_plugin_get_data :: fn_ptr
  custom_plugin_handle_close :: fn_ptr
  custom_plugin_handle_get_data :: fn_ptr
  custom_plugin_handle_open :: fn_ptr
  custom_plugin_handle_set_data :: fn_ptr
  custom_plugin_init :: fn_ptr
  custom_plugin_restore_backup :: fn_ptr
  custom_plugin_set_data :: fn_ptr
  custom_plugin_get_status_notification_clbk :: fn_ptr
  custom_plugin_handle_get_size :: fn_ptr
  custom_plugin_init_async :: fn_ptr
  custom_plugin_clear_all_data :: fn_ptr
  custom_plugin_sync :: fn_ptr

definition custom_functs_null :: Pers_custom_functs_s where
  "custom_functs_null = \<lparr>cf_handle = None, custom_plugin_create_backup = None,
     custom_plugin_deinit = None, custom_plugin_delete_data = None, custom_plugin_get_backup = None,
     custom_plugin_get_size = None, custom_plugin_get_data = None, custom_plugin_handle_close = None,
     custom_plugin_handle_get_data = None, custom_plugin_handle_open = None,
     custom_plugin_handle_set_data = None, custom_plugin_init = None,
     custom_plugin_restore_backup = None, custom_plugin_set_data = None,
     custom_plugin_get_status_notification_clbk = None, custom_plugin_handle_get_size = None,
     custom_plugin_init_async = None, custom_plugin_clear_all_data = None, custom_plugin_sync = None\<rparr>"

section \<open>Items of the blacklist tree\<close>

record key_value_s =
  kv_key :: u32
  kv_value :: string

section \<open>Messages to the main loop\<close>

datatype tCmd =
    CMD_NONE | CMD_PAS_BLOCK_AND_WRITE_BACK | CMD_LC_PREPARE_SHUTDOWN | CMD_SEND_NOTIFY_SIGNAL
  | CMD_REG_NOTIFY_SIGNAL | CMD_SEND_PAS_REGISTER | CMD_SEND_LC_REGISTER | CMD_QUIT

text \<open>\<open>params\<close> holds the entries that the sender sets; the rest of the array is uninitialised.\<close>

record MainLoopData =
  cmd :: tCmd
  params :: "u32 list"
  mstring :: string

section \<open>The bus\<close>

text \<open>Arguments of D-Bus messages, a received message, and what is sent to the bus. Lack of memory in
  libdbus is only logged by the sources and not modelled.\<close>

datatype dbus_arg = DBUS_INT32 int | DBUS_UINT32 u32 | DBUS_STRING string

record dbus_msg =
  dm_interface :: string
  dm_member :: string
  dm_is_signal :: bool
  dm_args :: "dbus_arg list"

datatype dbus_out =
    Reply_error
  | Reply_return int
  | Signal string string string "dbus_arg list" \<comment> \<open>path, interface, member\<close>
  | Method_call string string string string "dbus_arg list" \<comment> \<open>destination, path, interface, member\<close>
  | Add_match string
  | Remove_match string

datatype DBusHandlerResult = DBUS_HANDLER_RESULT_HANDLED | DBUS_HANDLER_RESULT_NOT_YET_HANDLED

text \<open>What the notification callback of the client is called with.\<close>

record pclNotification_s =
  pclKeyNotify_Status :: int
  n_ldbid :: u32
  n_resource_id :: string
  n_user_no :: u32
  n_seat_no :: u32

section \<open>The state\<close>

text \<open>The pipe to the main loop is the list of messages written and not yet read. Whether \<open>write\<close> to it
  succeeds is decided by the system: \<open>pipe_rc\<close> is its result (-1 is an error). \<open>bus\<close> lists what was sent
  to D-Bus. \<open>callbacks\<close> lists the calls of the client's callback. The blacklist tree carries the heap it lives on;
  \<open>fsys\<close> is the file system.\<close>

record 'w pcl =
  gAppId :: string
  gMaxKeyValDataSize :: int
  gPclInitialized :: u32
  gChangeNotifyCallback :: fn_ptr
  gDbusPendingRvalue :: int
  gShutdownMode :: int
  gCancelCounter :: int
  gLockAccess :: int
  hnd :: handle_state
  gResource_table :: "nat \<Rightarrow> int"
  gResourceOpen :: "nat \<Rightarrow> int"
  gHandlesDB :: "nat \<Rightarrow> nat \<Rightarrow> int"
  gHandlesDBCreated :: "nat \<Rightarrow> nat \<Rightarrow> int"
  gCustomLibArray :: "nat \<Rightarrow> PersCustomLibInfo"
  gpCustomTokenArray :: "nat \<Rightarrow> token_ptr"
  gPersCustomFuncs :: "nat \<Rightarrow> Pers_custom_functs_s"
  gPlugin_callback_async_t :: fn_ptr
  gpTokenArray :: "nat \<Rightarrow> token_ptr"
  gRb_tree_bl :: "(jsw_rbtree \<times> key_value_s rbheap) option"
  gPollInfo :: tPollInfo
  fsys :: fs
  pipe_rc :: int
  pipe :: "MainLoopData list"
  bus :: "dbus_out list"
  callbacks :: "(nat \<times> pclNotification_s) list"
  world :: 'w

text \<open>Static storage at the start of the program, in a world \<open>w\<close>.\<close>

definition pcl_start :: "'c pers_consts_scheme \<Rightarrow> 'w \<Rightarrow> 'w pcl" where
  "pcl_start c w = \<lparr>gAppId = [], gMaxKeyValDataSize = defaultMaxKeyValDataSize c, gPclInitialized = 0,
     gChangeNotifyCallback = None, gDbusPendingRvalue = 0, gShutdownMode = 0, gCancelCounter = 0,
     gLockAccess = 0, hnd = handle_init, gResource_table = (\<lambda>_. - 1), gResourceOpen = (\<lambda>_. 0),
     gHandlesDB = (\<lambda>_ _. 0), gHandlesDBCreated = (\<lambda>_ _. 0),
     gCustomLibArray = (\<lambda>_. \<lparr>libname = [], valid = 0, initFunction = Init_Synchronous,
       loadingType = LoadType_PclInit\<rparr>),
     gpCustomTokenArray = (\<lambda>_. Tok_null), gPersCustomFuncs = (\<lambda>_. custom_functs_null), gPlugin_callback_async_t = None,
     gpTokenArray = (\<lambda>_. Tok_null), gRb_tree_bl = None, gPollInfo = poll_zero, fsys = fs_start [], pipe_rc = 0,
     pipe = [], bus = [], callbacks = [], world = w\<rparr>"

section \<open>Sending\<close>

definition dbus_send :: "dbus_out \<Rightarrow> 'w pcl \<Rightarrow> 'w pcl" where
  "dbus_send m s = s\<lparr>bus := bus s @ [m]\<rparr>"

text \<open>128 bytes of the message are written: the command, four parameters and 108 characters of the
  string; the rest of the string is lost.\<close>

definition wire_string_size :: nat where
  "wire_string_size = 108"

definition deliverToMainloop_NM :: "MainLoopData \<Rightarrow> 'w pcl \<Rightarrow> int \<times> 'w pcl" where
  "deliverToMainloop_NM payload s =
     (if pipe_rc s = - 1 then (- 1, s)
      else (0, s\<lparr>pipe := pipe s @ [payload\<lparr>mstring := take wire_string_size (mstring payload)\<rparr>]\<rparr>))"

text \<open>The blocking variant ignores the result of the write, waits for the main loop to signal that it has
  handled a command, and returns 0. The handling itself is a step of the main loop
  (\<open>Dbus_Service\<close>): here the message is handed over.\<close>

definition deliverToMainloop :: "MainLoopData \<Rightarrow> 'w pcl \<Rightarrow> int \<times> 'w pcl" where
  "deliverToMainloop payload s = (let (_, s') = deliverToMainloop_NM payload s in (0, s'))"

lemma deliver_NM_sel [simp]:
  "world (snd (deliverToMainloop_NM m s)) = world s"
  "hnd (snd (deliverToMainloop_NM m s)) = hnd s"
  "gLockAccess (snd (deliverToMainloop_NM m s)) = gLockAccess s"
  by (simp_all add: deliverToMainloop_NM_def)

lemma deliver_eq: "deliverToMainloop m s = (0, snd (deliverToMainloop_NM m s))"
  by (simp add: deliverToMainloop_def deliverToMainloop_NM_def)

lemma deliver_pipe: "snd (deliverToMainloop_NM m s) = s\<lparr>pipe := pipe (snd (deliverToMainloop_NM m s))\<rparr>"
  by (simp add: deliverToMainloop_NM_def)

end
