(* ===== verification/Prct_Access.thy ===== *)
theory Prct_Access
  imports Pcl_State
begin

text \<open>
  Access to the resource configuration tables and the names derived from them
  (\<open>src/persistence_client_library_prct_access.[ch]\<close>): which table a logical database id selects, the
  cache of open tables, the database key and path of a resource, and \<open>get_db_context\<close>, which every API
  function calls first.

  The buffers \<open>dbKey\<close> and \<open>dbPath\<close> are the strings they hold; \<open>dbKey\<close> is \<open>None\<close> where the
  source passes NULL.
\<close>

section \<open>Table of a logical database id\<close>

datatype PersistenceRCT_e =
  PersistenceRCT_local | PersistenceRCT_shared_public | PersistenceRCT_shared_group | PersistenceRCT_LastEntry

fun rct_val :: "PersistenceRCT_e \<Rightarrow> int" where
  "rct_val PersistenceRCT_local = 0"
| "rct_val PersistenceRCT_shared_public = 1"
| "rct_val PersistenceRCT_shared_group = 2"
| "rct_val PersistenceRCT_LastEntry = 3"

text \<open>Returns the type and the group id. The parameter is an \<open>int\<close>: callers convert the unsigned id.\<close>

definition get_table_id :: "int \<Rightarrow> PersistenceRCT_e \<times> int" where
  "get_table_id lid =
     (if lid < 0x80 then
        if lid \<noteq> 0 then (PersistenceRCT_shared_group, lid)
        else (PersistenceRCT_shared_public, 0)
      else (PersistenceRCT_local, 0))"

section \<open>The cache of open tables\<close>

definition get_resource_cfg_table_by_idx :: "int \<Rightarrow> 'w pcl \<Rightarrow> int option" where
  "get_resource_cfg_table_by_idx i s = rd PrctDbTableSize (gResource_table s) i"

definition invalidate_resource_cfg_table :: "int \<Rightarrow> 'w pcl \<Rightarrow> 'w pcl option" where
  "invalidate_resource_cfg_table i s = do {
     t \<leftarrow> wr PrctDbTableSize (gResource_table s) i (- 1);
     ro \<leftarrow> wr PrctDbTableSize (gResourceOpen s) i 0;
     Some (s\<lparr>gResource_table := t, gResourceOpen := ro\<rparr>)
   }"

definition rct_filename :: "('w, 'e) perscom_scheme \<Rightarrow> string \<Rightarrow> PersistenceRCT_e \<Rightarrow> int \<Rightarrow> string" where
  "rct_filename E app rct grp =
     (case rct of
        PersistenceRCT_local \<Rightarrow> snprintf (DbPathMaxLen E) (gLocalWtPathKey E app (gResTableCfg E))
      | PersistenceRCT_shared_public \<Rightarrow>
          snprintf (DbPathMaxLen E) (gSharedPublicWtPathKey E app (gResTableCfg E))
      | PersistenceRCT_shared_group \<Rightarrow>
          snprintf (DbPathMaxLen E) (gSharedWtPathKey E app (word_of_int grp) (gResTableCfg E))
      | PersistenceRCT_LastEntry \<Rightarrow> [])"

definition get_resource_cfg_table ::
  "('w, 'e) perscom_scheme \<Rightarrow> PersistenceRCT_e \<Rightarrow> int \<Rightarrow> 'w pcl \<Rightarrow> (int \<times> 'w pcl) option" where
  "get_resource_cfg_table E rct grp s = do {
     let arrayIdx = rct_val rct + grp;
     s \<leftarrow> (if arrayIdx < int PrctDbTableSize then do {
             opn \<leftarrow> rd PrctDbTableSize (gResourceOpen s) arrayIdx;
             if opn = 0 then do {
               let (h, w) = persComRctOpen E (rct_filename E (gAppId s) rct grp) 0 (world s);
               t \<leftarrow> wr PrctDbTableSize (gResource_table s) arrayIdx h;
               ro \<leftarrow> wr PrctDbTableSize (gResourceOpen s) arrayIdx (if h < 0 then 0 else 1);
               Some (s\<lparr>gResource_table := t, gResourceOpen := ro, world := w\<rparr>)
             }
             else Some s
           }
           else Some s);
     h \<leftarrow> rd PrctDbTableSize (gResource_table s) arrayIdx;
     Some (h, s)
   }"

section \<open>Database key and path\<close>

text \<open>The text that is printed into \<open>dbKey\<close>.\<close>

definition db_key_text :: "'c pers_consts_scheme \<Rightarrow> db_context \<Rightarrow> string \<Rightarrow> string" where
  "db_key_text c ctx rid =
     (if ldbid ctx < 0x80 \<or> ldbid ctx = 0xFF then
        if user_no ctx = 0 \<and> seat_no ctx = 0 then gNode c @ ''/'' @ rid
        else if seat_no ctx = 0 then gUser c @ fmt_d (sint (user_no ctx)) @ ''/'' @ rid
        else gUser c @ fmt_d (sint (user_no ctx)) @ gSeat c @ fmt_d (sint (seat_no ctx)) @ ''/'' @ rid
      else if seat_no ctx \<noteq> 0 then
        ''/'' @ fmt_x (ldbid ctx) @ gUser c @ fmt_d (sint (user_no ctx)) @ gSeat c
          @ fmt_d (sint (seat_no ctx)) @ ''/'' @ rid
      else ''/'' @ fmt_x (ldbid ctx) @ gUser c @ fmt_d (sint (user_no ctx)) @ ''/'' @ rid)"

text \<open>The path printed for a policy: \<open>key\<close> is the format of a key resource, \<open>file\<close> of a file resource,
  which prints \<open>dbKey\<close> (undefined when that is NULL). Any other policy prints nothing.\<close>

definition print_path ::
  "'c pers_consts_scheme \<Rightarrow> config_key \<Rightarrow> nat \<Rightarrow> string \<Rightarrow> (string \<Rightarrow> string) \<Rightarrow> nat \<Rightarrow> string \<Rightarrow> (string \<Rightarrow> string)
     \<Rightarrow> string option \<Rightarrow> string \<Rightarrow> string option" where
  "print_path c ck nc keyc filec nw keyw filew dbKey dbPath =
     (if policy ck = PersistencePolicy_wc c then
        if rtype ck = PersistenceResourceType_key c then Some (snprintf nc keyc)
        else map_option (\<lambda>k. snprintf nc (filec k)) dbKey
      else if policy ck = PersistencePolicy_wt c then
        if rtype ck = PersistenceResourceType_key c then Some (snprintf nw keyw)
        else map_option (\<lambda>k. snprintf nw (filew k)) dbKey
      else Some dbPath)"

definition get_db_path_and_key ::
  "'c pers_consts_scheme \<Rightarrow> string \<Rightarrow> persistence_info \<Rightarrow> string \<Rightarrow> string option \<Rightarrow> string
     \<Rightarrow> (int \<times> string option \<times> string) option" where
  "get_db_path_and_key c app info rid dbKey dbPath = do {
     let ctx = context_of info;
     let n = DbPathMaxLen c;
     let dbKey = map_option (\<lambda>_. snprintf (DbKeyMaxLen c) (db_key_text c ctx rid)) dbKey;
     if ldbid ctx < 0x80 then do {
       dbPath \<leftarrow>
         (if ldbid ctx \<noteq> 0 then
            print_path c (configKey info)
              n (gSharedCachePath c app (ldbid ctx)) (gSharedCachePathKey c app (ldbid ctx))
              n (gSharedWtPath c app (ldbid ctx)) (gSharedWtPathKey c app (ldbid ctx)) dbKey dbPath
          else
            print_path c (configKey info)
              n (gSharedPublicCachePath c app) (gSharedPublicCachePathKey c app)
              n (gSharedPublicWtPath c app) (gSharedPublicWtPathKey c app) dbKey dbPath);
       Some (PersistenceStorage_shared c, dbKey, dbPath)
     }
     else do {
       dbPath \<leftarrow> print_path c (configKey info)
          n (gLocalCachePath c app) (gLocalCachePathKey c app)
          (n - 1) (gLocalWtPath c app) (gLocalWtPathKey c app) dbKey dbPath;
       Some (PersistenceStorage_local c, dbKey, dbPath)
     }
   }"

section \<open>The database context\<close>

text \<open>\<open>memcpy\<close> and \<open>strncpy\<close> without a terminator: the start of the buffer is overwritten.\<close>

definition overwrite :: "string \<Rightarrow> string \<Rightarrow> string" where
  "overwrite s old = s @ drop (length s) old"

text \<open>The same into a buffer of \<open>n\<close> bytes that is read as a string afterwards: the copy must leave room
  for a terminator.\<close>

definition overwrite_buf :: "nat \<Rightarrow> string \<Rightarrow> string \<Rightarrow> string option" where
  "overwrite_buf n s old = (if length s < n then Some (overwrite s old) else None)"

definition default_config ::
  "'c pers_consts_scheme \<Rightarrow> int \<Rightarrow> config_key \<Rightarrow> config_key" where
  "default_config c isFile ck = ck\<lparr>
     policy := PersistencePolicy_wc c, storage := PersistenceStorage_local c,
     permission := PersistencePermission_ReadWrite c, max_size := defaultMaxKeyValDataSize c,
     rtype := (if isFile = PersistenceResourceType_file c then PersistenceResourceType_file c
               else PersistenceResourceType_key c),
     customID := overwrite ''A_CUSTOM_ID'' (customID ck),
     reponsible := overwrite ''default'' (reponsible ck),
     custom_name := overwrite ''default'' (custom_name ck)\<rparr>"

text \<open>The entry of the table: the result is the return value, the context, the buffers and whether the
  resource was found.\<close>

definition read_rct_entry ::
  "('w, 'e) perscom_scheme \<Rightarrow> int \<Rightarrow> persistence_info \<Rightarrow> string \<Rightarrow> string \<Rightarrow> string \<Rightarrow> 'w pcl
     \<Rightarrow> ((int \<times> persistence_info \<times> string \<times> string \<times> bool) \<times> 'w pcl) option" where
  "read_rct_entry E handleRCT info rid dbKey dbPath s =
     (if handleRCT \<ge> 0 then do {
        let ((iErrCode, sRctEntry), w) = persComRctRead E handleRCT rid (world s);
        let s = s\<lparr>world := w\<rparr>;
        if sizeof_PersistenceConfigurationKey E = iErrCode then do {
          let info = info\<lparr>configKey := sRctEntry\<rparr>;
          if storage sRctEntry \<noteq> PersistenceStorage_custom E then do {
            (rval, k, p) \<leftarrow> get_db_path_and_key E (gAppId s) info rid (Some dbKey) dbPath;
            Some ((rval, info, the k, p, True), s)
          }
          else do {
            cname \<leftarrow> cstr_of_array (custom_name sRctEntry);
            p \<leftarrow> overwrite_buf (DbPathMaxLen E) cname dbPath;
            k \<leftarrow> overwrite_buf (DbKeyMaxLen E) rid dbKey;
            Some ((0, info, k, p, True), s)
          }
        }
        else Some ((EPERS_NOKEYDATA, info, dbKey, dbPath, False), s)
      }
      else Some ((EPERS_NOPRCTABLE, info, dbKey, dbPath, False), s))"

text \<open>A local resource that is in no table gets the default configuration.\<close>

definition default_context ::
  "('w, 'e) perscom_scheme \<Rightarrow> string \<Rightarrow> int \<Rightarrow> int \<times> persistence_info \<times> string \<times> string \<times> bool \<Rightarrow> string
     \<Rightarrow> (int \<times> persistence_info \<times> string \<times> string) option" where
  "default_context E app isFile r rid = do {
     let (rval, info, dbKey, dbPath, resourceFound) = r;
     if \<not> resourceFound \<and> ldbid (context_of info) = 0xFF then do {
       let info = info\<lparr>configKey := default_config E isFile (configKey info)\<rparr>;
       (rval, k, p) \<leftarrow> get_db_path_and_key E app info rid (Some dbKey) dbPath;
       Some (rval, info, the k, p)
     }
     else Some (rval, info, dbKey, dbPath)
   }"

definition get_db_context ::
  "('w, 'e) perscom_scheme \<Rightarrow> persistence_info \<Rightarrow> string \<Rightarrow> int \<Rightarrow> string \<Rightarrow> string \<Rightarrow> 'w pcl
     \<Rightarrow> ((int \<times> persistence_info \<times> string \<times> string) \<times> 'w pcl) option" where
  "get_db_context E info rid isFile dbKey dbPath s = do {
     let (rct, groupId) = get_table_id (sint (ldbid (context_of info)));
     (handleRCT, s) \<leftarrow> get_resource_cfg_table E rct groupId s;
     (r, s) \<leftarrow> read_rct_entry E handleRCT info rid dbKey dbPath s;
     (rval, info, dbKey, dbPath) \<leftarrow> default_context E (gAppId s) isFile r rid;
     Some (((if 0 < rval then 0 else rval), info, dbKey, dbPath), s)
   }"

section \<open>Table slots\<close>

text \<open>The index used in the cache of open tables.\<close>

definition rct_slot :: "u32 \<Rightarrow> int" where
  "rct_slot lid = (let (rct, grp) = get_table_id (sint lid) in rct_val rct + grp)"

lemma sint_bounds: "- 2147483648 \<le> sint (w :: u32)" "sint (w :: u32) < 2147483648"
  using sint_ge [of w] sint_lt [of w] by simp_all

lemma sint_small:
  assumes "w < (0x80000000 :: u32)"
  shows "sint w = uint w"
proof -
  have "uint w < 2147483648" using assms by (simp add: word_less_def)
  moreover have "- 2147483648 \<le> uint w" using uint_ge_0 [of w] by linarith
  ultimately show ?thesis by (simp add: sint_uint signed_take_bit_int_eq_self_iff)
qed

lemma sint_big:
  assumes "(0x80000000 :: u32) \<le> w"
  shows "sint w < 0"
proof (rule ccontr)
  assume "\<not> sint w < 0"
  then have "take_bit 32 (sint w) = sint w"
    using sint_bounds [of w] by (simp add: take_bit_int_eq_self_iff)
  then have "uint w = sint w" by (simp add: uint_sint)
  moreover have "2147483648 \<le> uint w" using assms by (simp add: word_le_def)
  ultimately show False using sint_bounds(2) [of w] by simp
qed

lemma rct_slot_in: "lid < 0x80000000 \<Longrightarrow> 0 \<le> rct_slot lid \<and> rct_slot lid < int PrctDbTableSize"
  by (auto simp: rct_slot_def get_table_id_def sint_small c_const)

lemma rct_slot_out: "0x80000000 \<le> lid \<Longrightarrow> sint lid \<noteq> - 1 \<Longrightarrow> sint lid \<noteq> - 2 \<Longrightarrow> rct_slot lid < 0"
  using sint_big [of lid] by (simp add: rct_slot_def get_table_id_def)

lemma get_resource_cfg_table_open:
  assumes "get_table_id (sint lid) = (rct, grp)" and "lid < 0x80000000"
    and "gResourceOpen s (nat (rct_slot lid)) \<noteq> 0"
  shows "get_resource_cfg_table E rct grp s = Some (gResource_table s (nat (rct_slot lid)), s)"
  using assms rct_slot_in [OF assms(2)]
  by (simp add: get_resource_cfg_table_def rct_slot_def rd_in Let_def)

lemma get_resource_cfg_table_closed:
  assumes "get_table_id (sint lid) = (rct, grp)" and "lid < 0x80000000"
    and "gResourceOpen s (nat (rct_slot lid)) = 0"
    and "persComRctOpen E (rct_filename E (gAppId s) rct grp) 0 (world s) = (h, w)"
  shows "get_resource_cfg_table E rct grp s =
    Some (h, s\<lparr>gResource_table := (gResource_table s)(nat (rct_slot lid) := h),
             gResourceOpen := (gResourceOpen s)(nat (rct_slot lid) := if h < 0 then 0 else 1),
             world := w\<rparr>)"
  using assms rct_slot_in [OF assms(2)]
  by (simp add: get_resource_cfg_table_def rct_slot_def rd_in wr_in Let_def)

lemma get_resource_cfg_table_defined:
  assumes t: "get_table_id (sint lid) = (rct, grp)" and l: "lid < (0x80000000 :: u32)"
  shows "\<exists>h s'. get_resource_cfg_table E rct grp s = Some (h, s') \<and> gAppId s' = gAppId s"
proof (cases "gResourceOpen s (nat (rct_slot lid)) = 0")
  case True
  obtain h w where o: "persComRctOpen E (rct_filename E (gAppId s) rct grp) 0 (world s) = (h, w)"
    by fastforce
  show ?thesis using get_resource_cfg_table_closed [OF t l True o] by simp
next
  case False
  show ?thesis using get_resource_cfg_table_open [OF t l False, of E] by simp
qed

section \<open>Keys are paths of components\<close>

text \<open>The documented form of the folder names: a separator around one component.\<close>

definition names_ok :: "'c pers_consts_scheme \<Rightarrow> bool" where
  "names_ok c \<longleftrightarrow> gNode c = ''/node'' \<and> gUser c = ''/user/'' \<and> gSeat c = ''/seat/''"

definition key_components :: "db_context \<Rightarrow> string \<Rightarrow> string list" where
  "key_components ctx rid =
     (let u = fmt_d (sint (user_no ctx)); t = fmt_d (sint (seat_no ctx)) in
      if ldbid ctx < 0x80 \<or> ldbid ctx = 0xFF then
        if user_no ctx = 0 \<and> seat_no ctx = 0 then [''node'', rid]
        else if seat_no ctx = 0 then [''user'', u, rid]
        else [''user'', u, ''seat'', t, rid]
      else if seat_no ctx \<noteq> 0 then [fmt_x (ldbid ctx), ''user'', u, ''seat'', t, rid]
      else [fmt_x (ldbid ctx), ''user'', u, rid])"

lemma db_key_components: "names_ok c \<Longrightarrow> db_key_text c ctx rid = path_of (key_components ctx rid)"
  by (simp add: db_key_text_def key_components_def names_ok_def path_of_def Let_def)

lemma key_components_no_slash:
  "CHR ''/'' \<notin> set rid \<Longrightarrow> x \<in> set (key_components ctx rid) \<Longrightarrow> CHR ''/'' \<notin> set x"
  by (auto simp: key_components_def Let_def slash_notin_fmt_d slash_notin_fmt_x split: if_splits)

text \<open>Contexts that live in one database file: all local ids share one, every shared id has its own.\<close>

definition same_database :: "u32 \<Rightarrow> u32 \<Rightarrow> bool" where
  "same_database l1 l2 \<longleftrightarrow> l1 = l2 \<or> (0x80 \<le> l1 \<and> 0x80 \<le> l2)"

lemma sint_inject: "sint v = sint w \<longleftrightarrow> v = (w :: u32)"
  by (auto intro: signed_word_eqI)

lemma key_components_inject:
  assumes "key_components c1 r1 = key_components c2 r2" and "same_database (ldbid c1) (ldbid c2)"
  shows "c1 = c2 \<and> r1 = r2"
  using assms
  by (cases c1; cases c2)
     (auto simp: key_components_def Let_def same_database_def fmt_d_inject fmt_x_inject
       sint_inject not_less split: if_splits)

section \<open>Properties of the database key\<close>

text \<open>Two resources that are stored in one database have the same database key only when they are
  the same resource: same logical database id, user, seat and resource id, as long as the resource ids
  contain no separator and the keys fit in the key buffer.\<close>

theorem db_key_injective:
  assumes "names_ok c" and "same_database (ldbid c1) (ldbid c2)"
    and "CHR ''/'' \<notin> set r1" and "CHR ''/'' \<notin> set r2"
    and "length (db_key_text c c1 r1) < DbKeyMaxLen c" and "length (db_key_text c c2 r2) < DbKeyMaxLen c"
    and "snprintf (DbKeyMaxLen c) (db_key_text c c1 r1) = snprintf (DbKeyMaxLen c) (db_key_text c c2 r2)"
  shows "c1 = c2 \<and> r1 = r2"
proof -
  have "path_of (key_components c1 r1) = path_of (key_components c2 r2)"
    using assms(5,6,7) by (simp add: snprintf_fits flip: db_key_components [OF assms(1)])
  then have "key_components c1 r1 = key_components c2 r2"
    by (rule path_of_inject) (use assms(3,4) key_components_no_slash in blast)+
  then show ?thesis using assms(2) by (rule key_components_inject)
qed

theorem db_key_injective_witness:
  "\<lparr>ldbid = 0xFF, user_no = 1, seat_no = 2\<rparr> = (\<lparr>ldbid = 0xFF, user_no = 1, seat_no = 2\<rparr> :: db_context)
     \<and> ''volume'' = ''volume''"
  by (rule db_key_injective [of mem_env])
     (simp_all add: mem_env_def names_ok_def same_database_def db_key_text_def fmt_d_def digits_one DbKeyMaxLen_def)

text \<open>With separators in the resource id the keys collide: the resource \<open>seat/t/rid\<close> of a user, asked
  for without a seat, has the key of \<open>rid\<close> on seat \<open>t\<close> of that user, exactly for the users other than
  0.\<close>

theorem db_key_collision:
  assumes "names_ok c" and "t \<noteq> 0"
  shows "db_key_text c \<lparr>ldbid = 0xFF, user_no = u, seat_no = t\<rparr> rid
       = db_key_text c \<lparr>ldbid = 0xFF, user_no = u, seat_no = 0\<rparr> (''seat/'' @ fmt_d (sint t) @ ''/'' @ rid)
     \<longleftrightarrow> u \<noteq> 0"
proof (cases "u = 0")
  case True
  then show ?thesis using assms by (simp add: db_key_text_def names_ok_def)
next
  case False
  then show ?thesis using assms by (simp add: db_key_text_def names_ok_def)
qed

theorem db_key_collision_witness:
  "db_key_text mem_env \<lparr>ldbid = 0xFF, user_no = 1, seat_no = 2\<rparr> ''volume''
     = db_key_text mem_env \<lparr>ldbid = 0xFF, user_no = 1, seat_no = 0\<rparr> (''seat/'' @ fmt_d (sint (2 :: u32)) @ ''/volume'')"
  using db_key_collision [of mem_env 2 1 "''volume''"] by (simp add: mem_env_def names_ok_def)

section \<open>The context of a resource\<close>

text \<open>The path and the key in closed form.\<close>

definition path_for ::
  "'c pers_consts_scheme \<Rightarrow> string \<Rightarrow> persistence_info \<Rightarrow> string \<Rightarrow> string \<Rightarrow> string \<Rightarrow> string" where
  "path_for c app info rid k p = snd (snd (the (get_db_path_and_key c app info rid (Some k) p)))"

definition key_for :: "'c pers_consts_scheme \<Rightarrow> persistence_info \<Rightarrow> string \<Rightarrow> string" where
  "key_for c info rid = snprintf (DbKeyMaxLen c) (db_key_text c (context_of info) rid)"

lemma get_db_path_and_key_eq:
  "get_db_path_and_key c app info rid (Some k) p =
     Some (if ldbid (context_of info) < 0x80 then PersistenceStorage_shared c else PersistenceStorage_local c,
       Some (key_for c info rid), path_for c app info rid k p)"
  by (auto simp: get_db_path_and_key_def print_path_def key_for_def path_for_def Let_def)

text \<open>What an entry of a configuration table must satisfy to be copied: a terminated name that fits.\<close>

definition entry_ok :: "('w, 'e) perscom_scheme \<Rightarrow> config_key \<Rightarrow> bool" where
  "entry_ok E ck \<longleftrightarrow>
     (case cstr_of_array (custom_name ck) of None \<Rightarrow> False | Some n \<Rightarrow> length n < DbPathMaxLen E)"

lemma read_rct_entry_defined:
  assumes "\<And>h w. entry_ok E (snd (fst (persComRctRead E h rid w)))" and "length rid < DbKeyMaxLen E"
  shows "\<exists>rv i k' p' f s'. read_rct_entry E h info rid k p s = Some ((rv, i, k', p', f), s') \<and>
     context_of i = context_of info \<and> (f \<longrightarrow> rv \<in> {0, PersistenceStorage_shared E, PersistenceStorage_local E}) \<and>
     (\<not> f \<longrightarrow> rv = EPERS_NOKEYDATA \<or> rv = EPERS_NOPRCTABLE)"
proof (cases "0 \<le> h")
  case False
  then have "read_rct_entry E h info rid k p s = Some ((EPERS_NOPRCTABLE, info, k, p, False), s)"
    by (simp add: read_rct_entry_def)
  then show ?thesis by blast
next
  case True
  obtain e ck w where r: "persComRctRead E h rid (world s) = ((e, ck), w)" by (metis surj_pair)
  then have "entry_ok E ck" using assms(1) [of h "world s"] by simp
  then obtain n where "cstr_of_array (custom_name ck) = Some n" "length n < DbPathMaxLen E"
    by (auto simp: entry_ok_def split: option.splits)
  with True r assms(2) show ?thesis
    by (simp add: read_rct_entry_def get_db_path_and_key_eq overwrite_buf_def Let_def ex_bool_eq)
qed

section \<open>Properties of the context\<close>

text \<open>C37: \<open>get_db_context\<close> is defined for every logical database id below 0x80000000 (no array is left, no
  buffer overflows), when the resource id fits in the key buffer and the entries of the configuration
  tables are terminated strings. It returns 0 or one of two errors, and for the local id 0xFF it always
  returns 0, table or no table.\<close>

theorem get_db_context_defined:
  assumes "consts_ok E" and "ldbid (context_of info) < 0x80000000" and "length rid < DbKeyMaxLen E"
    and "\<And>h w. entry_ok E (snd (fst (persComRctRead E h rid w)))"
  shows "\<exists>rv info' k' p' s'. get_db_context E info rid isFile k p s = Some ((rv, info', k', p'), s') \<and>
     rv \<in> {0, EPERS_NOKEYDATA, EPERS_NOPRCTABLE} \<and> (ldbid (context_of info) = 0xFF \<longrightarrow> rv = 0) \<and>
     context_of info' = context_of info"
proof -
  obtain rct grp where t: "get_table_id (sint (ldbid (context_of info))) = (rct, grp)" by fastforce
  obtain h s1 where g: "get_resource_cfg_table E rct grp s = Some (h, s1)"
    using get_resource_cfg_table_defined [OF t assms(2), of E s] by blast
  obtain rv i k' p' f s' where r: "read_rct_entry E h info rid k p s1 = Some ((rv, i, k', p', f), s')"
      "context_of i = context_of info"
      "f \<longrightarrow> rv \<in> {0, PersistenceStorage_shared E, PersistenceStorage_local E}"
      "\<not> f \<longrightarrow> rv = EPERS_NOKEYDATA \<or> rv = EPERS_NOPRCTABLE"
    using read_rct_entry_defined [OF assms(4,3), of h info k p s1] by blast
  have pos: "0 \<le> PersistenceStorage_shared E" "0 \<le> PersistenceStorage_local E"
    using assms(1) by (simp_all add: consts_ok_def)
  have c: "get_db_context E info rid isFile k p s = do {
     (rval, i, k, p) \<leftarrow> default_context E (gAppId s') isFile (rv, i, k', p', f) rid;
     Some (((if 0 < rval then 0 else rval), i, k, p), s') }"
    by (simp add: get_db_context_def t g r(1))
  show ?thesis
    unfolding c using r(2-4) pos
    by (auto simp: default_context_def get_db_path_and_key_eq Let_def)
qed

text \<open>Tables in which every resource is a local key.\<close>

definition mem_env_all :: "mem_world perscom" where
  "mem_env_all = mem_env\<lparr>persComRctRead := (\<lambda>h k w. ((160, mem_config 0 0), w))\<rparr>"

theorem get_db_context_defined_witness:
  "\<exists>info' k p s'. get_db_context mem_env_all \<lparr>context_of = \<lparr>ldbid = 0xFF, user_no = 1, seat_no = 0\<rparr>,
       configKey = mem_config 0 0\<rparr> ''volume'' 0 [] [] (pcl_start mem_env mem_start)
     = Some ((0, info', k, p), s')"
  using get_db_context_defined [of mem_env_all "\<lparr>context_of = \<lparr>ldbid = 0xFF, user_no = 1, seat_no = 0\<rparr>,
       configKey = mem_config 0 0\<rparr>" "''volume''" 0 "[]" "[]" "pcl_start mem_env mem_start"]
  by (auto simp: mem_env_all_def mem_env_def consts_ok_def DbKeyMaxLen_def DbPathMaxLen_def entry_ok_def
      mem_config_def cstr_of_array_def NUL_def)

text \<open>The id is an unsigned number, but \<open>get_table_id\<close> takes an \<open>int\<close>: an id of 0x80000000 or more
  becomes a negative shared group, and its index lies before the table, except for the last two ids,
  which fall on the slots of the local and the public table.\<close>

theorem get_db_context_negative_group:
  assumes "0x80000000 \<le> ldbid (context_of info)"
  shows "(ldbid (context_of info) < 0xFFFFFFFE \<longrightarrow> get_db_context E info rid isFile k p s = None) \<and>
     (ldbid (context_of info) = 0xFFFFFFFE \<longrightarrow> rct_slot (ldbid (context_of info)) = rct_slot 0xFF) \<and>
     (ldbid (context_of info) = 0xFFFFFFFF \<longrightarrow> rct_slot (ldbid (context_of info)) = rct_slot 0)"
proof (intro conjI impI)
  let ?l = "ldbid (context_of info)"
  assume lt: "?l < 0xFFFFFFFE"
  have neg: "sint ?l < 0" using assms by (rule sint_big)
  have "sint ?l \<noteq> - 1" "sint ?l \<noteq> - 2"
    using lt sint_inject [of ?l "- 1"] sint_inject [of ?l "- 2"] by auto
  then have "rct_slot ?l < 0" using rct_slot_out [OF assms] by blast
  then have "2 + sint ?l < 0" using neg by (simp add: rct_slot_def get_table_id_def)
  then show "get_db_context E info rid isFile k p s = None"
    using neg by (simp add: get_db_context_def get_table_id_def get_resource_cfg_table_def rd_def c_const)
next
  assume "ldbid (context_of info) = 0xFFFFFFFE"
  then show "rct_slot (ldbid (context_of info)) = rct_slot 0xFF"
    by (simp add: rct_slot_def get_table_id_def)
next
  assume "ldbid (context_of info) = 0xFFFFFFFF"
  then show "rct_slot (ldbid (context_of info)) = rct_slot 0"
    by (simp add: rct_slot_def get_table_id_def)
qed

theorem get_db_context_negative_group_witness:
  "get_db_context mem_env \<lparr>context_of = \<lparr>ldbid = 0x80000001, user_no = 1, seat_no = 0\<rparr>,
       configKey = mem_config 0 0\<rparr> ''volume'' 0 [] [] (pcl_start mem_env mem_start) = None"
  using get_db_context_negative_group [of "\<lparr>context_of = \<lparr>ldbid = 0x80000001, user_no = 1, seat_no = 0\<rparr>,
       configKey = mem_config 0 0\<rparr>"] by simp

section \<open>A context is found again\<close>

text \<open>The entry that an open table holds for a resource.\<close>

definition found_entry :: "'w rct_view \<Rightarrow> u32 \<Rightarrow> string \<Rightarrow> 'w pcl \<Rightarrow> config_key option" where
  "found_entry R lid rid s =
     (if gResourceOpen s (nat (rct_slot lid)) \<noteq> 0 \<and> 0 \<le> gResource_table s (nat (rct_slot lid))
      then R (world s) (gResource_table s (nat (rct_slot lid))) rid else None)"

text \<open>With the table open and lawful tables, the context of a resource found there is the same at every
  call, and the call changes nothing.\<close>

lemma get_db_context_found:
  assumes "rct_law E R" and "ldbid (context_of info) < 0x80000000"
    and "found_entry R (ldbid (context_of info)) rid s = Some ck"
    and "storage ck \<noteq> PersistenceStorage_custom E"
  shows "get_db_context E info rid isFile k p s =
    (let i = info\<lparr>configKey := ck\<rparr>;
         v = (if ldbid (context_of info) < 0x80 then PersistenceStorage_shared E else PersistenceStorage_local E)
     in Some ((if 0 < v then 0 else v, i, key_for E i rid, path_for E (gAppId s) i rid k p), s))"
proof -
  let ?h = "gResource_table s (nat (rct_slot (ldbid (context_of info))))"
  obtain rct grp where t: "get_table_id (sint (ldbid (context_of info))) = (rct, grp)" by fastforce
  have o: "gResourceOpen s (nat (rct_slot (ldbid (context_of info)))) \<noteq> 0" "0 \<le> ?h"
      "R (world s) ?h rid = Some ck"
    using assms(3) by (auto simp: found_entry_def split: if_splits)
  have r: "persComRctRead E ?h rid (world s) = ((sizeof_PersistenceConfigurationKey E, ck), world s)"
    using assms(1) o(3) by (metis prod.collapse rct_law_def)
  show ?thesis
    using assms(4) o(2) r
    by (simp add: get_db_context_def t get_resource_cfg_table_open [OF t assms(2) o(1)]
        read_rct_entry_def default_context_def get_db_path_and_key_eq Let_def)
qed

end
