(* ===== verification/Custom_Loader.thy ===== *)
theory Custom_Loader
  imports Pcl_State
begin

text \<open>
  The loader of the custom storage plugins (\<open>src/persistence_client_library_custom_loader.[ch]\<close>): the
  configuration file that names them, the table \<open>gCustomLibArray\<close> built from it, loading a plugin
  (\<open>dlopen\<close>, one \<open>dlsym\<close> for each function of the interface, its init function) and forgetting it.

  \<open>load_custom_library\<close> is always called with the entry of \<open>gPersCustomFuncs\<close> that belongs to its
  index, so the entry is not a separate argument.
\<close>

section \<open>Indices and types\<close>

definition PersCustomLib_early :: int where [simp]: "PersCustomLib_early = 0"
definition PersCustomLib_secure :: int where [simp]: "PersCustomLib_secure = 1"
definition PersCustomLib_emergency :: int where [simp]: "PersCustomLib_emergency = 2"
definition PersCustomLib_HWinfo :: int where [simp]: "PersCustomLib_HWinfo = 3"
definition PersCustomLib_Custom1 :: int where [simp]: "PersCustomLib_Custom1 = 4"
definition PersCustomLib_Custom2 :: int where [simp]: "PersCustomLib_Custom2 = 5"
definition PersCustomLib_Custom3 :: int where [simp]: "PersCustomLib_Custom3 = 6"
definition PersCustomLib_LastEntry :: nat where [c_const]: "PersCustomLib_LastEntry = 7"
definition PersCustomPathSize :: nat where [simp]: "PersCustomPathSize = 12"

definition getLoadingType :: "string \<Rightarrow> PersLoadingType_e" where
  "getLoadingType type =
     (if type = ''init'' then LoadType_PclInit
      else if type = ''od'' then LoadType_OnDemand else LoadType_Undefined)"

definition getInitType :: "string \<Rightarrow> PersInitType_e" where
  "getInitType pol =
     (if pol = ''sync'' then Init_Synchronous
      else if pol = ''async'' then Init_Asynchronous else Init_Undefined)"

definition getCustomLoadingType :: "int \<Rightarrow> 'w pcl \<Rightarrow> PersLoadingType_e option" where
  "getCustomLoadingType i s = map_option loadingType (rd PersCustomLib_LastEntry (gCustomLibArray s) i)"

definition getCustomInitType :: "int \<Rightarrow> 'w pcl \<Rightarrow> PersInitType_e option" where
  "getCustomInitType i s = map_option initFunction (rd PersCustomLib_LastEntry (gCustomLibArray s) i)"

definition custom_client_name_to_id :: "string \<Rightarrow> int \<Rightarrow> int" where
  "custom_client_name_to_id lib substring =
     (if substring = 0 then
        if strncmp_eq lib ''early'' PersCustomPathSize then PersCustomLib_early
        else if strncmp_eq lib ''secure'' PersCustomPathSize then PersCustomLib_secure
        else if strncmp_eq lib ''emergency'' PersCustomPathSize then PersCustomLib_emergency
        else if strncmp_eq lib ''hwinfo'' PersCustomPathSize then PersCustomLib_HWinfo
        else if strncmp_eq lib ''custom1'' PersCustomPathSize then PersCustomLib_Custom1
        else if strncmp_eq lib ''custom2'' PersCustomPathSize then PersCustomLib_Custom2
        else if strncmp_eq lib ''custom3'' PersCustomPathSize then PersCustomLib_Custom3
        else int PersCustomLib_LastEntry
      else
        if strstr_found lib ''early'' then PersCustomLib_early
        else if strstr_found lib ''secure'' then PersCustomLib_secure
        else if strstr_found lib ''emergency'' then PersCustomLib_emergency
        else if strstr_found lib ''hwinfo'' then PersCustomLib_HWinfo
        else if strstr_found lib ''custom1'' then PersCustomLib_Custom1
        else if strstr_found lib ''custom2'' then PersCustomLib_Custom2
        else if strstr_found lib ''custom3'' then PersCustomLib_Custom3
        else int PersCustomLib_LastEntry)"

section \<open>The configuration file\<close>

definition fillCustomCharTokenArray :: "string \<Rightarrow> 'w pcl \<Rightarrow> 'w pcl option" where
  "fillCustomCharTokenArray file s = do {
     tab \<leftarrow> token_table sep_custom file (gpCustomTokenArray s);
     Some (s\<lparr>gpCustomTokenArray := tab\<rparr>)
   }"

text \<open>\<open>gpCustomTokenArray[i] != 0\<close>, and one entry of the file stored in the table.\<close>

definition token_set :: "(nat \<Rightarrow> token_ptr) \<Rightarrow> int \<Rightarrow> bool option" where
  "token_set tab i = map_option (\<lambda>t. t \<noteq> Tok_null) (rd TOKENARRAYSIZE tab i)"

definition token_at :: "(nat \<Rightarrow> token_ptr) \<Rightarrow> int \<Rightarrow> string option" where
  "token_at tab i = Option.bind (rd TOKENARRAYSIZE tab i) token_string"

definition store_custom_entry ::
  "'c pers_consts_scheme \<Rightarrow> (nat \<Rightarrow> token_ptr) \<Rightarrow> int \<Rightarrow> (nat \<Rightarrow> PersCustomLibInfo)
     \<Rightarrow> (nat \<Rightarrow> PersCustomLibInfo) option" where
  "store_custom_entry c tab i libs = do {
     name \<leftarrow> token_at tab i;
     let libId = custom_client_name_to_id name 0;
     path \<leftarrow> token_at tab (i + 1);
     load \<leftarrow> token_at tab (i + 2);
     ini \<leftarrow> token_at tab (i + 3);
     wr PersCustomLib_LastEntry libs libId
       \<lparr>libname = take (CustLibMaxLen c - 1) path, valid = 1, initFunction = getInitType ini,
        loadingType = getLoadingType load\<rparr>
   }"

text \<open>The loop over the token array, four entries at a time.\<close>

function store_custom_entries ::
  "'c pers_consts_scheme \<Rightarrow> (nat \<Rightarrow> token_ptr) \<Rightarrow> int \<Rightarrow> (nat \<Rightarrow> PersCustomLibInfo)
     \<Rightarrow> (nat \<Rightarrow> PersCustomLibInfo) option" where
  "store_custom_entries c tab i libs =
     (if i < int TOKENARRAYSIZE then do {
        t0 \<leftarrow> token_set tab i;
        if \<not> t0 then Some libs else do {
          t1 \<leftarrow> token_set tab (i + 1);
          if \<not> t1 then Some libs else do {
            t2 \<leftarrow> token_set tab (i + 2);
            if \<not> t2 then Some libs else do {
              t3 \<leftarrow> token_set tab (i + 3);
              if \<not> t3 then Some libs else do {
                libs \<leftarrow> store_custom_entry c tab i libs;
                store_custom_entries c tab (i + 4) libs
              }
            }
          }
        }
      }
      else Some libs)"
  by pat_completeness auto
termination
  by (relation "measure (\<lambda>(c, tab, i, libs). nat (int TOKENARRAYSIZE - i))") auto

declare store_custom_entries.simps [simp del]

text \<open>The name of the file (an environment variable or a default) only selects what is read: the argument
  is the outcome of \<open>stat\<close>, \<open>open\<close> and \<open>mmap\<close> on it. A file of size 0 is \<open>Mapped []\<close>.\<close>

definition get_custom_libraries ::
  "'c pers_consts_scheme \<Rightarrow> mapped_file \<Rightarrow> 'w pcl \<Rightarrow> (int \<times> 'w pcl) option" where
  "get_custom_libraries c file s = do {
     let s = s\<lparr>gCustomLibArray :=
               (\<lambda>j. if j < PersCustomLib_LastEntry then (gCustomLibArray s j)\<lparr>valid := - 1\<rparr>
                    else gCustomLibArray s j)\<rparr>;
     case file of
       Stat_failed \<Rightarrow> Some (EPERS_COMMON, s)
     | Open_failed \<Rightarrow> Some (EPERS_COMMON, s)
     | Map_failed \<Rightarrow> Some (EPERS_COMMON, s)
     | Mapped content \<Rightarrow>
         if content = [] then Some (EPERS_COMMON, s)
         else do {
           s \<leftarrow> fillCustomCharTokenArray content s;
           libs \<leftarrow> store_custom_entries c (gpCustomTokenArray s) 0 (gCustomLibArray s);
           Some (0, s\<lparr>gCustomLibArray := libs\<rparr>)
         }
   }"

section \<open>Loading and forgetting a plugin\<close>

text \<open>The functions of the plugin interface, in the order in which they are looked up.\<close>

definition plugin_symbols :: "(string \<times> (fn_ptr \<Rightarrow> Pers_custom_functs_s \<Rightarrow> Pers_custom_functs_s)) list" where
  "plugin_symbols =
    [(''plugin_handle_close'', \<lambda>p f. f\<lparr>custom_plugin_handle_close := p\<rparr>),
     (''plugin_delete_data'', \<lambda>p f. f\<lparr>custom_plugin_delete_data := p\<rparr>),
     (''plugin_handle_get_data'', \<lambda>p f. f\<lparr>custom_plugin_handle_get_data := p\<rparr>),
     (''plugin_get_data'', \<lambda>p f. f\<lparr>custom_plugin_get_data := p\<rparr>),
     (''plugin_init'', \<lambda>p f. f\<lparr>custom_plugin_init := p\<rparr>),
     (''plugin_deinit'', \<lambda>p f. f\<lparr>custom_plugin_deinit := p\<rparr>),
     (''plugin_handle_open'', \<lambda>p f. f\<lparr>custom_plugin_handle_open := p\<rparr>),
     (''plugin_handle_set_data'', \<lambda>p f. f\<lparr>custom_plugin_handle_set_data := p\<rparr>),
     (''plugin_set_data'', \<lambda>p f. f\<lparr>custom_plugin_set_data := p\<rparr>),
     (''plugin_handle_get_size'', \<lambda>p f. f\<lparr>custom_plugin_handle_get_size := p\<rparr>),
     (''plugin_get_size'', \<lambda>p f. f\<lparr>custom_plugin_get_size := p\<rparr>),
     (''plugin_create_backup'', \<lambda>p f. f\<lparr>custom_plugin_create_backup := p\<rparr>),
     (''plugin_restore_backup'', \<lambda>p f. f\<lparr>custom_plugin_restore_backup := p\<rparr>),
     (''plugin_get_backup'', \<lambda>p f. f\<lparr>custom_plugin_get_backup := p\<rparr>),
     (''plugin_get_status_notification_clbk'', \<lambda>p f. f\<lparr>custom_plugin_get_status_notification_clbk := p\<rparr>),
     (''plugin_init_async'', \<lambda>p f. f\<lparr>custom_plugin_init_async := p\<rparr>),
     (''plugin_clear_all_data'', \<lambda>p f. f\<lparr>custom_plugin_clear_all_data := p\<rparr>),
     (''plugin_sync'', \<lambda>p f. f\<lparr>custom_plugin_sync := p\<rparr>)]"

definition resolve_symbols ::
  "('w, 'e) perscom_scheme \<Rightarrow> fn_ptr \<Rightarrow> Pers_custom_functs_s \<times> 'w \<Rightarrow> Pers_custom_functs_s \<times> 'w" where
  "resolve_symbols E h fw =
     fold (\<lambda>(name, upd) (f, w). let (p, w) = dlsym E h name w in (upd p f, w)) plugin_symbols fw"

text \<open>The init function that the configuration asks for.\<close>

definition init_plugin ::
  "('w, 'e) perscom_scheme \<Rightarrow> PersInitType_e \<Rightarrow> Pers_custom_functs_s \<Rightarrow> 'w pcl \<Rightarrow> int \<times> 'w pcl" where
  "init_plugin E initType f s =
     (case initType of
        Init_Synchronous \<Rightarrow>
          (case custom_plugin_init f of
             Some p \<Rightarrow> (1, s\<lparr>world := snd (call_plugin_init E p (world s))\<rparr>)
           | None \<Rightarrow> (EPERS_COMMON, s))
      | Init_Asynchronous \<Rightarrow>
          (case custom_plugin_init_async f of
             Some p \<Rightarrow> (1, s\<lparr>world := snd (call_plugin_init_async E p (gPlugin_callback_async_t s) (world s))\<rparr>)
           | None \<Rightarrow> (EPERS_COMMON, s))
      | Init_Undefined \<Rightarrow> (EPERS_COMMON, s))"

definition load_custom_library ::
  "('w, 'e) perscom_scheme \<Rightarrow> int \<Rightarrow> 'w pcl \<Rightarrow> (int \<times> 'w pcl) option" where
  "load_custom_library E customLib s =
     (if customLib < int PersCustomLib_LastEntry then do {
        initType \<leftarrow> getCustomInitType customLib s;
        lib \<leftarrow> rd PersCustomLib_LastEntry (gCustomLibArray s) customLib;
        f \<leftarrow> rd PersCustomLib_LastEntry (gPersCustomFuncs s) customLib;
        let (h, w) = dlopen E (libname lib) (world s);
        let f = f\<lparr>cf_handle := h\<rparr>;
        if h \<noteq> None then do {
          let (f, w) = resolve_symbols E h (f, w);
          fs \<leftarrow> wr PersCustomLib_LastEntry (gPersCustomFuncs s) customLib f;
          Some (init_plugin E initType f (s\<lparr>gPersCustomFuncs := fs, world := w\<rparr>))
        }
        else do {
          fs \<leftarrow> wr PersCustomLib_LastEntry (gPersCustomFuncs s) customLib f;
          Some (EPERS_DLOPENERROR, s\<lparr>gPersCustomFuncs := fs, world := w\<rparr>)
        }
      }
      else Some (EPERS_DLOPENERROR, s))"

text \<open>\<open>None\<close> inside the result is the NULL the source returns.\<close>

definition get_custom_client_lib_name :: "int \<Rightarrow> 'w pcl \<Rightarrow> string option option" where
  "get_custom_client_lib_name idx s =
     (if idx < int PersCustomLib_LastEntry then
        map_option (\<lambda>l. Some (libname l)) (rd PersCustomLib_LastEntry (gCustomLibArray s) idx)
      else Some None)"

definition check_valid_idx :: "int \<Rightarrow> 'w pcl \<Rightarrow> int option" where
  "check_valid_idx idx s =
     (if idx < int PersCustomLib_LastEntry then
        map_option valid (rd PersCustomLib_LastEntry (gCustomLibArray s) idx)
      else Some (- 1))"

text \<open>The entries for the asynchronous init function and for clearing and syncing all data stay.\<close>

definition forget_plugin :: "Pers_custom_functs_s \<Rightarrow> Pers_custom_functs_s" where
  "forget_plugin f = f\<lparr>cf_handle := None, custom_plugin_init := None, custom_plugin_deinit := None,
     custom_plugin_handle_open := None, custom_plugin_handle_close := None,
     custom_plugin_handle_get_data := None, custom_plugin_handle_set_data := None,
     custom_plugin_get_data := None, custom_plugin_set_data := None, custom_plugin_delete_data := None,
     custom_plugin_get_status_notification_clbk := None, custom_plugin_handle_get_size := None,
     custom_plugin_get_size := None, custom_plugin_create_backup := None,
     custom_plugin_get_backup := None, custom_plugin_restore_backup := None\<rparr>"

definition invalidate_custom_plugin :: "int \<Rightarrow> 'w pcl \<Rightarrow> 'w pcl option" where
  "invalidate_custom_plugin idx s = do {
     f \<leftarrow> rd PersCustomLib_LastEntry (gPersCustomFuncs s) idx;
     fs \<leftarrow> wr PersCustomLib_LastEntry (gPersCustomFuncs s) idx (forget_plugin f);
     Some (s\<lparr>gPersCustomFuncs := fs\<rparr>)
   }"

section \<open>Loading all plugins\<close>

fun invalidate_all :: "nat list \<Rightarrow> 'w pcl \<Rightarrow> 'w pcl option" where
  "invalidate_all [] s = Some s"
| "invalidate_all (i # is) s = do { s \<leftarrow> invalidate_custom_plugin (int i) s; invalidate_all is s }"

fun load_init_plugins ::
  "('w, 'e) perscom_scheme \<Rightarrow> nat list \<Rightarrow> int \<Rightarrow> 'w pcl \<Rightarrow> (int \<times> 'w pcl) option" where
  "load_init_plugins E [] rval s = Some (rval, s)"
| "load_init_plugins E (i # is) rval s = do {
     v \<leftarrow> check_valid_idx (int i) s;
     if v \<noteq> - 1 then do {
       t \<leftarrow> getCustomLoadingType (int i) s;
       if t = LoadType_PclInit then do {
         (r, s) \<leftarrow> load_custom_library E (int i) s;
         load_init_plugins E is (if r \<le> 0 then EPERS_COMMON else rval) s
       }
       else load_init_plugins E is rval s
     }
     else load_init_plugins E is rval s
   }"

definition load_custom_plugins ::
  "('w, 'e) perscom_scheme \<Rightarrow> mapped_file \<Rightarrow> fn_ptr \<Rightarrow> 'w pcl \<Rightarrow> (int \<times> 'w pcl) option" where
  "load_custom_plugins E file pfInitCompletedCB s = do {
     (r, s) \<leftarrow> get_custom_libraries E file s;
     if r \<ge> 0 then do {
       s \<leftarrow> invalidate_all [0..<PersCustomLib_LastEntry] (s\<lparr>gPlugin_callback_async_t := pfInitCompletedCB\<rparr>);
       load_init_plugins E [0..<PersCustomLib_LastEntry] 0 s
     }
     else Some (EPERS_COMMON, s)
   }"

section \<open>The table of a well-formed file\<close>

text \<open>An entry of the file: the name of the library, its path, the loading type, the init type.\<close>

type_synonym custom_entry = "string \<times> string \<times> string \<times> string"

fun entry_tokens :: "custom_entry \<Rightarrow> string list" where
  "entry_tokens (name, path, load, ini) = [name, path, load, ini]"

definition entry_info :: "'c pers_consts_scheme \<Rightarrow> custom_entry \<Rightarrow> PersCustomLibInfo" where
  "entry_info c e = (case e of (name, path, load, ini) \<Rightarrow>
     \<lparr>libname = take (CustLibMaxLen c - 1) path, valid = 1, initFunction = getInitType ini,
      loadingType = getLoadingType load\<rparr>)"

text \<open>The last entry of a library wins; a name that is no library has no place in the table.\<close>

fun custom_table ::
  "'c pers_consts_scheme \<Rightarrow> custom_entry list \<Rightarrow> (nat \<Rightarrow> PersCustomLibInfo) \<Rightarrow> (nat \<Rightarrow> PersCustomLibInfo) option" where
  "custom_table c [] libs = Some libs"
| "custom_table c (e # es) libs =
     (if custom_client_name_to_id (fst e) 0 < 7 then
        custom_table c es (libs(nat (custom_client_name_to_id (fst e) 0) := entry_info c e))
      else None)"

lemma name_to_id_range: "0 \<le> custom_client_name_to_id n k" "custom_client_name_to_id n k \<le> 7"
  by (simp_all add: custom_client_name_to_id_def c_const)

lemma custom_table_None: "custom_table c es libs = None \<longleftrightarrow> (\<exists>e \<in> set es. custom_client_name_to_id (fst e) 0 = 7)"
  by (induction es arbitrary: libs) (use name_to_id_range(2) in \<open>auto simp: less_le\<close>)

text \<open>The token table holds the tokens \<open>ts\<close> from index \<open>i\<close> on, then one more (the end of the file), then
  nothing.\<close>

definition holds_tokens :: "(nat \<Rightarrow> token_ptr) \<Rightarrow> nat \<Rightarrow> string list \<Rightarrow> bool" where
  "holds_tokens tab i ts \<longleftrightarrow> i + length ts + 1 < TOKENARRAYSIZE \<and>
     (\<forall>k < length ts. token_string (tab (i + k)) = Some (ts ! k)) \<and>
     tab (i + length ts) \<noteq> Tok_null \<and> tab (i + length ts + 1) = Tok_null"

lemma holds_tokens_Cons:
  "holds_tokens tab i (t # ts) \<longleftrightarrow> token_string (tab i) = Some t \<and> holds_tokens tab (i + 1) ts"
  by (auto simp: holds_tokens_def less_Suc_eq_0_disj)

lemma token_at_holds:
  assumes "token_string (tab i) = Some t" and "i < TOKENARRAYSIZE"
  shows "token_at tab (int i) = Some t" "token_set tab (int i) = Some True"
  using assms by (auto simp: token_at_def token_set_def rd_in c_const)

lemma store_custom_entries_table:
  "holds_tokens tab i (concat (map entry_tokens es)) \<Longrightarrow>
   store_custom_entries c tab (int i) libs = custom_table c es libs"
proof (induction es arbitrary: i libs)
  case Nil
  then have "tab i \<noteq> Tok_null" "tab (Suc i) = Tok_null" "i + 1 < 255"
    by (simp_all add: holds_tokens_def c_const)
  then show ?case
    by (subst store_custom_entries.simps) (simp add: token_set_def rd_in c_const nat_add_distrib)
next
  case (Cons e es)
  obtain n p l f where e: "e = (n, p, l, f)" by (cases e)
  from Cons.prems have h: "token_string (tab i) = Some n" "token_string (tab (i + 1)) = Some p"
      "token_string (tab (i + 2)) = Some l" "token_string (tab (i + 3)) = Some f"
      "holds_tokens tab (i + 4) (concat (map entry_tokens es))"
    by (simp_all add: e holds_tokens_Cons eval_nat_numeral)
  then have b: "i + 5 < TOKENARRAYSIZE" by (simp add: holds_tokens_def)
  have at: "token_at tab (int i) = Some n" "token_at tab (int i + 1) = Some p"
      "token_at tab (int i + 2) = Some l" "token_at tab (int i + 3) = Some f"
    using h b token_at_holds(1) [of tab i n] token_at_holds(1) [of tab "i + 1" p]
      token_at_holds(1) [of tab "i + 2" l] token_at_holds(1) [of tab "i + 3" f]
    by (simp_all add: add.commute)
  have set: "token_set tab (int i) = Some True" "token_set tab (int i + 1) = Some True"
      "token_set tab (int i + 2) = Some True" "token_set tab (int i + 3) = Some True"
    using h b token_at_holds(2) [of tab i n] token_at_holds(2) [of tab "i + 1" p]
      token_at_holds(2) [of tab "i + 2" l] token_at_holds(2) [of tab "i + 3" f]
    by (simp_all add: add.commute)
  have "store_custom_entry c tab (int i) libs =
     (if custom_client_name_to_id n 0 < 7 then
        Some (libs(nat (custom_client_name_to_id n 0) := entry_info c e)) else None)"
    using at b name_to_id_range(1) [of n 0]
    by (simp add: store_custom_entry_def e entry_info_def wr_def Let_def c_const)
  then show ?case
    using set b Cons.IH [OF h(5)]
    by (subst store_custom_entries.simps) (simp add: e add.commute fun_upd_def)
qed

definition entry_ok_custom :: "custom_entry \<Rightarrow> bool" where
  "entry_ok_custom e \<longleftrightarrow> (\<forall>t \<in> set (entry_tokens e). token_ok sep_custom t)"

lemma length_entry_tokens: "length (concat (map entry_tokens es)) = 4 * length es"
  by (induction es) auto

section \<open>Properties\<close>

text \<open>C39: a configuration file of up to 63 entries, four tokens each, is read entry by entry: the library
  that the first token names gets the path, the loading type and the init type of the last entry that
  names it, and is valid; libraries that are not named are marked invalid. If an entry names no library
  of the client library, the table is written outside its bounds.\<close>

theorem custom_config_read:
  assumes "\<forall>e \<in> set es. entry_ok_custom e" and "es \<noteq> []" and "length es \<le> 63"
    and "sep_custom x = Some True" and "gpCustomTokenArray s = (\<lambda>_. Tok_null)"
  shows "case get_custom_libraries c (Mapped (config_text x (concat (map entry_tokens es)))) s of
       None \<Rightarrow> \<exists>e \<in> set es. custom_client_name_to_id (fst e) 0 = 7
     | Some (r, s') \<Rightarrow> r = 0 \<and> (\<forall>e \<in> set es. custom_client_name_to_id (fst e) 0 < 7) \<and>
         custom_table c es (\<lambda>j. if j < 7 then (gCustomLibArray s j)\<lparr>valid := - 1\<rparr> else gCustomLibArray s j)
           = Some (gCustomLibArray s')"
proof -
  let ?ts = "concat (map entry_tokens es)"
  let ?libs = "\<lambda>j. if j < 7 then (gCustomLibArray s j)\<lparr>valid := - 1\<rparr> else gCustomLibArray s j"
  have ok: "\<forall>t \<in> set ?ts. token_ok sep_custom t" using assms(1) by (auto simp: entry_ok_custom_def)
  have len: "length ?ts + 1 < TOKENARRAYSIZE"
    using assms(3) length_entry_tokens [of es] by (simp add: c_const)
  then obtain tab where tab: "token_table sep_custom (config_text x ?ts) (\<lambda>_. Tok_null) = Some tab"
      "\<forall>k < length ?ts. token_string (tab k) = Some (?ts ! k)" "tab (length ?ts) \<noteq> Tok_null"
      "\<forall>k > length ?ts. tab k = Tok_null"
    using token_table_read [OF ok assms(4), of "\<lambda>_. Tok_null"] by auto
  then have "holds_tokens tab 0 ?ts" using len by (simp add: holds_tokens_def)
  then have st: "store_custom_entries c tab 0 ?libs = custom_table c es ?libs"
    using store_custom_entries_table [of tab 0 es c ?libs] by simp
  have "config_text x ?ts \<noteq> []" using assms(2) by (cases es) (auto simp: config_text_def)
  then have "get_custom_libraries c (Mapped (config_text x ?ts)) s =
      map_option (\<lambda>libs. (0, s\<lparr>gpCustomTokenArray := tab, gCustomLibArray := libs\<rparr>)) (custom_table c es ?libs)"
    using tab(1) st assms(5)
    by (simp add: get_custom_libraries_def fillCustomCharTokenArray_def Let_def c_const
        map_conv_bind_option comp_def)
  then show ?thesis
    using custom_table_None [of c es ?libs] name_to_id_range(2)
    by (auto split: option.split simp: less_le)
qed

theorem custom_config_read_witness:
  "(case get_custom_libraries mem_env (Mapped (config_text CHR '' '' [''secure'', ''/usr/lib/libs.so'', ''init'', ''sync'']))
       (pcl_start mem_env mem_start) of None \<Rightarrow> False | Some (r, s') \<Rightarrow> r = 0) \<and>
   get_custom_libraries mem_env (Mapped (config_text CHR '' '' [''other'', ''/usr/lib/libs.so'', ''init'', ''sync'']))
       (pcl_start mem_env mem_start) = None"
proof -
  have ok: "entry_ok_custom (''secure'', ''/usr/lib/libs.so'', ''init'', ''sync'')"
    "entry_ok_custom (''other'', ''/usr/lib/libs.so'', ''init'', ''sync'')"
    by (simp_all add: entry_ok_custom_def token_ok_def sep_table NUL_def)
  have id: "custom_client_name_to_id ''secure'' 0 = 1" "custom_client_name_to_id ''other'' 0 = 7"
    by (simp_all add: custom_client_name_to_id_def strncmp_eq_def NUL_def c_const eval_nat_numeral)
  have st: "gpCustomTokenArray (pcl_start mem_env mem_start) = (\<lambda>_. Tok_null)"
    by (simp add: pcl_start_def)
  have x: "sep_custom CHR '' '' = Some True" by (simp add: sep_table)
  show ?thesis
    using custom_config_read [of "[(''secure'', ''/usr/lib/libs.so'', ''init'', ''sync'')]", OF _ _ _ x st, of mem_env]
      custom_config_read [of "[(''other'', ''/usr/lib/libs.so'', ''init'', ''sync'')]", OF _ _ _ x st, of mem_env]
      ok id
    by (auto split: option.splits)
qed

text \<open>A plugin that has been invalidated cannot be called any more for data, size, deletion, init or
  deinit, and its library handle is gone; but the pointers to the asynchronous init function and to
  clearing and syncing all data are kept, although the callers have closed the library.\<close>

theorem invalidate_forgets:
  assumes "0 \<le> idx" and "idx < 7"
  shows "\<exists>s'. invalidate_custom_plugin idx s = Some s' \<and>
     (let f = gPersCustomFuncs s (nat idx); f' = gPersCustomFuncs s' (nat idx) in
        cf_handle f' = None \<and> custom_plugin_init f' = None \<and> custom_plugin_deinit f' = None \<and>
        custom_plugin_get_data f' = None \<and> custom_plugin_set_data f' = None \<and>
        custom_plugin_get_size f' = None \<and> custom_plugin_delete_data f' = None \<and>
        custom_plugin_init_async f' = custom_plugin_init_async f \<and>
        custom_plugin_clear_all_data f' = custom_plugin_clear_all_data f \<and>
        custom_plugin_sync f' = custom_plugin_sync f) \<and>
     (\<forall>j. j \<noteq> nat idx \<longrightarrow> gPersCustomFuncs s' j = gPersCustomFuncs s j)"
  using assms
  by (simp add: invalidate_custom_plugin_def rd_in wr_in c_const forget_plugin_def Let_def)

theorem invalidate_forgets_witness:
  "\<exists>s'. invalidate_custom_plugin 1 (pcl_start mem_env mem_start) = Some s' \<and>
     cf_handle (gPersCustomFuncs s' 1) = None"
  using invalidate_forgets [of 1 "pcl_start mem_env mem_start"] by (auto simp: Let_def)

end
