(* ===== verification/Db_Access.thy ===== *)
theory Db_Access
  imports Prct_Access Custom_Loader
begin

text \<open>
  Access to the databases and the plugins (\<open>src/persistence_client_library_db_access.[ch]\<close>): the cache of
  open databases, reading with fall-back to the default databases, writing, deleting, and the change
  notifications.

  A read buffer is the list of its bytes; every read returns it as it is afterwards.
\<close>

section \<open>Databases\<close>

definition PersistenceDB_confdefault :: "'c pers_consts_scheme \<Rightarrow> int" where
  "PersistenceDB_confdefault c = PersistencePolicy_LastEntry c"

definition PersistenceDB_default :: "'c pers_consts_scheme \<Rightarrow> int" where
  "PersistenceDB_default c = PersistencePolicy_LastEntry c + 1"

definition PersistenceDB_LastEntry :: "'c pers_consts_scheme \<Rightarrow> nat" where
  "PersistenceDB_LastEntry c = nat (PersistencePolicy_LastEntry c + 2)"

text \<open>\<open>storage + ldbid\<close> is computed as an unsigned number and stored in an \<open>int\<close>.\<close>

definition db_slot :: "persistence_info \<Rightarrow> int" where
  "db_slot info = sint (word_of_int (storage (configKey info)) + ldbid (context_of info) :: u32)"

definition db_file_suffix :: "'c pers_consts_scheme \<Rightarrow> int \<Rightarrow> string option" where
  "db_file_suffix c dbType =
     (if dbType = PersistencePolicy_wt c then Some (gLocalWt c)
      else if dbType = PersistencePolicy_wc c then Some (gLocalCached c)
      else if dbType = PersistenceDB_confdefault c then Some (gLocalConfigurableDefault c)
      else if dbType = PersistenceDB_default c then Some (gLocalFactoryDefault c)
      else None)"

definition rd2 :: "nat \<Rightarrow> nat \<Rightarrow> (nat \<Rightarrow> nat \<Rightarrow> 'a) \<Rightarrow> int \<Rightarrow> int \<Rightarrow> 'a option" where
  "rd2 n m f i j = do { row \<leftarrow> rd n f i; rd m row j }"

definition wr2 :: "nat \<Rightarrow> nat \<Rightarrow> (nat \<Rightarrow> nat \<Rightarrow> 'a) \<Rightarrow> int \<Rightarrow> int \<Rightarrow> 'a \<Rightarrow> (nat \<Rightarrow> nat \<Rightarrow> 'a) option" where
  "wr2 n m f i j x = do { row \<leftarrow> rd n f i; row \<leftarrow> wr m row j x; wr n f i row }"

lemma rd2_in [c_arr]:
  "0 \<le> i \<Longrightarrow> i < int n \<Longrightarrow> 0 \<le> j \<Longrightarrow> j < int m \<Longrightarrow> rd2 n m f i j = Some (f (nat i) (nat j))"
  by (simp add: rd2_def rd_in)

lemma wr2_in [c_arr]:
  "0 \<le> i \<Longrightarrow> i < int n \<Longrightarrow> 0 \<le> j \<Longrightarrow> j < int m \<Longrightarrow>
   wr2 n m f i j x = Some (f(nat i := (f (nat i))(nat j := x)))"
  by (simp add: wr2_def rd_in wr_in)

lemma rd2_out: "i < 0 \<or> int n \<le> i \<or> j < 0 \<or> int m \<le> j \<Longrightarrow> rd2 n m f i j = None"
  by (auto simp: rd2_def rd_def)

definition database_get ::
  "('w, 'e) perscom_scheme \<Rightarrow> persistence_info \<Rightarrow> string \<Rightarrow> int \<Rightarrow> 'w pcl \<Rightarrow> (int \<times> 'w pcl) option" where
  "database_get E info dbPath dbType s =
     (let arrayIdx = db_slot info; m = PersistenceDB_LastEntry E in
      if arrayIdx < int DbTableSize then do {
        created \<leftarrow> rd2 DbTableSize m (gHandlesDBCreated s) arrayIdx dbType;
        if created = 0 then
          case db_file_suffix E dbType of
            None \<Rightarrow> Some (- 2, s)
          | Some suffix \<Rightarrow> do {
              let (handleDB, w) = persComDbOpen E (snprintf (DbPathMaxLen E) (dbPath @ suffix)) 1 (world s);
              let s = s\<lparr>world := w\<rparr>;
              if handleDB \<ge> 0 then do {
                hs \<leftarrow> wr2 DbTableSize m (gHandlesDB s) arrayIdx dbType handleDB;
                cs \<leftarrow> wr2 DbTableSize m (gHandlesDBCreated s) arrayIdx dbType 1;
                Some (handleDB, s\<lparr>gHandlesDB := hs, gHandlesDBCreated := cs\<rparr>)
              }
              else Some (handleDB, s)
            }
        else do {
          h \<leftarrow> rd2 DbTableSize m (gHandlesDB s) arrayIdx dbType;
          Some (h, s)
        }
      }
      else Some (- 1, s))"

text \<open>The default databases, tried in order: \<open>dbs\<close> are the types still to try.\<close>

fun pers_get_defaults_loop ::
  "('w, 'e) perscom_scheme \<Rightarrow> string \<Rightarrow> string \<Rightarrow> persistence_info \<Rightarrow> u8 list \<Rightarrow> int \<Rightarrow> PersGetDefault_e
     \<Rightarrow> int list \<Rightarrow> int \<Rightarrow> 'w pcl \<Rightarrow> ((int \<times> u8 list) \<times> 'w pcl) option" where
  "pers_get_defaults_loop E dbPath key info buffer bsize job [] read_size s = Some ((read_size, buffer), s)"
| "pers_get_defaults_loop E dbPath key info buffer bsize job (i # is) read_size s = do {
     (h, s) \<leftarrow> database_get E info dbPath i s;
     if h \<ge> 0 then do {
       let ((r, buffer), w) =
         (case job of
            PersGetDefault_Data \<Rightarrow> persComDbReadKey E h key buffer bsize (world s)
          | PersGetDefault_Size \<Rightarrow> (let (r, w) = persComDbGetKeySize E h key (world s) in ((r, buffer), w)));
       let s = s\<lparr>world := w\<rparr>;
       if r < 0 then
         pers_get_defaults_loop E dbPath key info buffer bsize job is
           (if r = PERS_COM_ERR_NOT_FOUND E then EPERS_NOKEY else r) s
       else Some ((r, buffer), s)
     }
     else pers_get_defaults_loop E dbPath key info buffer bsize job is read_size s
   }"

definition pers_get_defaults ::
  "('w, 'e) perscom_scheme \<Rightarrow> string \<Rightarrow> string \<Rightarrow> persistence_info \<Rightarrow> u8 list \<Rightarrow> int \<Rightarrow> PersGetDefault_e
     \<Rightarrow> 'w pcl \<Rightarrow> ((int \<times> u8 list) \<times> 'w pcl) option" where
  "pers_get_defaults E dbPath key info buffer bsize job s =
     pers_get_defaults_loop E dbPath key info buffer bsize job
       [PersistenceDB_confdefault E, PersistenceDB_default E] EPERS_NOKEY s"

section \<open>Notifications\<close>

definition pclNotifyStatus_no_changed :: int where [simp]: "pclNotifyStatus_no_changed = 0"
definition pclNotifyStatus_created :: int where [simp]: "pclNotifyStatus_created = 1"
definition pclNotifyStatus_changed :: int where [simp]: "pclNotifyStatus_changed = 2"
definition pclNotifyStatus_deleted :: int where [simp]: "pclNotifyStatus_deleted = 3"
definition pclNotifyStatus_lastEntry :: int where [simp]: "pclNotifyStatus_lastEntry = 4"

definition pers_send_Notification_Signal ::
  "'c pers_consts_scheme \<Rightarrow> string \<Rightarrow> db_context \<Rightarrow> int \<Rightarrow> 'w pcl \<Rightarrow> int \<times> 'w pcl" where
  "pers_send_Notification_Signal c key ctx reason s =
     (if reason < pclNotifyStatus_lastEntry then
        let (r, s) = deliverToMainloop \<lparr>cmd = CMD_SEND_NOTIFY_SIGNAL,
              params = [ldbid ctx, user_no ctx, seat_no ctx, word_of_int reason],
              mstring = snprintf (DbKeyMaxLen c) key\<rparr> s
        in if r = - 1 then (EPERS_NOTIFY_SIG, s) else (1, s)
      else (EPERS_NOTIFY_SIG, s))"

fun notify_policy_val :: "PersNotifyRegPolicy_e \<Rightarrow> u32" where
  "notify_policy_val Notify_register = 0"
| "notify_policy_val Notify_unregister = 1"
| "notify_policy_val Notify_lastEntry = 2"

definition persistence_notify_on_change ::
  "'c pers_consts_scheme \<Rightarrow> string \<Rightarrow> u32 \<Rightarrow> u32 \<Rightarrow> u32 \<Rightarrow> fn_ptr \<Rightarrow> PersNotifyRegPolicy_e \<Rightarrow> 'w pcl
     \<Rightarrow> int \<times> 'w pcl" where
  "persistence_notify_on_change c key lid user seat callback regPolicy s =
     (if regPolicy \<noteq> Notify_lastEntry then
        let s = s\<lparr>gChangeNotifyCallback :=
                    (if regPolicy = Notify_register then callback else None)\<rparr>;
            (r, s) = deliverToMainloop \<lparr>cmd = CMD_REG_NOTIFY_SIGNAL,
              params = [lid, user, seat, notify_policy_val regPolicy],
              mstring = snprintf (DbKeyMaxLen c) key\<rparr> s
        in if r = - 1 then (- 1, s) else (0, s)
      else (- 1, s))"

section \<open>Plugins\<close>

text \<open>Is the plugin usable? \<open>first\<close> is the function whose absence triggers loading, \<open>needed\<close> the function
  looked at afterwards. (The sources also set a return value for an undefined loading type, which is
  always overwritten.)\<close>

definition plugin_available ::
  "('w, 'e) perscom_scheme \<Rightarrow> (Pers_custom_functs_s \<Rightarrow> fn_ptr) \<Rightarrow> (Pers_custom_functs_s \<Rightarrow> fn_ptr) \<Rightarrow> int \<Rightarrow> 'w pcl
     \<Rightarrow> (bool \<times> 'w pcl) option" where
  "plugin_available E first needed idx s = do {
     f \<leftarrow> rd PersCustomLib_LastEntry (gPersCustomFuncs s) idx;
     if first f = None then do {
       t \<leftarrow> getCustomLoadingType idx s;
       case t of
         LoadType_OnDemand \<Rightarrow> do {
           (r, s) \<leftarrow> load_custom_library E idx s;
           if r = 1 then do {
             f \<leftarrow> rd PersCustomLib_LastEntry (gPersCustomFuncs s) idx;
             Some (needed f \<noteq> None, s)
           }
           else Some (False, s)
         }
       | LoadType_PclInit \<Rightarrow> Some (needed f \<noteq> None, s)
       | LoadType_Undefined \<Rightarrow> Some (False, s)
     }
     else Some (True, s)
   }"

text \<open>The name under which a plugin stores a resource.\<close>

definition pathKeyString :: "persistence_info \<Rightarrow> string \<Rightarrow> string option" where
  "pathKeyString info key =
     (case customID (configKey info) of
        [] \<Rightarrow> None
      | c # _ \<Rightarrow>
          if c = NUL then
            map_option (\<lambda>n. snprintf 128 (''0x'' @ fmt_08X (ldbid (context_of info)) @ ''/'' @ n @ ''/'' @ key))
              (cstr_of_array (custom_name (configKey info)))
          else
            map_option (\<lambda>n. snprintf 128 (''0x'' @ fmt_08X (ldbid (context_of info)) @ ''/'' @ n))
              (cstr_of_array (customID (configKey info))))"

text \<open>A call through a function pointer of the plugin.\<close>

definition plugin_fun ::
  "(Pers_custom_functs_s \<Rightarrow> fn_ptr) \<Rightarrow> int \<Rightarrow> 'w pcl \<Rightarrow> nat option" where
  "plugin_fun f idx s = Option.bind (rd PersCustomLib_LastEntry (gPersCustomFuncs s) idx) f"

text \<open>The defaults of a custom resource live in the cached local or shared database.\<close>

definition custom_default_info :: "'c pers_consts_scheme \<Rightarrow> persistence_info \<Rightarrow> persistence_info" where
  "custom_default_info c info = info\<lparr>configKey := (configKey info)\<lparr>policy := PersistencePolicy_wc c,
     rtype := PersistenceResourceType_key c\<rparr>\<rparr>"

definition is_db_storage :: "'c pers_consts_scheme \<Rightarrow> persistence_info \<Rightarrow> bool" where
  "is_db_storage c info \<longleftrightarrow> storage (configKey info) = PersistenceStorage_shared c \<or>
     storage (configKey info) = PersistenceStorage_local c"

section \<open>Reading\<close>

definition persistence_get_data ::
  "('w, 'e) perscom_scheme \<Rightarrow> string \<Rightarrow> string \<Rightarrow> string \<Rightarrow> persistence_info \<Rightarrow> u8 list \<Rightarrow> int \<Rightarrow> 'w pcl
     \<Rightarrow> ((int \<times> u8 list) \<times> 'w pcl) option" where
  "persistence_get_data E dbPath key resourceID info buffer buffer_size s =
     (if is_db_storage E info then do {
        (handleDB, s) \<leftarrow> database_get E info dbPath (policy (configKey info)) s;
        if handleDB \<ge> 0 then do {
          let ((r, buffer), w) = persComDbReadKey E handleDB key buffer buffer_size (world s);
          let s = s\<lparr>world := w\<rparr>;
          if r < 0 then pers_get_defaults E dbPath resourceID info buffer buffer_size PersGetDefault_Data s
          else Some ((r, buffer), s)
        }
        else Some ((- 1, buffer), s)
      }
      else if storage (configKey info) = PersistenceStorage_custom E then do {
        let idx = custom_client_name_to_id dbPath 1;
        ((read_size, buffer), s) \<leftarrow>
          (if idx < int PersCustomLib_LastEntry then do {
             (available, s) \<leftarrow> plugin_available E custom_plugin_get_size custom_plugin_get_data idx s;
             if available then do {
               pathKey \<leftarrow> pathKeyString info key;
               f \<leftarrow> plugin_fun custom_plugin_get_data idx s;
               let (rb, w) = call_plugin_get_data E f pathKey buffer buffer_size (world s);
               Some (rb, s\<lparr>world := w\<rparr>)
             }
             else Some ((EPERS_NOPLUGINFUNCT, buffer), s)
           }
           else Some ((EPERS_NOPLUGINFUNCT, buffer), s));
        if 1 > read_size then do {
          let info = custom_default_info E info;
          (_, _, dbPath) \<leftarrow> get_db_path_and_key E (gAppId s) info key None dbPath;
          ((r, buffer), s) \<leftarrow> pers_get_defaults E dbPath resourceID info buffer buffer_size PersGetDefault_Data s;
          Some ((if 0 < r then r else read_size, buffer), s)
        }
        else Some ((read_size, buffer), s)
      }
      else Some ((- 1, buffer), s))"

definition persistence_get_data_size ::
  "('w, 'e) perscom_scheme \<Rightarrow> string \<Rightarrow> string \<Rightarrow> string \<Rightarrow> persistence_info \<Rightarrow> 'w pcl \<Rightarrow> (int \<times> 'w pcl) option" where
  "persistence_get_data_size E dbPath key resourceID info s =
     (if is_db_storage E info then do {
        (handleDB, s) \<leftarrow> database_get E info dbPath (policy (configKey info)) s;
        if handleDB \<ge> 0 then do {
          let (r, w) = persComDbGetKeySize E handleDB key (world s);
          let s = s\<lparr>world := w\<rparr>;
          if r < 0 then do {
            ((r, _), s) \<leftarrow> pers_get_defaults E dbPath resourceID info [] 0 PersGetDefault_Size s;
            Some (r, s)
          }
          else Some (r, s)
        }
        else Some (- 1, s)
      }
      else if storage (configKey info) = PersistenceStorage_custom E then do {
        let idx = custom_client_name_to_id dbPath 1;
        (read_size, s) \<leftarrow>
          (if idx < int PersCustomLib_LastEntry then do {
             (available, s) \<leftarrow> plugin_available E custom_plugin_get_size custom_plugin_get_size idx s;
             if available then do {
               pathKey \<leftarrow> pathKeyString info key;
               f \<leftarrow> plugin_fun custom_plugin_get_size idx s;
               let (r, w) = call_plugin_get_size E f pathKey (world s);
               Some (r, s\<lparr>world := w\<rparr>)
             }
             else Some (EPERS_NOPLUGINFUNCT, s)
           }
           else Some (EPERS_NOPLUGINFUNCT, s));
        if 1 > read_size then do {
          let info = custom_default_info E info;
          (_, _, dbPath) \<leftarrow> get_db_path_and_key E (gAppId s) info key None dbPath;
          ((r, _), s) \<leftarrow> pers_get_defaults E dbPath resourceID info [] 0 PersGetDefault_Size s;
          Some (if 0 < r then r else read_size, s)
        }
        else Some (read_size, s)
      }
      else Some (- 1, s))"

section \<open>Writing and deleting\<close>

definition persistence_set_data ::
  "('w, 'e) perscom_scheme \<Rightarrow> string \<Rightarrow> string \<Rightarrow> string \<Rightarrow> persistence_info \<Rightarrow> u8 list \<Rightarrow> int \<Rightarrow> 'w pcl
     \<Rightarrow> (int \<times> 'w pcl) option" where
  "persistence_set_data E dbPath key rid info buffer buffer_size s =
     (if is_db_storage E info then do {
        (handleDB, s) \<leftarrow> database_get E info dbPath (policy (configKey info)) s;
        if handleDB \<ge> 0 then do {
          let (write_size, w) = persComDbWriteKey E handleDB key buffer buffer_size (world s);
          let s = s\<lparr>world := w\<rparr>;
          if write_size < 0 then Some (write_size, s)
          else if storage (configKey info) = PersistenceStorage_shared E then do {
            let (rval, s) = pers_send_Notification_Signal E rid (context_of info) pclNotifyStatus_changed s;
            Some (if rval \<le> 0 then rval else write_size, s)
          }
          else Some (write_size, s)
        }
        else Some (EPERS_NOPRCTABLE, s)
      }
      else if storage (configKey info) = PersistenceStorage_custom E then do {
        let idx = custom_client_name_to_id dbPath 1;
        if idx < int PersCustomLib_LastEntry then do {
          (available, s) \<leftarrow> plugin_available E custom_plugin_set_data custom_plugin_set_data idx s;
          if available then do {
            pathKey \<leftarrow> pathKeyString info key;
            f \<leftarrow> plugin_fun custom_plugin_set_data idx s;
            let (write_size, w) = call_plugin_set_data E f pathKey buffer buffer_size (world s);
            let s = s\<lparr>world := w\<rparr>;
            if 0 < write_size \<and> write_size = buffer_size then do {
              let (rval, s) = pers_send_Notification_Signal E rid (context_of info) pclNotifyStatus_changed s;
              Some (if rval \<le> 0 then rval else write_size, s)
            }
            else Some (write_size, s)
          }
          else Some (EPERS_NOPLUGINFUNCT, s)
        }
        else Some (EPERS_NOPLUGINFUNCT, s)
      }
      else Some (- 1, s))"

definition persistence_delete_data ::
  "('w, 'e) perscom_scheme \<Rightarrow> string \<Rightarrow> string \<Rightarrow> string \<Rightarrow> persistence_info \<Rightarrow> 'w pcl \<Rightarrow> (int \<times> 'w pcl) option" where
  "persistence_delete_data E dbPath key rid info s =
     (if storage (configKey info) \<noteq> PersistenceStorage_custom E then do {
        (handleDB, s) \<leftarrow> database_get E info dbPath (policy (configKey info)) s;
        if handleDB \<ge> 0 then do {
          let (r, w) = persComDbDeleteKey E handleDB key (world s);
          let s = s\<lparr>world := w\<rparr>;
          let ret = (if r < 0 then if r = PERS_COM_ERR_NOT_FOUND E then EPERS_NOKEY else EPERS_DB_ERROR_INTERNAL
                     else r);
          if storage (configKey info) = PersistenceStorage_shared E then
            Some (ret, snd (pers_send_Notification_Signal E rid (context_of info) pclNotifyStatus_deleted s))
          else Some (ret, s)
        }
        else Some (EPERS_NOPRCTABLE, s)
      }
      else do {
        let idx = custom_client_name_to_id dbPath 1;
        if idx < int PersCustomLib_LastEntry then do {
          (available, s) \<leftarrow> plugin_available E custom_plugin_delete_data custom_plugin_delete_data idx s;
          if available then do {
            pathKey \<leftarrow> pathKeyString info key;
            f \<leftarrow> plugin_fun custom_plugin_delete_data idx s;
            let (ret, w) = call_plugin_delete_data E f pathKey (world s);
            let s = s\<lparr>world := w\<rparr>;
            if 0 \<le> ret then
              Some (ret, snd (pers_send_Notification_Signal E rid (context_of info) pclNotifyStatus_deleted s))
            else Some (ret, s)
          }
          else Some (EPERS_NOPLUGINFUNCT, s)
        }
        else Some (EPERS_NOPLUGINFUNCT, s)
      })"

section \<open>Closing everything\<close>

definition close_database :: "('w, 'e) perscom_scheme \<Rightarrow> nat \<Rightarrow> nat \<Rightarrow> 'w pcl \<Rightarrow> 'w pcl" where
  "close_database E i j s =
     (if gHandlesDBCreated s i j = 1 then
        let (r, w) = persComDbClose E (gHandlesDB s i j) (world s); s = s\<lparr>world := w\<rparr> in
        if r < 0 then s
        else s\<lparr>gHandlesDBCreated := (gHandlesDBCreated s)(i := (gHandlesDBCreated s i)(j := 0))\<rparr>
      else s)"

definition database_close_all :: "('w, 'e) perscom_scheme \<Rightarrow> 'w pcl \<Rightarrow> 'w pcl" where
  "database_close_all E s =
     fold (\<lambda>i. fold (\<lambda>j. close_database E i j) [0..<PersistenceDB_LastEntry E]) [0..<DbTableSize] s"

text \<open>Two functions that nothing calls (inside \<open>#if 0\<close>): closing one database, and the part of a key
  behind the last separator.\<close>

definition database_close :: "('w, 'e) perscom_scheme \<Rightarrow> persistence_info \<Rightarrow> 'w pcl \<Rightarrow> 'w pcl option" where
  "database_close E info s =
     (if storage (configKey info) \<le> PersistenceStorage_shared E then do {
        let m = PersistenceDB_LastEntry E;
        h \<leftarrow> rd2 DbTableSize m (gHandlesDB s) (db_slot info) (policy (configKey info));
        let (r, w) = persComDbClose E h (world s);
        let s = s\<lparr>world := w\<rparr>;
        if r < 0 then Some s
        else do {
          cs \<leftarrow> wr2 DbTableSize m (gHandlesDBCreated s) (db_slot info) (policy (configKey info)) 0;
          Some (s\<lparr>gHandlesDBCreated := cs\<rparr>)
        }
      }
      else Some s)"

definition pers_get_raw_key :: "string \<Rightarrow> string" where
  "pers_get_raw_key key = rev (takeWhile (\<lambda>c. c \<noteq> CHR ''/'') (rev key))"

lemma pers_get_raw_key_last:
  assumes "CHR ''/'' \<notin> set k"
  shows "pers_get_raw_key (p @ CHR ''/'' # k) = k" and "pers_get_raw_key k = k"
proof -
  have all: "takeWhile (\<lambda>c. c \<noteq> CHR ''/'') (rev k) = rev k"
    by (subst takeWhile_eq_all_conv) (use assms in auto)
  show "pers_get_raw_key k = k" by (simp only: pers_get_raw_key_def all rev_rev_ident)
  have "\<forall>c \<in> set (rev k). c \<noteq> CHR ''/''" using assms by auto
  then have "takeWhile (\<lambda>c. c \<noteq> CHR ''/'') (rev k @ CHR ''/'' # rev p) = rev k"
    using all by (simp only: takeWhile_append split: if_splits) simp
  then show "pers_get_raw_key (p @ CHR ''/'' # k) = k" by (simp add: pers_get_raw_key_def)
qed

definition close_rct :: "('w, 'e) perscom_scheme \<Rightarrow> nat \<Rightarrow> 'w pcl \<Rightarrow> 'w pcl" where
  "close_rct E i s =
     (case get_resource_cfg_table_by_idx (int i) s of
        None \<Rightarrow> s
      | Some h \<Rightarrow>
          if h \<noteq> - 1 then
            case invalidate_resource_cfg_table (int i) (s\<lparr>world := snd (persComRctClose E h (world s))\<rparr>) of
              None \<Rightarrow> s
            | Some s' \<Rightarrow> s'
          else s)"

definition pers_rct_close_all :: "('w, 'e) perscom_scheme \<Rightarrow> 'w pcl \<Rightarrow> 'w pcl" where
  "pers_rct_close_all E s = fold (close_rct E) [0..<PrctDbTableSize] s"

section \<open>Lemmas on the database cache\<close>

lemma policy_bounds:
  assumes "consts_ok E"
  shows "0 \<le> PersistencePolicy_wc E" "PersistencePolicy_wc E < int (PersistenceDB_LastEntry E)"
    "0 \<le> PersistencePolicy_wt E" "PersistencePolicy_wt E < int (PersistenceDB_LastEntry E)"
    "0 \<le> PersistenceDB_confdefault E" "PersistenceDB_confdefault E < int (PersistenceDB_LastEntry E)"
    "0 \<le> PersistenceDB_default E" "PersistenceDB_default E < int (PersistenceDB_LastEntry E)"
  using assms
  by (simp_all add: consts_ok_def PersistenceDB_LastEntry_def PersistenceDB_confdefault_def
      PersistenceDB_default_def)

definition slot_ok :: "persistence_info \<Rightarrow> bool" where
  "slot_ok info \<longleftrightarrow> 0 \<le> db_slot info \<and> db_slot info < int DbTableSize"

definition db_open :: "persistence_info \<Rightarrow> int \<Rightarrow> 'w pcl \<Rightarrow> bool" where
  "db_open info t s \<longleftrightarrow> gHandlesDBCreated s (nat (db_slot info)) (nat t) \<noteq> 0"

definition db_handle :: "persistence_info \<Rightarrow> int \<Rightarrow> 'w pcl \<Rightarrow> int" where
  "db_handle info t s = gHandlesDB s (nat (db_slot info)) (nat t)"

definition type_ok :: "('w, 'e) perscom_scheme \<Rightarrow> int \<Rightarrow> bool" where
  "type_ok E t \<longleftrightarrow> 0 \<le> t \<and> t < int (PersistenceDB_LastEntry E)"

lemma database_get_cached:
  assumes "slot_ok info" and "type_ok E t" and "db_open info t s"
  shows "database_get E info p t s = Some (db_handle info t s, s)"
  using assms
  by (simp add: database_get_def slot_ok_def type_ok_def db_open_def db_handle_def rd2_in Let_def)

lemma database_get_open:
  assumes "slot_ok info" and "type_ok E t" and "\<not> db_open info t s"
    and "db_file_suffix E t = Some suffix"
    and "persComDbOpen E (snprintf (DbPathMaxLen E) (p @ suffix)) 1 (world s) = (h, w)"
  shows "database_get E info p t s = Some (h,
     if 0 \<le> h then s\<lparr>world := w,
        gHandlesDB := (gHandlesDB s)(nat (db_slot info) := (gHandlesDB s (nat (db_slot info)))(nat t := h)),
        gHandlesDBCreated := (gHandlesDBCreated s)
          (nat (db_slot info) := (gHandlesDBCreated s (nat (db_slot info)))(nat t := 1))\<rparr>
     else s\<lparr>world := w\<rparr>)"
  using assms
  by (simp add: database_get_def slot_ok_def type_ok_def db_open_def rd2_in wr2_in Let_def)

text \<open>After a successful call the database is open; data and tables are as before.\<close>

lemma database_get_result:
  assumes "slot_ok info" and "type_ok E t" and "database_get E info p t s = Some (h, s')" and "0 \<le> h"
  shows "db_open info t s' \<and> db_handle info t s' = h"
proof (cases "db_open info t s")
  case True
  then show ?thesis using assms database_get_cached [OF assms(1,2) True, of p] by auto
next
  case False
  show ?thesis
  proof (cases "db_file_suffix E t")
    case None
    with False assms show ?thesis
      by (simp add: database_get_def slot_ok_def type_ok_def db_open_def rd2_in Let_def split: if_splits)
  next
    case (Some suffix)
    obtain h' w where "persComDbOpen E (snprintf (DbPathMaxLen E) (p @ suffix)) 1 (world s) = (h', w)"
      by fastforce
    from database_get_open [OF assms(1,2) False Some this] assms(3,4) show ?thesis
      by (auto simp: db_open_def db_handle_def)
  qed
qed

lemma database_get_frame:
  assumes "open_law E D R" and "database_get E info p t s = Some (h, s')"
  shows "D (world s') = D (world s) \<and> R (world s') = R (world s) \<and>
     s' = s\<lparr>world := world s', gHandlesDB := gHandlesDB s', gHandlesDBCreated := gHandlesDBCreated s'\<rparr>"
  using assms
  by (auto simp: database_get_def open_law_def Let_def wr2_def
      split: if_splits option.splits prod.splits Option.bind_splits)
     (metis snd_conv)+

text \<open>An open database stays open, under the same handle.\<close>

definition keeps_open :: "'w pcl \<Rightarrow> 'w pcl \<Rightarrow> bool" where
  "keeps_open s s' \<longleftrightarrow> (\<forall>i j. gHandlesDBCreated s i j \<noteq> 0 \<longrightarrow>
     gHandlesDBCreated s' i j \<noteq> 0 \<and> gHandlesDB s' i j = gHandlesDB s i j)"

lemma database_get_keeps_open:
  "database_get E info p t s = Some (h, s') \<Longrightarrow> keeps_open s s'"
  by (auto simp: database_get_def keeps_open_def Let_def wr2_def rd2_def rd_def wr_def
      split: if_splits option.splits prod.splits Option.bind_splits)

section \<open>Properties\<close>

text \<open>An open database is found again through its slot, the sum of its storage and its logical id:
  the next call for the same slot and type returns the same handle and changes nothing, whatever path
  it is given. Because the slot is a sum, two different databases can meet in one: the shared group
  0x7F and the local id 0x80 do, and whichever is opened second gets the database of the first.\<close>

theorem database_get_slots:
  assumes "slot_ok i1" and "type_ok E t" and "database_get E i1 p1 t s = Some (h, s1)" and "0 \<le> h"
    and "db_slot i2 = db_slot i1"
  shows "database_get E i2 p2 t s1 = Some (h, s1)"
proof -
  have o: "db_open i1 t s1 \<and> db_handle i1 t s1 = h" by (rule database_get_result [OF assms(1-4)])
  then have "slot_ok i2" "db_open i2 t s1" "db_handle i2 t s1 = h"
    using assms(1,5) by (simp_all add: slot_ok_def db_open_def db_handle_def)
  then show ?thesis using database_get_cached [OF _ assms(2), of i2 s1 p2] by simp
qed

definition group_7F :: persistence_info where
  "group_7F = \<lparr>context_of = \<lparr>ldbid = 0x7F, user_no = 0, seat_no = 0\<rparr>, configKey = mem_config 1 0\<rparr>"

definition local_80 :: persistence_info where
  "local_80 = \<lparr>context_of = \<lparr>ldbid = 0x80, user_no = 0, seat_no = 0\<rparr>, configKey = mem_config 0 0\<rparr>"

lemma slots_meet: "db_slot group_7F = 128" "db_slot local_80 = 128"
  by (simp_all add: db_slot_def group_7F_def local_80_def mem_config_def)

theorem database_get_slots_witness:
  "\<exists>h s1. database_get mem_env group_7F ''/Data/mnt-c/app/shared_group_7f'' 0 (pcl_start mem_env mem_start) = Some (h, s1) \<and>
     database_get mem_env local_80 ''/Data/mnt-c/app'' 0 s1 = Some (h, s1)"
proof -
  let ?p = "''/Data/mnt-c/app/shared_group_7f''"
  have ok: "slot_ok group_7F" "type_ok mem_env 0"
    using slots_meet by (simp_all add: slot_ok_def c_const type_ok_def PersistenceDB_LastEntry_def mem_env_def)
  obtain s1 where g: "database_get mem_env group_7F ?p 0 (pcl_start mem_env mem_start)
      = Some (int (length (snprintf 256 (?p @ ''/cached.itz''))), s1)"
    using database_get_open [OF ok, of "pcl_start mem_env mem_start" "''/cached.itz''" ?p]
    by (simp add: db_open_def pcl_start_def db_file_suffix_def mem_env_def DbPathMaxLen_def)
  have "database_get mem_env local_80 ''/Data/mnt-c/app'' 0 s1
      = Some (int (length (snprintf 256 (?p @ ''/cached.itz''))), s1)"
    by (rule database_get_slots [OF ok g]) (use slots_meet in simp_all)
  with g show ?thesis by blast
qed

text \<open>C28: a key that the database does not hold is taken from the configurable defaults, and only when
  those have no value either from the factory defaults; the defaults are looked up under the resource
  id, not under the database key. If no database holds a value the result is \<open>EPERS_NOKEY\<close> and the
  buffer keeps its contents.\<close>

theorem read_falls_back_to_defaults:
  assumes "kv_lawful E D R" and "is_db_storage E info" and "slot_ok info" and "type_ok E (policy (configKey info))"
    and "\<forall>t \<in> {policy (configKey info), PersistenceDB_confdefault E, PersistenceDB_default E}.
           db_open info t s \<and> 0 \<le> db_handle info t s"
    and "\<forall>t k d. D (world s) (db_handle info t s) k = Some d \<longrightarrow> int (length d) \<le> n"
  shows "persistence_get_data E dbPath key rid info buf n s = Some
     ((case D (world s) (db_handle info (policy (configKey info)) s) key of
         Some d \<Rightarrow> (int (length d), d @ drop (length d) buf)
       | None \<Rightarrow> case D (world s) (db_handle info (PersistenceDB_confdefault E) s) rid of
         Some d \<Rightarrow> (int (length d), d @ drop (length d) buf)
       | None \<Rightarrow> case D (world s) (db_handle info (PersistenceDB_default E) s) rid of
         Some d \<Rightarrow> (int (length d), d @ drop (length d) buf)
       | None \<Rightarrow> (EPERS_NOKEY, buf)), s)"
proof -
  have c: "consts_ok E" using assms(1) by (simp add: kv_lawful_def)
  have neg: "PERS_COM_ERR_NOT_FOUND E < 0" using c by (simp add: consts_ok_def)
  have t: "type_ok E (PersistenceDB_confdefault E)" "type_ok E (PersistenceDB_default E)"
    using policy_bounds [OF c] by (simp_all add: type_ok_def)
  have read: "persComDbReadKey E (db_handle info ty s) k buf n (world s) =
     ((case D (world s) (db_handle info ty s) k of None \<Rightarrow> (PERS_COM_ERR_NOT_FOUND E, buf)
       | Some d \<Rightarrow> (int (length d), d @ drop (length d) buf)), world s)" for ty k
  proof -
    let ?r = "persComDbReadKey E (db_handle info ty s) k buf n (world s)"
    have law: "db_read_law E D" using assms(1) by (simp add: kv_lawful_def)
    have "fst ?r = (case D (world s) (db_handle info ty s) k of None \<Rightarrow> (PERS_COM_ERR_NOT_FOUND E, buf)
       | Some d \<Rightarrow> (int (length d), d @ drop (length d) buf))"
      using assms(6) law [unfolded db_read_law_def] by (simp split: option.split)
    moreover have "snd ?r = world s" using law by (simp add: db_read_law_def)
    ultimately show ?thesis by (simp add: prod_eq_iff)
  qed
  let ?h0 = "db_handle info (policy (configKey info)) s"
  let ?h1 = "db_handle info (PersistenceDB_confdefault E) s"
  let ?h2 = "db_handle info (PersistenceDB_default E) s"
  have get: "database_get E info p (policy (configKey info)) s = Some (?h0, s)"
      "database_get E info p (PersistenceDB_confdefault E) s = Some (?h1, s)"
      "database_get E info p (PersistenceDB_default E) s = Some (?h2, s)" for p
    using assms(3-5) t by (simp_all add: database_get_cached)
  have pos: "0 \<le> ?h0" "0 \<le> ?h1" "0 \<le> ?h2" using assms(5) by simp_all
  have w: "s\<lparr>world := world s\<rparr> = s" by simp
  note facts = persistence_get_data_def pers_get_defaults_def get read w pos assms(2) neg Let_def
  show ?thesis
  proof (cases "D (world s) ?h0 key")
    case (Some d)
    then show ?thesis by (simp add: facts)
  next
    case None
    show ?thesis
    proof (cases "D (world s) ?h1 rid")
      case (Some d)
      with None show ?thesis by (simp add: facts)
    next
      case None': None
      show ?thesis
        using None None' by (cases "D (world s) ?h2 rid") (simp_all add: facts)
    qed
  qed
qed

text \<open>A store in which only the factory defaults hold the resource; all three databases are open.\<close>

definition defaults_world :: mem_world where
  "defaults_world = \<lparr>mem_db = (\<lambda>h. if h = 2 then [''volume'' \<mapsto> [5, 6]] else (\<lambda>_. None)), mem_rct = (\<lambda>_. None)\<rparr>"

definition defaults_state :: "mem_world pcl" where
  "defaults_state = (pcl_start mem_env defaults_world)
     \<lparr>gHandlesDB := (\<lambda>i t. if t = 4 then 2 else 1), gHandlesDBCreated := (\<lambda>i t. 1)\<rparr>"

theorem read_falls_back_to_defaults_witness:
  "persistence_get_data mem_env ''/Data/mnt-c/app'' ''/node/volume'' ''volume'' local_80 [0, 0, 0] 3 defaults_state
     = Some ((2, [5, 6, 0]), defaults_state)"
proof -
  have t: "PersistenceDB_confdefault mem_env = 3" "PersistenceDB_default mem_env = 4"
    by (simp_all add: mem_env_def PersistenceDB_confdefault_def PersistenceDB_default_def)
  have i: "is_db_storage mem_env local_80" "slot_ok local_80" "type_ok mem_env (policy (configKey local_80))"
    by (simp_all add: is_db_storage_def local_80_def mem_env_def mem_config_def slot_ok_def db_slot_def c_const
        type_ok_def PersistenceDB_LastEntry_def)
  have p: "policy (configKey local_80) = 0" by (simp add: local_80_def mem_config_def)
  have h: "db_handle local_80 0 defaults_state = 1" "db_handle local_80 3 defaults_state = 1"
      "db_handle local_80 4 defaults_state = 2" "db_open local_80 ty defaults_state" for ty
    by (simp_all add: db_handle_def db_open_def defaults_state_def)
  have d: "mem_db (world defaults_state) = (\<lambda>h. if h = 2 then [''volume'' \<mapsto> [5, 6]] else (\<lambda>_. None))"
    by (simp add: defaults_state_def pcl_start_def defaults_world_def)
  show ?thesis
    by (rule trans [OF read_falls_back_to_defaults [OF mem_env_lawful i]])
       (auto simp: t p h d split: if_splits)
qed

end
