(* ===== verification/Pas_Interface.thy ===== *)
theory Pas_Interface
  imports Pcl_State
begin

text \<open>
  The interface to the persistence administration service
  (\<open>src/persistence_client_library_pas_interface.[ch]\<close>): the counter that locks the access to the data,
  the requests of the service, the D-Bus handlers around them, and the registration.
\<close>

section \<open>The access lock\<close>

definition pers_lock_access :: "'w pcl \<Rightarrow> 'w pcl" where
  "pers_lock_access s = s\<lparr>gLockAccess := gLockAccess s + 1\<rparr>"

definition pers_unlock_access :: "'w pcl \<Rightarrow> 'w pcl" where
  "pers_unlock_access s = s\<lparr>gLockAccess := gLockAccess s - 1\<rparr>"

definition isAccessLocked :: "'w pcl \<Rightarrow> int" where
  "isAccessLocked s = gLockAccess s"

text \<open>The test that every guarded operation makes: \<open>AccessNoLock != isAccessLocked()\<close>.\<close>

definition access_permitted :: "'w pcl \<Rightarrow> bool" where
  "access_permitted s \<longleftrightarrow> AccessNoLock \<noteq> isAccessLocked s"

section \<open>Requests\<close>

definition check_pas_request :: "u32 \<Rightarrow> u32 \<Rightarrow> 'w pcl \<Rightarrow> int \<times> 'w pcl" where
  "check_pas_request request requestID s =
     (if request = word_of_int PasMsg_Block OR word_of_int PasMsg_WriteBack then
        let (r, s) = deliverToMainloop_NM \<lparr>cmd = CMD_PAS_BLOCK_AND_WRITE_BACK,
              params = [request, requestID], mstring = []\<rparr> s
        in if r = - 1 then (PasErrorStatus_FAIL, s) else (PasErrorStatus_RespPend, s)
      else if request = word_of_int PasMsg_Unblock then (PasErrorStatus_OK, pers_unlock_access s)
      else (PasErrorStatus_FAIL, s))"

definition msg_persAdminRequest :: "dbus_msg \<Rightarrow> 'w pcl \<Rightarrow> DBusHandlerResult \<times> 'w pcl" where
  "msg_persAdminRequest m s =
     (case dm_args m of
        DBUS_INT32 request # DBUS_INT32 requestID # _ \<Rightarrow>
          let (errorReturn, s) = check_pas_request (word_of_int request) (word_of_int requestID) s
          in (DBUS_HANDLER_RESULT_HANDLED, dbus_send (Reply_return errorReturn) s)
      | _ \<Rightarrow> (DBUS_HANDLER_RESULT_NOT_YET_HANDLED, dbus_send Reply_error s))"

definition signal_persModeChange :: "dbus_msg \<Rightarrow> 'w pcl \<Rightarrow> DBusHandlerResult \<times> 'w pcl" where
  "signal_persModeChange m s =
     (case dm_args m of
        DBUS_INT32 persistenceMode # _ \<Rightarrow> (DBUS_HANDLER_RESULT_HANDLED, dbus_send (Reply_return 0) s)
      | _ \<Rightarrow> (DBUS_HANDLER_RESULT_NOT_YET_HANDLED, dbus_send Reply_error s))"

definition gDbusPersAdminConsInterface :: string where
  "gDbusPersAdminConsInterface = ''org.genivi.persistence.adminconsumer''"

definition gDbusPersAdminConsMsg :: string where
  "gDbusPersAdminConsMsg = ''PersistenceAdminRequest''"

definition checkPersAdminMsg :: "dbus_msg \<Rightarrow> 'w pcl \<Rightarrow> DBusHandlerResult \<times> 'w pcl" where
  "checkPersAdminMsg m s =
     (if dm_interface m = gDbusPersAdminConsInterface \<and> dm_member m = gDbusPersAdminConsMsg
      then msg_persAdminRequest m s
      else (DBUS_HANDLER_RESULT_NOT_YET_HANDLED, s))"

section \<open>Registration\<close>

text \<open>After the command has been handed over, the functions block until the reply of the service has been
  stored by \<open>msg_pending_func\<close>: \<open>reply\<close> is the value stored.\<close>

definition pas_registration :: "u32 \<Rightarrow> int \<Rightarrow> 'w pcl \<Rightarrow> int \<times> 'w pcl" where
  "pas_registration regType reply s =
     (let (r, s) = deliverToMainloop \<lparr>cmd = CMD_SEND_PAS_REGISTER,
            params = [regType, word_of_int PasMsg_Block OR word_of_int PasMsg_WriteBack OR word_of_int PasMsg_Unblock],
            mstring = []\<rparr> s
      in if r = - 1 then (- 1, s) else (reply, s\<lparr>gDbusPendingRvalue := reply\<rparr>))"

definition register_pers_admin_service :: "int \<Rightarrow> 'w pcl \<Rightarrow> int \<times> 'w pcl" where
  "register_pers_admin_service reply s = pas_registration 1 reply s"

definition unregister_pers_admin_service :: "int \<Rightarrow> 'w pcl \<Rightarrow> int \<times> 'w pcl" where
  "unregister_pers_admin_service reply s = pas_registration 0 reply s"

section \<open>Properties\<close>

datatype lock_op = Lock | Unlock

fun lock_run :: "lock_op list \<Rightarrow> 'w pcl \<Rightarrow> 'w pcl" where
  "lock_run [] s = s"
| "lock_run (Lock # ops) s = lock_run ops (pers_lock_access s)"
| "lock_run (Unlock # ops) s = lock_run ops (pers_unlock_access s)"

lemma gLockAccess_run:
  "gLockAccess (lock_run ops s) = gLockAccess s + int (count_list ops Lock) - int (count_list ops Unlock)"
  by (induction ops s rule: lock_run.induct) (auto simp: pers_lock_access_def pers_unlock_access_def)

text \<open>The lock is a counter and access is refused at exactly one of its values: after \<open>n\<close> locks and \<open>m\<close>
  unlocks in any order, access is refused iff \<open>n - m\<close> and the start value add up to 1. So a lock on top of
  a lock lets every operation through again, and an unlock without a lock makes the next lock void.\<close>

theorem access_lock_counter:
  "access_permitted (lock_run ops s) \<longleftrightarrow>
     gLockAccess s + int (count_list ops Lock) - int (count_list ops Unlock) \<noteq> 1"
  by (auto simp: access_permitted_def isAccessLocked_def gLockAccess_run)

text \<open>The service gets a pending answer, with its request in the pipe, only for block-and-write-back;
  unblocking decrements the lock counter at once; every other request is refused and changes nothing.
  Each well-formed request is answered with exactly that status.\<close>

theorem pas_request_behaviour:
  "(let (r, s') = check_pas_request req rid s in
     (req = 0x11 \<longrightarrow> pipe_rc s \<noteq> - 1 \<longrightarrow> r = PasErrorStatus_RespPend \<and>
        s' = s\<lparr>pipe := pipe s @ [\<lparr>cmd = CMD_PAS_BLOCK_AND_WRITE_BACK, params = [req, rid], mstring = []\<rparr>]\<rparr>) \<and>
     (req = 0x11 \<longrightarrow> pipe_rc s = - 1 \<longrightarrow> r = PasErrorStatus_FAIL \<and> s' = s) \<and>
     (req = 2 \<longrightarrow> r = PasErrorStatus_OK \<and> s' = pers_unlock_access s) \<and>
     (req \<noteq> 0x11 \<longrightarrow> req \<noteq> 2 \<longrightarrow> r = PasErrorStatus_FAIL \<and> s' = s)) \<and>
   (dm_args m = [DBUS_INT32 a, DBUS_INT32 b] \<longrightarrow>
      msg_persAdminRequest m s =
        (DBUS_HANDLER_RESULT_HANDLED,
         dbus_send (Reply_return (fst (check_pas_request (word_of_int a) (word_of_int b) s)))
           (snd (check_pas_request (word_of_int a) (word_of_int b) s))))"
  by (auto simp: check_pas_request_def deliverToMainloop_NM_def msg_persAdminRequest_def
      wire_string_size_def split: prod.splits)

theorem pas_request_behaviour_witness:
  "fst (check_pas_request 2 9 (pcl_start mem_env mem_start)) = PasErrorStatus_OK \<and>
   gLockAccess (snd (check_pas_request 2 9 (pcl_start mem_env mem_start))) = - 1"
  using pas_request_behaviour [of 2 9 "pcl_start mem_env mem_start" undefined 0 0]
  by (simp add: pers_unlock_access_def pcl_start_def split: prod.splits)

end
