(* ===== verification/Key.thy ===== *)
theory Key
  imports Crc32 Db_Access Pas_Interface
begin

text \<open>
  The key-value API (\<open>src/persistence_client_library_key.c\<close>): the operations on a resource named by
  logical database id, resource id, user and seat, and the same operations through a handle.

  \<open>dbContext\<close> is an uninitialised local variable of each function: \<open>junk\<close> is its content.
\<close>

section \<open>Operations on a resource\<close>

definition initialized :: "'w pcl \<Rightarrow> bool" where
  "initialized s \<longleftrightarrow> gPclInitialized s \<ge> word_of_int PCLinitialized"

text \<open>The call of \<open>get_db_context\<close> that they share: empty buffers, not a file.\<close>

definition key_context ::
  "('w, 'e) perscom_scheme \<Rightarrow> config_key \<Rightarrow> u32 \<Rightarrow> string \<Rightarrow> u32 \<Rightarrow> u32 \<Rightarrow> 'w pcl
     \<Rightarrow> ((int \<times> persistence_info \<times> string \<times> string) \<times> 'w pcl) option" where
  "key_context E junk lid rid user seat s =
     get_db_context E \<lparr>context_of = \<lparr>ldbid = lid, user_no = user, seat_no = seat\<rparr>, configKey = junk\<rparr>
       rid ResIsNoFile [] [] s"

definition is_key :: "'c pers_consts_scheme \<Rightarrow> persistence_info \<Rightarrow> bool" where
  "is_key c info \<longleftrightarrow> rtype (configKey info) = PersistenceResourceType_key c"

definition storage_valid :: "'c pers_consts_scheme \<Rightarrow> persistence_info \<Rightarrow> bool" where
  "storage_valid c info \<longleftrightarrow> storage (configKey info) < PersistenceStorage_LastEntry c"

definition pclKeyDelete ::
  "('w, 'e) perscom_scheme \<Rightarrow> config_key \<Rightarrow> u32 \<Rightarrow> string \<Rightarrow> u32 \<Rightarrow> u32 \<Rightarrow> 'w pcl \<Rightarrow> (int \<times> 'w pcl) option" where
  "pclKeyDelete E junk lid rid user seat s =
     (if initialized s then
        if access_permitted s then do {
          ((rval, info, dbKey, dbPath), s) \<leftarrow> key_context E junk lid rid user seat s;
          if rval \<ge> 0 \<and> is_key E info then
            if storage_valid E info then persistence_delete_data E dbPath dbKey rid info s
            else Some (EPERS_BADPOL, s)
          else Some (rval, s)
        }
        else Some (EPERS_LOCKFS, s)
      else Some (EPERS_NOT_INITIALIZED, s))"

definition pclKeyGetSize ::
  "('w, 'e) perscom_scheme \<Rightarrow> config_key \<Rightarrow> u32 \<Rightarrow> string \<Rightarrow> u32 \<Rightarrow> u32 \<Rightarrow> 'w pcl \<Rightarrow> (int \<times> 'w pcl) option" where
  "pclKeyGetSize E junk lid rid user seat s =
     (if initialized s then do {
        ((data_size, info, dbKey, dbPath), s) \<leftarrow> key_context E junk lid rid user seat s;
        if data_size \<ge> 0 \<and> is_key E info then
          if storage_valid E info then persistence_get_data_size E dbPath dbKey rid info s
          else Some (EPERS_BADPOL, s)
        else Some (EPERS_BADPOL, s)
      }
      else Some (EPERS_NOT_INITIALIZED, s))"

definition pclKeyReadData ::
  "('w, 'e) perscom_scheme \<Rightarrow> config_key \<Rightarrow> u32 \<Rightarrow> string \<Rightarrow> u32 \<Rightarrow> u32 \<Rightarrow> u8 list \<Rightarrow> int \<Rightarrow> 'w pcl
     \<Rightarrow> ((int \<times> u8 list) \<times> 'w pcl) option" where
  "pclKeyReadData E junk lid rid user seat buffer buffer_size s =
     (if initialized s then
        if access_permitted s then do {
          ((data_size, info, dbKey, dbPath), s) \<leftarrow> key_context E junk lid rid user seat s;
          if data_size \<ge> 0 \<and> is_key E info then
            if storage_valid E info then persistence_get_data E dbPath dbKey rid info buffer buffer_size s
            else Some ((EPERS_BADPOL, buffer), s)
          else Some ((data_size, buffer), s)
        }
        else Some ((EPERS_LOCKFS, buffer), s)
      else Some ((EPERS_NOT_INITIALIZED, buffer), s))"

text \<open>The checksum of the data is computed and not used; computing it still reads \<open>buffer_size\<close> bytes,
  converted to \<open>size_t\<close>.\<close>

definition size_of_int :: "int \<Rightarrow> nat" where
  "size_of_int n = nat (n mod 2 ^ 64)"

definition pclKeyWriteData ::
  "('w, 'e) perscom_scheme \<Rightarrow> config_key \<Rightarrow> u32 \<Rightarrow> string \<Rightarrow> u32 \<Rightarrow> u32 \<Rightarrow> u8 list \<Rightarrow> int \<Rightarrow> 'w pcl
     \<Rightarrow> (int \<times> 'w pcl) option" where
  "pclKeyWriteData E junk lid rid user seat buffer buffer_size s =
     (if initialized s then
        if access_permitted s then
          if buffer_size \<le> gMaxKeyValDataSize s then do {
            ((data_size, info, dbKey, dbPath), s) \<leftarrow> key_context E junk lid rid user seat s;
            if data_size \<ge> 0 \<and> is_key E info then
              if permission (configKey info) \<noteq> PersistencePermission_ReadOnly E then do {
                hash_val_data \<leftarrow> pclCrc32 0 (Some buffer) (size_of_int buffer_size);
                if storage_valid E info then
                  persistence_set_data E dbPath dbKey rid info buffer buffer_size s
                else Some (EPERS_BADPOL, s)
              }
              else Some (EPERS_RESOURCE_READ_ONLY, s)
            else Some (data_size, s)
          }
          else Some (EPERS_BUFLIMIT, s)
        else Some (EPERS_LOCKFS, s)
      else Some (EPERS_NOT_INITIALIZED, s))"

definition regNotifyOnChange ::
  "('w, 'e) perscom_scheme \<Rightarrow> config_key \<Rightarrow> u32 \<Rightarrow> string \<Rightarrow> u32 \<Rightarrow> u32 \<Rightarrow> fn_ptr \<Rightarrow> PersNotifyRegPolicy_e \<Rightarrow> 'w pcl
     \<Rightarrow> (int \<times> 'w pcl) option" where
  "regNotifyOnChange E junk lid rid user seat callback regPolicy s =
     (if initialized s then do {
        ((rval, info, dbKey, dbPath), s) \<leftarrow> key_context E junk lid rid user seat s;
        if rval = 0 then
          if storage (configKey info) \<noteq> PersistenceStorage_local E \<and> is_key E info then
            Some (persistence_notify_on_change E rid lid user seat callback regPolicy s)
          else Some (EPERS_NOTIFY_NOT_ALLOWED, s)
        else Some (rval, s)
      }
      else Some (EPERS_NOT_INITIALIZED, s))"

definition callback_allowed :: "fn_ptr \<Rightarrow> 'w pcl \<Rightarrow> bool" where
  "callback_allowed callback s \<longleftrightarrow> gChangeNotifyCallback s = callback \<or> gChangeNotifyCallback s = None"

definition pclKeyRegisterNotifyOnChange ::
  "('w, 'e) perscom_scheme \<Rightarrow> config_key \<Rightarrow> u32 \<Rightarrow> string \<Rightarrow> u32 \<Rightarrow> u32 \<Rightarrow> fn_ptr \<Rightarrow> 'w pcl
     \<Rightarrow> (int \<times> 'w pcl) option" where
  "pclKeyRegisterNotifyOnChange E junk lid rid user seat callback s =
     (if callback_allowed callback s then regNotifyOnChange E junk lid rid user seat callback Notify_register s
      else Some (EPERS_NOTIFY_NOT_ALLOWED, s))"

definition pclKeyUnRegisterNotifyOnChange ::
  "('w, 'e) perscom_scheme \<Rightarrow> config_key \<Rightarrow> u32 \<Rightarrow> string \<Rightarrow> u32 \<Rightarrow> u32 \<Rightarrow> fn_ptr \<Rightarrow> 'w pcl
     \<Rightarrow> (int \<times> 'w pcl) option" where
  "pclKeyUnRegisterNotifyOnChange E junk lid rid user seat callback s =
     regNotifyOnChange E junk lid rid user seat callback Notify_unregister s"

lemma size_of_negative:
  assumes "n < 0" and "- (2 ^ 63) \<le> n"
  shows "size_of_int n = nat (n + 2 ^ 64)"
proof -
  have "n mod 2 ^ 64 = (n + 2 ^ 64) mod 2 ^ 64" by simp
  also have "\<dots> = n + 2 ^ 64" using assms by (intro mod_pos_pos_trivial) simp_all
  finally show ?thesis by (simp only: size_of_int_def)
qed

section \<open>Operations through a handle\<close>

definition pclKeyHandleOpen ::
  "('w, 'e) perscom_scheme \<Rightarrow> config_key \<Rightarrow> u32 \<Rightarrow> string \<Rightarrow> u32 \<Rightarrow> u32 \<Rightarrow> 'w pcl \<Rightarrow> (int \<times> 'w pcl) option" where
  "pclKeyHandleOpen E junk lid rid user seat s =
     (if initialized s then do {
        ((rval, info, dbKey, dbPath), s) \<leftarrow> key_context E junk lid rid user seat s;
        if rval \<ge> 0 \<and> is_key E info then
          if storage_valid E info then do {
            (idx, h) \<leftarrow> get_persistence_handle_idx (hnd s);
            (handle, h) \<leftarrow> set_key_handle_data E idx rid lid user seat h;
            Some (handle, s\<lparr>hnd := h\<rparr>)
          }
          else Some (EPERS_BADPOL, s)
        else Some (EPERS_NOT_INITIALIZED, s)
      }
      else Some (EPERS_NOT_INITIALIZED, s))"

definition pclKeyHandleClose :: "int \<Rightarrow> 'w pcl \<Rightarrow> (int \<times> 'w pcl) option" where
  "pclKeyHandleClose key_handle s =
     (if initialized s then do {
        (r, persHandle) \<leftarrow> get_key_handle_data key_handle key_handle_zero (hnd s);
        if r \<noteq> - 1 then
          if resource_id persHandle \<noteq> [] then do {
            h \<leftarrow> set_persistence_handle_close_idx key_handle (hnd s);
            h \<leftarrow> clear_key_handle_array key_handle h;
            Some (1, s\<lparr>hnd := h\<rparr>)
          }
          else Some (EPERS_INVALID_HANDLE, s)
        else Some (EPERS_MAXHANDLE, s)
      }
      else Some (EPERS_NOT_INITIALIZED, s))"

text \<open>What every other handle operation does first: \<open>bad r\<close> is its result for an error code, \<open>op\<close> the
  operation on the resource of the handle.\<close>

definition with_key_handle ::
  "int \<Rightarrow> (int \<Rightarrow> 'r) \<Rightarrow> (key_handle \<Rightarrow> 'w pcl \<Rightarrow> ('r \<times> 'w pcl) option) \<Rightarrow> 'w pcl \<Rightarrow> ('r \<times> 'w pcl) option" where
  "with_key_handle key_handle bad op s =
     (if initialized s then do {
        (r, persHandle) \<leftarrow> get_key_handle_data key_handle key_handle_zero (hnd s);
        if r \<noteq> - 1 then
          if resource_id persHandle \<noteq> [] then op persHandle s
          else Some (bad EPERS_INVALID_HANDLE, s)
        else Some (bad EPERS_MAXHANDLE, s)
      }
      else Some (bad EPERS_NOT_INITIALIZED, s))"

definition pclKeyHandleGetSize ::
  "('w, 'e) perscom_scheme \<Rightarrow> config_key \<Rightarrow> int \<Rightarrow> 'w pcl \<Rightarrow> (int \<times> 'w pcl) option" where
  "pclKeyHandleGetSize E junk key_handle =
     with_key_handle key_handle (\<lambda>e. e)
       (\<lambda>k. pclKeyGetSize E junk (kh_ldbid k) (resource_id k) (kh_user_no k) (kh_seat_no k))"

definition pclKeyHandleReadData ::
  "('w, 'e) perscom_scheme \<Rightarrow> config_key \<Rightarrow> int \<Rightarrow> u8 list \<Rightarrow> int \<Rightarrow> 'w pcl \<Rightarrow> ((int \<times> u8 list) \<times> 'w pcl) option" where
  "pclKeyHandleReadData E junk key_handle buffer buffer_size =
     with_key_handle key_handle (\<lambda>e. (e, buffer))
       (\<lambda>k. pclKeyReadData E junk (kh_ldbid k) (resource_id k) (kh_user_no k) (kh_seat_no k) buffer buffer_size)"

definition pclKeyHandleWriteData ::
  "('w, 'e) perscom_scheme \<Rightarrow> config_key \<Rightarrow> int \<Rightarrow> u8 list \<Rightarrow> int \<Rightarrow> 'w pcl \<Rightarrow> (int \<times> 'w pcl) option" where
  "pclKeyHandleWriteData E junk key_handle buffer buffer_size =
     with_key_handle key_handle (\<lambda>e. e)
       (\<lambda>k. pclKeyWriteData E junk (kh_ldbid k) (resource_id k) (kh_user_no k) (kh_seat_no k) buffer buffer_size)"

definition handleRegNotifyOnChange ::
  "('w, 'e) perscom_scheme \<Rightarrow> config_key \<Rightarrow> int \<Rightarrow> fn_ptr \<Rightarrow> PersNotifyRegPolicy_e \<Rightarrow> 'w pcl \<Rightarrow> (int \<times> 'w pcl) option" where
  "handleRegNotifyOnChange E junk key_handle callback regPolicy =
     with_key_handle key_handle (\<lambda>e. e)
       (\<lambda>k. regNotifyOnChange E junk (kh_ldbid k) (resource_id k) (kh_user_no k) (kh_seat_no k) callback regPolicy)"

definition pclKeyHandleRegisterNotifyOnChange ::
  "('w, 'e) perscom_scheme \<Rightarrow> config_key \<Rightarrow> int \<Rightarrow> fn_ptr \<Rightarrow> 'w pcl \<Rightarrow> (int \<times> 'w pcl) option" where
  "pclKeyHandleRegisterNotifyOnChange E junk key_handle callback s =
     (if callback_allowed callback s then handleRegNotifyOnChange E junk key_handle callback Notify_register s
      else Some (EPERS_NOTIFY_NOT_ALLOWED, s))"

definition pclKeyHandleUnRegisterNotifyOnChange ::
  "('w, 'e) perscom_scheme \<Rightarrow> config_key \<Rightarrow> int \<Rightarrow> fn_ptr \<Rightarrow> 'w pcl \<Rightarrow> (int \<times> 'w pcl) option" where
  "pclKeyHandleUnRegisterNotifyOnChange E junk key_handle callback =
     handleRegNotifyOnChange E junk key_handle callback Notify_unregister"

section \<open>A resource that can be accessed\<close>

definition key_info :: "u32 \<Rightarrow> u32 \<Rightarrow> u32 \<Rightarrow> config_key \<Rightarrow> persistence_info" where
  "key_info lid user seat ck = \<lparr>context_of = \<lparr>ldbid = lid, user_no = user, seat_no = seat\<rparr>, configKey = ck\<rparr>"

lemma key_info_sel [simp]:
  "ldbid (context_of (key_info lid user seat ck)) = lid"
  "user_no (context_of (key_info lid user seat ck)) = user"
  "seat_no (context_of (key_info lid user seat ck)) = seat"
  "configKey (key_info lid user seat ck) = ck"
  by (simp_all add: key_info_def)

text \<open>The open configuration table lists the resource as a key of a database, with a policy and a slot
  inside the tables.\<close>

definition key_ready ::
  "('w, 'e) perscom_scheme \<Rightarrow> 'w rct_view \<Rightarrow> u32 \<Rightarrow> string \<Rightarrow> u32 \<Rightarrow> u32 \<Rightarrow> config_key \<Rightarrow> 'w pcl \<Rightarrow> bool" where
  "key_ready E R lid rid user seat ck s \<longleftrightarrow>
     lid < 0x80000000 \<and> found_entry R lid rid s = Some ck \<and>
     is_key E (key_info lid user seat ck) \<and> is_db_storage E (key_info lid user seat ck) \<and>
     slot_ok (key_info lid user seat ck) \<and> type_ok E (policy ck)"

text \<open>Where the resource is stored: the handle of its database, and its key.\<close>

definition key_handle_of :: "u32 \<Rightarrow> u32 \<Rightarrow> u32 \<Rightarrow> config_key \<Rightarrow> 'w pcl \<Rightarrow> int" where
  "key_handle_of lid user seat ck s = db_handle (key_info lid user seat ck) (policy ck) s"

definition key_text :: "'c pers_consts_scheme \<Rightarrow> u32 \<Rightarrow> string \<Rightarrow> u32 \<Rightarrow> u32 \<Rightarrow> string" where
  "key_text c lid rid user seat =
     snprintf (DbKeyMaxLen c) (db_key_text c \<lparr>ldbid = lid, user_no = user, seat_no = seat\<rparr> rid)"

text \<open>Its database is open and holds \<open>d\<close> for it.\<close>

definition key_stored ::
  "('w, 'e) perscom_scheme \<Rightarrow> 'w db_view \<Rightarrow> u32 \<Rightarrow> string \<Rightarrow> u32 \<Rightarrow> u32 \<Rightarrow> config_key \<Rightarrow> u8 list \<Rightarrow> 'w pcl \<Rightarrow> bool" where
  "key_stored E D lid rid user seat ck d s \<longleftrightarrow>
     db_open (key_info lid user seat ck) (policy ck) s \<and> 0 \<le> key_handle_of lid user seat ck s \<and>
     D (world s) (key_handle_of lid user seat ck s) (key_text E lid rid user seat) = Some d"

lemma key_context_ready:
  assumes "kv_lawful E D R" and "key_ready E R lid rid user seat ck s"
  shows "\<exists>p. key_context E junk lid rid user seat s =
     Some ((0, key_info lid user seat ck, key_text E lid rid user seat, p), s)"
proof -
  have l: "rct_law E R" "consts_ok E" using assms(1) by (simp_all add: kv_lawful_def)
  let ?i = "\<lparr>context_of = \<lparr>ldbid = lid, user_no = user, seat_no = seat\<rparr>, configKey = junk\<rparr>"
  have "storage ck \<noteq> PersistenceStorage_custom E"
    using assms(2) l(2) by (auto simp: key_ready_def is_db_storage_def consts_ok_def)
  then show ?thesis
    using get_db_context_found [OF l(1), of ?i rid s ck ResIsNoFile "[]" "[]"] assms(2) l(2)
    by (simp add: key_ready_def key_context_def key_text_def key_for_def key_info_def consts_ok_def Let_def)
qed

lemma key_ready_keeps:
  assumes "key_ready E R lid rid user seat ck s" and "R (world s') = R (world s)"
    and "gResource_table s' = gResource_table s" and "gResourceOpen s' = gResourceOpen s"
  shows "key_ready E R lid rid user seat ck s'"
  using assms by (auto simp: key_ready_def found_entry_def split: if_splits)

section \<open>Storing in a database\<close>

lemma send_notification:
  "reason < 4 \<Longrightarrow> fst (pers_send_Notification_Signal c key ctx reason s) = 1"
  "world (snd (pers_send_Notification_Signal c key ctx reason s)) = world s"
  "gHandlesDB (snd (pers_send_Notification_Signal c key ctx reason s)) = gHandlesDB s"
  "gHandlesDBCreated (snd (pers_send_Notification_Signal c key ctx reason s)) = gHandlesDBCreated s"
  "gResource_table (snd (pers_send_Notification_Signal c key ctx reason s)) = gResource_table s"
  "gResourceOpen (snd (pers_send_Notification_Signal c key ctx reason s)) = gResourceOpen s"
  "gPclInitialized (snd (pers_send_Notification_Signal c key ctx reason s)) = gPclInitialized s"
  "gLockAccess (snd (pers_send_Notification_Signal c key ctx reason s)) = gLockAccess s"
  by (auto simp: pers_send_Notification_Signal_def deliver_eq deliverToMainloop_NM_def)

text \<open>What a write leaves as it was: tables, locks, the configuration, and all other keys.\<close>

definition same_control :: "'w pcl \<Rightarrow> 'w pcl \<Rightarrow> bool" where
  "same_control s s' \<longleftrightarrow> gResource_table s' = gResource_table s \<and> gResourceOpen s' = gResourceOpen s \<and>
     gPclInitialized s' = gPclInitialized s \<and> gLockAccess s' = gLockAccess s"

lemma same_control_trans: "same_control a b \<Longrightarrow> same_control b c \<Longrightarrow> same_control a c"
  by (simp add: same_control_def)

lemma database_get_same:
  assumes "database_get E info p t s = Some (h, s')" and "open_law E D R"
  shows "same_control s s' \<and> D (world s') = D (world s) \<and> R (world s') = R (world s)"
proof -
  have "s' = s\<lparr>world := world s', gHandlesDB := gHandlesDB s', gHandlesDBCreated := gHandlesDBCreated s'\<rparr>"
    using database_get_frame [OF assms(2,1)] by blast
  then have "same_control s s'" unfolding same_control_def by (metis pcl.select_convs pcl.surjective pcl.update_convs)
  then show ?thesis using database_get_frame [OF assms(2,1)] by blast
qed

lemma set_data_result:
  assumes law: "kv_lawful E D R" and "is_db_storage E info" and "slot_ok info" and "type_ok E (policy (configKey info))"
    and "0 \<le> n" and "nat n \<le> length data"
    and w: "persistence_set_data E p key rid info data n s = Some (r, s')"
  shows "same_control s s'" and "R (world s') = R (world s)" and "keeps_open s s'"
    and "\<forall>h k. k \<noteq> key \<longrightarrow> D (world s') h k = D (world s) h k"
    and "0 \<le> r \<longrightarrow> r = n \<and> db_open info (policy (configKey info)) s' \<and>
           0 \<le> db_handle info (policy (configKey info)) s' \<and>
           D (world s') (db_handle info (policy (configKey info)) s') key = Some (take (nat n) data)"
proof -
  let ?t = "policy (configKey info)"
  obtain h s1 where g: "database_get E info p ?t s = Some (h, s1)"
    using w assms(2) by (auto simp: persistence_set_data_def split: Option.bind_splits)
  have ol: "open_law E D R" and wl: "db_write_law E D R" using law by (simp_all add: kv_lawful_def)
  note same = database_get_same [OF g ol]
  note ko = database_get_keeps_open [OF g]
  have res: "same_control s s' \<and> R (world s') = R (world s) \<and> keeps_open s s' \<and>
      (\<forall>h k. k \<noteq> key \<longrightarrow> D (world s') h k = D (world s) h k) \<and>
      (0 \<le> r \<longrightarrow> r = n \<and> db_open info ?t s' \<and> 0 \<le> db_handle info ?t s' \<and>
        D (world s') (db_handle info ?t s') key = Some (take (nat n) data))"
  proof (cases "0 \<le> h")
    case False
    then have "s' = s1 \<and> r < 0" using w g assms(2) by (simp add: persistence_set_data_def)
    with same ko show ?thesis by auto
  next
    case True
    have o: "db_open info ?t s1" "db_handle info ?t s1 = h"
      using database_get_result [OF assms(3,4) g True] by auto
    obtain r1 w1 where wr: "persComDbWriteKey E h key data n (world s1) = (r1, w1)" by fastforce
    have d: "R w1 = R (world s1)" "0 \<le> r1 \<longrightarrow> r1 = n \<and> D w1 h key = Some (take (nat n) data)"
        "\<forall>h' k'. (h', k') \<noteq> (h, key) \<longrightarrow> D w1 h' k' = D (world s1) h' k'"
      using wl [unfolded db_write_law_def, rule_format, OF wr assms(5,6)] by auto
    have "r = r1 \<and> world s' = w1 \<and> gHandlesDB s' = gHandlesDB s1 \<and> gHandlesDBCreated s' = gHandlesDBCreated s1 \<and>
        same_control s1 s'"
      using w g True wr assms(2)
      by (auto simp: persistence_set_data_def same_control_def Let_def case_prod_beta send_notification split: if_splits)
    moreover from this have "db_open info ?t s' = db_open info ?t s1" "db_handle info ?t s' = db_handle info ?t s1"
      by (simp_all add: db_open_def db_handle_def)
    ultimately show ?thesis
      using same d o True same_control_trans [of s s1 s'] ko by (auto simp: keeps_open_def)
  qed
  show "same_control s s'" "R (world s') = R (world s)" "keeps_open s s'"
    "\<forall>h k. k \<noteq> key \<longrightarrow> D (world s') h k = D (world s) h k"
    "0 \<le> r \<longrightarrow> r = n \<and> db_open info (policy (configKey info)) s' \<and>
           0 \<le> db_handle info (policy (configKey info)) s' \<and>
           D (world s') (db_handle info (policy (configKey info)) s') key = Some (take (nat n) data)"
    using res by blast+
qed

lemma get_data_stored:
  assumes law: "kv_lawful E D R" and "is_db_storage E info" and "slot_ok info" and "type_ok E (policy (configKey info))"
    and "db_open info (policy (configKey info)) s" and "0 \<le> db_handle info (policy (configKey info)) s"
    and "D (world s) (db_handle info (policy (configKey info)) s) key = Some d" and "int (length d) \<le> m"
  shows "persistence_get_data E p key rid info buf m s = Some ((int (length d), d @ drop (length d) buf), s)"
    and "persistence_get_data_size E p key rid info s = Some (int (length d), s)"
proof -
  let ?t = "policy (configKey info)"
  have "db_read_law E D" "db_size_law E D" using law by (simp_all add: kv_lawful_def)
  then have r: "persComDbReadKey E (db_handle info ?t s) key buf m (world s)
        = ((int (length d), d @ drop (length d) buf), world s)"
      "persComDbGetKeySize E (db_handle info ?t s) key (world s) = (int (length d), world s)"
    using assms(7,8) by (auto simp: db_read_law_def db_size_law_def prod_eq_iff)
  note g = database_get_cached [OF assms(3,4,5)]
  have w: "s\<lparr>world := world s\<rparr> = s" by simp
  show "persistence_get_data E p key rid info buf m s = Some ((int (length d), d @ drop (length d) buf), s)"
    using assms(2,6) by (simp add: persistence_get_data_def g r w Let_def)
  show "persistence_get_data_size E p key rid info s = Some (int (length d), s)"
    using assms(2,6) by (simp add: persistence_get_data_size_def g r w Let_def)
qed

lemma read_stored:
  assumes "kv_lawful E D R" and "initialized s" and "access_permitted s"
    and "key_ready E R lid rid user seat ck s" and "key_stored E D lid rid user seat ck d s" and "int (length d) \<le> m"
  shows "pclKeyReadData E junk lid rid user seat buf m s = Some ((int (length d), d @ drop (length d) buf), s)"
    and "pclKeyGetSize E junk lid rid user seat s = Some (int (length d), s)"
proof -
  obtain p where c: "key_context E junk lid rid user seat s =
     Some ((0, key_info lid user seat ck, key_text E lid rid user seat, p), s)"
    using key_context_ready [OF assms(1,4)] by blast
  have i: "is_key E (key_info lid user seat ck)" "is_db_storage E (key_info lid user seat ck)"
      "slot_ok (key_info lid user seat ck)" "type_ok E (policy ck)"
      "storage_valid E (key_info lid user seat ck)"
    using assms(1,4) by (auto simp: key_ready_def kv_lawful_def consts_ok_def storage_valid_def is_db_storage_def)
  note g = get_data_stored [OF assms(1) i(2,3), simplified, OF i(4), of s "key_text E lid rid user seat" d m]
  show "pclKeyReadData E junk lid rid user seat buf m s = Some ((int (length d), d @ drop (length d) buf), s)"
    "pclKeyGetSize E junk lid rid user seat s = Some (int (length d), s)"
    using assms(2,3,5,6) g i
    by (simp_all add: pclKeyReadData_def pclKeyGetSize_def c key_stored_def key_handle_of_def)
qed

section \<open>A running library\<close>

text \<open>For the witnesses: an initialised library whose configuration tables are open and list the key
  \<open>volume\<close> with a local cached database.\<close>

definition demo_world :: mem_world where
  "demo_world = \<lparr>mem_db = (\<lambda>_ _. None), mem_rct = [''volume'' \<mapsto> mem_config 0 0, ''fixed'' \<mapsto> (mem_config 0 0)\<lparr>permission := 1\<rparr>,
     ''track'' \<mapsto> (mem_config 0 0)\<lparr>rtype := 1\<rparr>]\<rparr>"

definition demo_state :: "mem_world pcl" where
  "demo_state = (pcl_start mem_env demo_world)\<lparr>gPclInitialized := 1, gResource_table := (\<lambda>_. 7),
     gResourceOpen := (\<lambda>_. 1)\<rparr>"

lemma demo_state_sel [simp]:
  "world demo_state = demo_world" "gResource_table demo_state = (\<lambda>_. 7)"
  "gResourceOpen demo_state = (\<lambda>_. 1)" "gMaxKeyValDataSize demo_state = 16384"
  "gHandlesDBCreated demo_state = (\<lambda>_ _. 0)" "hnd demo_state = handle_init"
  by (simp_all add: demo_state_def pcl_start_def)

lemma demo_state_runs: "initialized demo_state" "access_permitted demo_state"
  by (simp_all add: initialized_def access_permitted_def isAccessLocked_def demo_state_def pcl_start_def)

lemma demo_ready:
  assumes "lid \<in> {0xFF, 0x80}"
  shows "key_ready mem_env (\<lambda>w h. mem_rct w) lid ''volume'' user seat (mem_config 0 0) demo_state"
  using assms
  by (auto simp: key_ready_def found_entry_def demo_world_def is_key_def is_db_storage_def
      slot_ok_def db_slot_def key_info_def c_const type_ok_def PersistenceDB_LastEntry_def)

lemma demo_slot:
  "slot_ok (key_info 0xFF u t (mem_config 0 0))" "db_slot (key_info 0xFF u t (mem_config 0 0)) = 255"
  by (simp_all add: slot_ok_def db_slot_def key_info_def mem_config_def c_const)

lemma demo_type: "type_ok mem_env 0"
  by (simp add: type_ok_def PersistenceDB_LastEntry_def mem_env_def)

text \<open>Writing there works.\<close>

lemma demo_write:
  "\<exists>s1. pclKeyWriteData mem_env junk 0xFF ''volume'' u t [1, 2, 3] 3 demo_state = Some (3, s1)"
proof -
  let ?i = "key_info 0xFF u t (mem_config 0 0)"
  obtain p where c: "key_context mem_env junk 0xFF ''volume'' u t demo_state =
     Some ((0, ?i, key_text mem_env 0xFF ''volume'' u t, p), demo_state)"
    using key_context_ready [OF mem_env_lawful demo_ready [of "0xFF"], of junk] by auto
  have "\<not> db_open ?i 0 demo_state" by (simp add: db_open_def)
  then obtain s1 where g: "database_get mem_env ?i p 0 demo_state
      = Some (int (length (snprintf 256 (p @ ''/cached.itz''))), s1)"
    using database_get_open [OF demo_slot(1) demo_type, where s = demo_state and p = p and suffix = "''/cached.itz''"]
    by (simp add: db_file_suffix_def)
  have "pclCrc32 0 (Some [1, 2, 3]) 3 = Some (crc32_bytes 0 [1, 2, 3])"
    using pclCrc32_bytes [of 0 "[1, 2, 3]"] by (simp add: numeral_3_eq_3)
  moreover have "size_of_int 3 = 3" by (simp add: size_of_int_def)
  ultimately show ?thesis
    using g demo_state_runs
    by (simp add: pclKeyWriteData_def c is_key_def storage_valid_def persistence_set_data_def is_db_storage_def
        Let_def)
qed

section \<open>Properties: data\<close>

text \<open>C3: what \<open>pclKeyWriteData\<close> has written, \<open>pclKeyReadData\<close> reads and \<open>pclKeyGetSize\<close> measures: for
  every key listed in an open configuration table and stored in a database, cached or write-through,
  local or shared, when the write reports success it reports the size given, and the next read of the
  resource into a buffer that is large enough returns that size and exactly those bytes, leaving the
  rest of the buffer as it was. The same holds through a handle, which calls these functions.\<close>

theorem key_write_read:
  assumes "kv_lawful E D R" and "key_ready E R lid rid user seat ck s"
    and "0 \<le> n" and "nat n \<le> length data"
    and "pclKeyWriteData E j1 lid rid user seat data n s = Some (r, s1)" and "0 < r"
    and "n \<le> m"
  shows "r = n \<and>
     pclKeyReadData E j2 lid rid user seat buf m s1
       = Some ((n, take (nat n) data @ drop (nat n) buf), s1) \<and>
     pclKeyGetSize E j3 lid rid user seat s1 = Some (n, s1)"
proof -
  let ?i = "key_info lid user seat ck"
  obtain p where c: "key_context E j1 lid rid user seat s =
     Some ((0, ?i, key_text E lid rid user seat, p), s)"
    using key_context_ready [OF assms(1,2)] by blast
  have w: "persistence_set_data E p (key_text E lid rid user seat) rid ?i data n s = Some (r, s1)"
    and run: "initialized s" "access_permitted s"
    using assms(2,5,6) by (auto simp: pclKeyWriteData_def c key_ready_def split: if_splits Option.bind_splits)
  have i: "is_db_storage E ?i" "slot_ok ?i" "type_ok E (policy (configKey ?i))"
    using assms(2) by (simp_all add: key_ready_def)
  note set = set_data_result [OF assms(1) i assms(3,4) w]
  have r: "r = n" using set(5) assms(6) by simp
  have run1: "initialized s1" "access_permitted s1"
    using set(1) run by (simp_all add: initialized_def access_permitted_def isAccessLocked_def same_control_def)
  have ready1: "key_ready E R lid rid user seat ck s1"
    using key_ready_keeps [OF assms(2)] set(1,2) by (simp add: same_control_def)
  have stored: "key_stored E D lid rid user seat ck (take (nat n) data) s1"
    using set(5) assms(6) by (simp add: key_stored_def key_handle_of_def)
  have len: "length (take (nat n) data) = nat n" "int (nat n) = n" using assms(3,4) by simp_all
  show ?thesis
    using r read_stored [OF assms(1) run1 ready1 stored, of m] len assms(7) by simp
qed

theorem key_write_read_witness:
  "\<exists>s1. pclKeyWriteData mem_env (mem_config 0 0) 0xFF ''volume'' 1 0 [1, 2, 3] 3 demo_state = Some (3, s1) \<and>
     pclKeyReadData mem_env (mem_config 0 0) 0xFF ''volume'' 1 0 [9, 9, 9, 9] 4 s1 = Some ((3, [1, 2, 3, 9]), s1)"
proof -
  obtain s1 where w: "pclKeyWriteData mem_env (mem_config 0 0) 0xFF ''volume'' 1 0 [1, 2, 3] 3 demo_state = Some (3, s1)"
    using demo_write by blast
  show ?thesis
    using key_write_read [OF mem_env_lawful demo_ready [of "0xFF"] _ _ w, of 4 "mem_config 0 0" "[9, 9, 9, 9]"] w by simp
qed

text \<open>C17: resources do not disturb each other: a value that is stored stays readable, whatever is written
  to any other resource of the same database (other user, other seat, other id, other local database),
  whether that write succeeds or fails, as long as the resource ids contain no separator and the keys
  fit in the key buffer.\<close>

theorem key_isolation:
  assumes "kv_lawful E D R" and "names_ok E"
    and "key_ready E R l1 r1 u1 t1 ck1 s" and "key_ready E R l2 r2 u2 t2 ck2 s"
    and "initialized s" and "access_permitted s"
    and "key_stored E D l1 r1 u1 t1 ck1 d s" and "int (length d) \<le> m"
    and "(l1, r1, u1, t1) \<noteq> (l2, r2, u2, t2)" and "same_database l1 l2"
    and "CHR ''/'' \<notin> set r1" and "CHR ''/'' \<notin> set r2"
    and "length (db_key_text E \<lparr>ldbid = l1, user_no = u1, seat_no = t1\<rparr> r1) < DbKeyMaxLen E"
    and "length (db_key_text E \<lparr>ldbid = l2, user_no = u2, seat_no = t2\<rparr> r2) < DbKeyMaxLen E"
    and "0 \<le> n" and "nat n \<le> length data"
    and w: "pclKeyWriteData E j2 l2 r2 u2 t2 data n s = Some (r, s1)"
  shows "pclKeyReadData E j1 l1 r1 u1 t1 buf m s1 = Some ((int (length d), d @ drop (length d) buf), s1)"
proof -
  let ?i = "key_info l2 u2 t2 ck2"
  have ne: "key_text E l1 r1 u1 t1 \<noteq> key_text E l2 r2 u2 t2"
    using db_key_injective [OF assms(2), where ?c1.0 = "\<lparr>ldbid = l1, user_no = u1, seat_no = t1\<rparr>" and
      ?c2.0 = "\<lparr>ldbid = l2, user_no = u2, seat_no = t2\<rparr>" and ?r1.0 = r1 and ?r2.0 = r2] assms(9-14)
    by (auto simp: key_text_def)
  obtain p where c: "key_context E j2 l2 r2 u2 t2 s = Some ((0, ?i, key_text E l2 r2 u2 t2, p), s)"
    using key_context_ready [OF assms(1,4)] by blast
  have i: "is_db_storage E ?i" "slot_ok ?i" "type_ok E (policy (configKey ?i))" "is_key E ?i"
    using assms(4) by (simp_all add: key_ready_def)
  have "s1 = s \<or> persistence_set_data E p (key_text E l2 r2 u2 t2) r2 ?i data n s = Some (r, s1)"
    using w by (auto simp: pclKeyWriteData_def c split: if_splits Option.bind_splits)
  then have keep: "same_control s s1 \<and> R (world s1) = R (world s) \<and> keeps_open s s1 \<and>
      D (world s1) h (key_text E l1 r1 u1 t1) = D (world s) h (key_text E l1 r1 u1 t1)" for h
    using set_data_result [OF assms(1) i(1-3) assms(15,16)] ne by (auto simp: same_control_def keeps_open_def)
  have run1: "initialized s1" "access_permitted s1"
    using keep assms(5,6) by (simp_all add: initialized_def access_permitted_def isAccessLocked_def same_control_def)
  have ready1: "key_ready E R l1 r1 u1 t1 ck1 s1"
    using key_ready_keeps [OF assms(3)] keep by (simp add: same_control_def)
  have "key_stored E D l1 r1 u1 t1 ck1 d s1"
    using assms(7) keep by (auto simp: key_stored_def key_handle_of_def db_open_def db_handle_def keeps_open_def)
  then show ?thesis using read_stored(1) [OF assms(1) run1 ready1] assms(8) by blast
qed

text \<open>The databases are open and user 1 has a stored volume.\<close>

definition demo_stored :: "mem_world pcl" where
  "demo_stored = demo_state\<lparr>gHandlesDBCreated := (\<lambda>_ _. 1), gHandlesDB := (\<lambda>_ _. 5),
     world := demo_world\<lparr>mem_db := (\<lambda>h. if h = 5 then [''/user/1/volume'' \<mapsto> [7, 8]] else (\<lambda>_. None))\<rparr>\<rparr>"

lemma demo_stored_ready:
  "lid \<in> {0xFF, 0x80} \<Longrightarrow> key_ready mem_env (\<lambda>w h. mem_rct w) lid ''volume'' user seat (mem_config 0 0) demo_stored"
  by (rule key_ready_keeps [OF demo_ready]) (simp_all add: demo_stored_def)

lemma demo_stored_runs: "initialized demo_stored" "access_permitted demo_stored"
  using demo_state_runs
  by (simp_all add: demo_stored_def initialized_def access_permitted_def isAccessLocked_def)

lemma demo_key: "key_text mem_env 0xFF ''volume'' 1 0 = ''/user/1/volume''"
  by (simp add: key_text_def db_key_text_def fmt_d_def digits_one hex_char_def snprintf_def)

lemma demo_stored_stored: "key_stored mem_env mem_db 0xFF ''volume'' 1 0 (mem_config 0 0) [7, 8] demo_stored"
  by (simp add: key_stored_def demo_key key_handle_of_def db_handle_def db_open_def)
     (simp add: demo_stored_def)

lemma demo_stored_write:
  "\<exists>s1. pclKeyWriteData mem_env junk 0xFF ''volume'' u t [1, 2, 3] 3 demo_stored = Some (3, s1)"
proof -
  let ?i = "key_info 0xFF u t (mem_config 0 0)"
  obtain p where c: "key_context mem_env junk 0xFF ''volume'' u t demo_stored =
     Some ((0, ?i, key_text mem_env 0xFF ''volume'' u t, p), demo_stored)"
    using key_context_ready [OF mem_env_lawful demo_stored_ready [of "0xFF"], of junk] by auto
  have "db_open ?i 0 demo_stored" "db_handle ?i 0 demo_stored = 5"
    by (simp_all add: db_open_def db_handle_def demo_stored_def)
  then have g: "database_get mem_env ?i p 0 demo_stored = Some (5, demo_stored)"
    using database_get_cached [OF demo_slot(1) demo_type, of u t demo_stored p] by simp
  have "pclCrc32 0 (Some [1, 2, 3]) 3 = Some (crc32_bytes 0 [1, 2, 3])"
    using pclCrc32_bytes [of 0 "[1, 2, 3]"] by (simp add: numeral_3_eq_3)
  moreover have "size_of_int 3 = 3" by (simp add: size_of_int_def)
  moreover have "gMaxKeyValDataSize demo_stored = 16384" by (simp add: demo_stored_def)
  ultimately show ?thesis
    using g demo_stored_runs
    by (simp add: pclKeyWriteData_def c is_key_def storage_valid_def persistence_set_data_def is_db_storage_def
        Let_def)
qed

theorem key_isolation_witness:
  "\<exists>s1. pclKeyWriteData mem_env (mem_config 0 0) 0xFF ''volume'' 2 0 [1, 2, 3] 3 demo_stored = Some (3, s1) \<and>
     pclKeyReadData mem_env (mem_config 0 0) 0xFF ''volume'' 1 0 [0, 0] 2 s1 = Some ((2, [7, 8]), s1)"
proof -
  obtain s1 where w: "pclKeyWriteData mem_env (mem_config 0 0) 0xFF ''volume'' 2 0 [1, 2, 3] 3 demo_stored = Some (3, s1)"
    using demo_stored_write by blast
  have "pclKeyReadData mem_env (mem_config 0 0) 0xFF ''volume'' 1 0 [0, 0] 2 s1
      = Some ((int (length [7, 8 :: u8]), [7, 8] @ drop (length [7, 8 :: u8]) [0, 0]), s1)"
    by (rule key_isolation [OF mem_env_lawful _ demo_stored_ready demo_stored_ready demo_stored_runs
          demo_stored_stored _ _ _ _ _ _ _ _ _ w])
       (simp_all add: names_ok_def same_database_def db_key_text_def fmt_d_def digits_one)
  with w show ?thesis by simp
qed

text \<open>No operation touches the data before the library is initialised: every operation on keys and
  handles returns \<open>EPERS_NOT_INITIALIZED\<close> and changes nothing. While the access is locked, reading,
  writing and deleting return \<open>EPERS_LOCKFS\<close> and change nothing (measuring the size is not guarded).\<close>

theorem key_api_guards:
  "(\<not> initialized s \<longrightarrow>
      pclKeyReadData E j l r u t buf n s = Some ((EPERS_NOT_INITIALIZED, buf), s) \<and>
      pclKeyWriteData E j l r u t buf n s = Some (EPERS_NOT_INITIALIZED, s) \<and>
      pclKeyDelete E j l r u t s = Some (EPERS_NOT_INITIALIZED, s) \<and>
      pclKeyGetSize E j l r u t s = Some (EPERS_NOT_INITIALIZED, s) \<and>
      regNotifyOnChange E j l r u t cb pol s = Some (EPERS_NOT_INITIALIZED, s) \<and>
      pclKeyHandleOpen E j l r u t s = Some (EPERS_NOT_INITIALIZED, s) \<and>
      pclKeyHandleClose h s = Some (EPERS_NOT_INITIALIZED, s) \<and>
      pclKeyHandleReadData E j h buf n s = Some ((EPERS_NOT_INITIALIZED, buf), s) \<and>
      pclKeyHandleWriteData E j h buf n s = Some (EPERS_NOT_INITIALIZED, s) \<and>
      pclKeyHandleGetSize E j h s = Some (EPERS_NOT_INITIALIZED, s)) \<and>
   (initialized s \<and> \<not> access_permitted s \<longrightarrow>
      pclKeyReadData E j l r u t buf n s = Some ((EPERS_LOCKFS, buf), s) \<and>
      pclKeyWriteData E j l r u t buf n s = Some (EPERS_LOCKFS, s) \<and>
      pclKeyDelete E j l r u t s = Some (EPERS_LOCKFS, s))"
  by (simp add: pclKeyReadData_def pclKeyWriteData_def pclKeyDelete_def pclKeyGetSize_def
      regNotifyOnChange_def pclKeyHandleOpen_def pclKeyHandleClose_def pclKeyHandleReadData_def
      pclKeyHandleWriteData_def pclKeyHandleGetSize_def with_key_handle_def)

theorem key_api_guards_witness:
  "pclKeyDelete mem_env (mem_config 0 0) 0xFF ''volume'' 1 0 (pcl_start mem_env mem_start)
     = Some (EPERS_NOT_INITIALIZED, pcl_start mem_env mem_start) \<and>
   pclKeyDelete mem_env (mem_config 0 0) 0xFF ''volume'' 1 0 (pers_lock_access demo_state)
     = Some (EPERS_LOCKFS, pers_lock_access demo_state)"
proof -
  have "\<not> initialized (pcl_start mem_env mem_start)" by (simp add: initialized_def pcl_start_def)
  moreover have "initialized (pers_lock_access demo_state)" "\<not> access_permitted (pers_lock_access demo_state)"
    by (simp_all add: initialized_def access_permitted_def isAccessLocked_def pers_lock_access_def demo_state_def
        pcl_start_def)
  ultimately show ?thesis
    using key_api_guards [of "pcl_start mem_env mem_start" mem_env "mem_config 0 0" "0xFF" "''volume''" 1 0]
      key_api_guards [of "pers_lock_access demo_state" mem_env "mem_config 0 0" "0xFF" "''volume''" 1 0]
    by blast
qed

text \<open>C38: what a write is refused for, in the order of the checks: more bytes than the limit
  (\<open>EPERS_BUFLIMIT\<close>), a resource that is only readable (\<open>EPERS_RESOURCE_READ_ONLY\<close>); neither touches
  the data. But a negative size passes the limit: it is then converted to a size of nearly 2 to the 64,
  and the checksum runs past the end of the buffer.\<close>

theorem key_write_refusals:
  assumes "kv_lawful E D R" and "initialized s" and "access_permitted s"
    and "key_ready E R lid rid user seat ck s"
  shows "(gMaxKeyValDataSize s < n \<longrightarrow>
      pclKeyWriteData E j lid rid user seat data n s = Some (EPERS_BUFLIMIT, s)) \<and>
    (n \<le> gMaxKeyValDataSize s \<longrightarrow> permission ck = PersistencePermission_ReadOnly E \<longrightarrow>
      pclKeyWriteData E j lid rid user seat data n s = Some (EPERS_RESOURCE_READ_ONLY, s)) \<and>
    (n < 0 \<longrightarrow> - (2 ^ 63) \<le> n \<longrightarrow> 0 \<le> gMaxKeyValDataSize s \<longrightarrow> length data < 2 ^ 63 \<longrightarrow>
      permission ck \<noteq> PersistencePermission_ReadOnly E \<longrightarrow>
      pclKeyWriteData E j lid rid user seat data n s = None)"
proof -
  obtain p where c: "key_context E j lid rid user seat s =
     Some ((0, key_info lid user seat ck, key_text E lid rid user seat, p), s)"
    using key_context_ready [OF assms(1,4)] by blast
  have k: "is_key E (key_info lid user seat ck)" using assms(4) by (simp add: key_ready_def)
  have crc: "pclCrc32 0 (Some data) (size_of_int n) = None"
    if "n < 0" "- (2 ^ 63) \<le> n" "length data < 2 ^ 63"
  proof -
    have "length data < nat (n + 2 ^ 64)"
    proof -
      have "(2 ^ 63 :: nat) = nat (2 ^ 63)" by simp
      also have "\<dots> \<le> nat (n + 2 ^ 64)" using that(2) by (intro nat_mono) simp
      finally show ?thesis using that(3) by simp
    qed
    then show ?thesis using that by (simp add: size_of_negative pclCrc32_defined)
  qed
  show ?thesis
    using assms(2,3) k crc by (auto simp: pclKeyWriteData_def c)
qed

theorem key_write_refusals_witness:
  "pclKeyWriteData mem_env (mem_config 0 0) 0xFF ''volume'' 1 0 [1, 2, 3] 20000 demo_state
     = Some (EPERS_BUFLIMIT, demo_state) \<and>
   pclKeyWriteData mem_env (mem_config 0 0) 0xFF ''volume'' 1 0 [1, 2, 3] (- 1) demo_state = None"
  using key_write_refusals [OF mem_env_lawful demo_state_runs demo_ready [of "0xFF"], of "20000" "mem_config 0 0" 1 0 "[1, 2, 3]"]
    key_write_refusals [OF mem_env_lawful demo_state_runs demo_ready [of "0xFF"], of "- 1" "mem_config 0 0" 1 0 "[1, 2, 3]"]
  by simp

section \<open>Properties: handles\<close>

text \<open>The invariant of the key handles: the pool is sound, the mutexes can be taken, and every handle with
  a resource is one that is open.\<close>

definition handles_ok :: "handle_state \<Rightarrow> bool" where
  "handles_ok h \<longleftrightarrow> pool_inv h \<and> mutex_rc h gKeyHandleAccessMtx = 0 \<and>
     (\<forall>i. 0 < i \<longrightarrow> i < 128 \<longrightarrow> resource_id (gKeyHandleArray h (nat i)) \<noteq> [] \<longrightarrow> i \<in> live_handles h)"

lemma alloc_frame:
  "get_persistence_handle_idx h = Some (x, h') \<Longrightarrow>
     gKeyHandleArray h' = gKeyHandleArray h \<and> mutex_rc h' = mutex_rc h"
  by (auto simp: get_persistence_handle_idx_def Let_def split: if_splits Option.bind_splits)

lemma free_frame:
  "set_persistence_handle_close_idx x h = Some h' \<Longrightarrow>
     gKeyHandleArray h' = gKeyHandleArray h \<and> mutex_rc h' = mutex_rc h"
  by (auto simp: set_persistence_handle_close_idx_def split: if_splits Option.bind_splits)

lemma live_range: "pool_inv h \<Longrightarrow> x \<in> live_handles h \<Longrightarrow> 0 < x \<and> x < 127"
  by (auto simp: pool_inv_def live_handles_def c_const)

lemma handles_ok_init: "handles_ok handle_init"
  using pool_inv_init by (simp add: handles_ok_def) (simp add: handle_init_def key_handle_zero_def)

text \<open>Opening a key returns a handle that was not open, and through it the operations are those on the
  resource itself. While fewer than 126 handles are open, every key of a configured database can be
  opened. The invariant of the handles is kept.\<close>

theorem key_handle_open:
  assumes "kv_lawful E D R" and "initialized s" and "key_ready E R lid rid user seat ck s"
    and "handles_ok (hnd s)" and "card (live_handles (hnd s)) < 126"
    and "rid \<noteq> []" and "length rid < DbResIDMaxLen E"
  shows "\<exists>x s1. pclKeyHandleOpen E j lid rid user seat s = Some (x, s1) \<and> 0 < x \<and> x < 127 \<and>
     x \<notin> live_handles (hnd s) \<and> live_handles (hnd s1) = insert x (live_handles (hnd s)) \<and>
     handles_ok (hnd s1) \<and> s1\<lparr>hnd := hnd s\<rparr> = s \<and>
     pclKeyHandleReadData E j2 x buf n s1 = pclKeyReadData E j2 lid rid user seat buf n s1 \<and>
     pclKeyHandleWriteData E j2 x buf n s1 = pclKeyWriteData E j2 lid rid user seat buf n s1 \<and>
     pclKeyHandleGetSize E j2 x s1 = pclKeyGetSize E j2 lid rid user seat s1"
proof -
  obtain p where c: "key_context E j lid rid user seat s =
     Some ((0, key_info lid user seat ck, key_text E lid rid user seat, p), s)"
    using key_context_ready [OF assms(1,3)] by blast
  have k: "is_key E (key_info lid user seat ck)" "storage_valid E (key_info lid user seat ck)"
    using assms(1,3) by (auto simp: key_ready_def kv_lawful_def consts_ok_def storage_valid_def is_db_storage_def)
  have inv: "pool_inv (hnd s)" "mutex_rc (hnd s) gKeyHandleAccessMtx = 0"
    using assms(4) by (simp_all add: handles_ok_def)
  obtain x h where a: "get_persistence_handle_idx (hnd s) = Some (x, h)" "0 < x"
      "x \<notin> live_handles (hnd s)" "pool_inv h" "live_handles h = insert x (live_handles (hnd s))"
    using alloc_fresh_model [OF inv(1) assms(5)] by blast
  have x: "x < 127" using live_range [OF a(4)] a(5) by blast
  note fr = alloc_frame [OF a(1)]
  let ?e = "\<lparr>resource_id = rid, kh_ldbid = lid, kh_user_no = user, kh_seat_no = seat\<rparr>"
  let ?h1 = "h\<lparr>gKeyHandleArray := (gKeyHandleArray h)(nat x := ?e)\<rparr>"
  have set: "set_key_handle_data E x rid lid user seat h = Some (x, ?h1)"
    using set_key_handle_data_ok [of h x E rid lid user seat] fr inv(2) a(2) x assms(7) by simp
  let ?s1 = "s\<lparr>hnd := ?h1\<rparr>"
  have o: "pclKeyHandleOpen E j lid rid user seat s = Some (x, ?s1)"
    using assms(2) k by (simp add: pclKeyHandleOpen_def c a(1) set)
  have i1: "initialized ?s1" using assms(2) by (simp add: initialized_def)
  have get: "get_key_handle_data x key_handle_zero (hnd ?s1) = Some (0, ?e)"
    using get_key_handle_data_ok [of ?h1 x] fr inv(2) a(2) x by simp
  have "handles_ok ?h1"
    using assms(4) a fr by (auto simp: handles_ok_def)
  then show ?thesis
    using o a x i1 get assms(6)
    by (auto simp: pclKeyHandleReadData_def pclKeyHandleWriteData_def pclKeyHandleGetSize_def with_key_handle_def)
qed

theorem key_handle_open_witness:
  "\<exists>x s1. pclKeyHandleOpen mem_env (mem_config 0 0) 0xFF ''volume'' 1 0 demo_state = Some (x, s1) \<and> 0 < x \<and>
     pclKeyHandleGetSize mem_env (mem_config 0 0) x s1 = pclKeyGetSize mem_env (mem_config 0 0) 0xFF ''volume'' 1 0 s1"
proof -
  have h: "card (live_handles (hnd demo_state)) < 126" "handles_ok (hnd demo_state)"
    using pool_inv_init(2) handles_ok_init by simp_all
  obtain x s1 where "pclKeyHandleOpen mem_env (mem_config 0 0) 0xFF ''volume'' 1 0 demo_state = Some (x, s1)" "0 < x"
      "pclKeyHandleGetSize mem_env (mem_config 0 0) x s1 = pclKeyGetSize mem_env (mem_config 0 0) 0xFF ''volume'' 1 0 s1"
    using key_handle_open [OF mem_env_lawful demo_state_runs(1) demo_ready [of "0xFF" 1 0] h(2,1),
        where j = "mem_config 0 0" and ?j2.0 = "mem_config 0 0" and buf = "[]" and n = 0] by auto
  then show ?thesis by blast
qed

text \<open>Closing an open key handle returns 1 and frees it; afterwards it is invalid: closing it again
  returns \<open>EPERS_INVALID_HANDLE\<close> without freeing it twice, and so do reading and writing through it. A
  number outside 1 to 127 is always answered \<open>EPERS_MAXHANDLE\<close>. The invariant of the handles is kept.\<close>

theorem key_handle_close:
  assumes "initialized s" and "handles_ok (hnd s)" and "0 < x" and "x < 128"
    and "resource_id (gKeyHandleArray (hnd s) (nat x)) \<noteq> []"
  shows "\<exists>s1. pclKeyHandleClose x s = Some (1, s1) \<and> handles_ok (hnd s1) \<and>
     live_handles (hnd s1) = live_handles (hnd s) - {x} \<and> s1\<lparr>hnd := hnd s\<rparr> = s \<and>
     pclKeyHandleClose x s1 = Some (EPERS_INVALID_HANDLE, s1) \<and>
     pclKeyHandleReadData E j x buf n s1 = Some ((EPERS_INVALID_HANDLE, buf), s1) \<and>
     pclKeyHandleWriteData E j x buf n s1 = Some (EPERS_INVALID_HANDLE, s1) \<and>
     (y \<le> 0 \<or> 128 \<le> y \<longrightarrow> pclKeyHandleClose y s = Some (EPERS_MAXHANDLE, s))"
proof -
  have inv: "pool_inv (hnd s)" "mutex_rc (hnd s) gKeyHandleAccessMtx = 0" "x \<in> live_handles (hnd s)"
    using assms(2-5) by (simp_all add: handles_ok_def)
  obtain h where f: "set_persistence_handle_close_idx x (hnd s) = Some h" "pool_inv h"
      "live_handles h = live_handles (hnd s) - {x}"
    using free_live_model [OF inv(1,3)] by blast
  note fr = free_frame [OF f(1)]
  let ?h1 = "h\<lparr>gKeyHandleArray := (gKeyHandleArray h)(nat x := key_handle_zero)\<rparr>"
  have cl: "clear_key_handle_array x h = Some ?h1"
    using clear_key_handle_array_ok [of h x] fr inv(2) assms(3,4) by simp
  let ?s1 = "s\<lparr>hnd := ?h1\<rparr>"
  have "get_key_handle_data x key_handle_zero (hnd s) = Some (0, gKeyHandleArray (hnd s) (nat x))"
    using get_key_handle_data_ok inv(2) assms(3,4) by blast
  then have o: "pclKeyHandleClose x s = Some (1, ?s1)"
    using assms(1,5) by (simp add: pclKeyHandleClose_def f(1) cl)
  have get: "get_key_handle_data x key_handle_zero (hnd ?s1) = Some (0, key_handle_zero)"
    using get_key_handle_data_ok [of ?h1 x] fr inv(2) assms(3,4) by simp
  have z: "resource_id key_handle_zero = []" by (simp add: key_handle_zero_def)
  have i1: "initialized ?s1" using assms(1) by (simp add: initialized_def)
  have "handles_ok ?h1"
    using assms(2,3) f(2,3) fr z by (auto simp: handles_ok_def)
  moreover have "pclKeyHandleClose y s = Some (EPERS_MAXHANDLE, s)" if "y \<le> 0 \<or> 128 \<le> y"
    using assms(1) get_key_handle_data_bad [OF that] by (simp add: pclKeyHandleClose_def)
  ultimately show ?thesis
    using o f(3) i1 get z
    by (auto simp: pclKeyHandleClose_def pclKeyHandleReadData_def pclKeyHandleWriteData_def with_key_handle_def)
qed

theorem key_handle_close_witness:
  "\<exists>(s :: mem_world pcl) s1. pclKeyHandleClose 1 s = Some (1, s1) \<and> pclKeyHandleClose 1 s1 = Some (EPERS_INVALID_HANDLE, s1)"
proof -
  let ?h = "one_open\<lparr>gKeyHandleArray := (\<lambda>i. if i = 1 then key_handle_zero\<lparr>resource_id := ''volume''\<rparr> else key_handle_zero)\<rparr>"
  let ?s = "demo_state\<lparr>hnd := ?h\<rparr>"
  have "mutex_rc one_open gKeyHandleAccessMtx = 0" by (simp add: one_open_def handle_init_def)
  then have "handles_ok (hnd ?s)" using one_open_ok by (auto simp: handles_ok_def key_handle_zero_def nat_eq_iff)
  moreover have "initialized ?s" using demo_state_runs(1) by (simp add: initialized_def)
  ultimately obtain s1 where "pclKeyHandleClose 1 ?s = Some (1, s1)"
      "pclKeyHandleClose 1 s1 = Some (EPERS_INVALID_HANDLE, s1)"
    using key_handle_close [of ?s 1 mem_env "mem_config 0 0" "[]" 0 0] by (auto simp: key_handle_zero_def)
  then show ?thesis by blast
qed

text \<open>A key with the empty resource id can be opened but its handle can never be used nor closed: the
  empty id marks a free entry, so closing returns \<open>EPERS_INVALID_HANDLE\<close> and the handle stays taken. 126
  such opens use up all handles of the process.\<close>

theorem key_handle_empty_leaks:
  assumes "kv_lawful E D R" and "initialized s" and "key_ready E R lid [] user seat ck s"
    and "handles_ok (hnd s)" and "card (live_handles (hnd s)) < 126"
  shows "\<exists>x s1. pclKeyHandleOpen E j lid [] user seat s = Some (x, s1) \<and> 0 < x \<and>
     card (live_handles (hnd s1)) = card (live_handles (hnd s)) + 1 \<and>
     pclKeyHandleClose x s1 = Some (EPERS_INVALID_HANDLE, s1)"
proof -
  obtain p where c: "key_context E j lid [] user seat s =
     Some ((0, key_info lid user seat ck, key_text E lid [] user seat, p), s)"
    using key_context_ready [OF assms(1,3)] by blast
  have k: "is_key E (key_info lid user seat ck)" "storage_valid E (key_info lid user seat ck)"
    using assms(1,3) by (auto simp: key_ready_def kv_lawful_def consts_ok_def storage_valid_def is_db_storage_def)
  have inv: "pool_inv (hnd s)" "mutex_rc (hnd s) gKeyHandleAccessMtx = 0"
    using assms(4) by (simp_all add: handles_ok_def)
  obtain x h where a: "get_persistence_handle_idx (hnd s) = Some (x, h)" "0 < x"
      "x \<notin> live_handles (hnd s)" "pool_inv h" "live_handles h = insert x (live_handles (hnd s))"
    using alloc_fresh_model [OF inv(1) assms(5)] by blast
  have x: "x < 127" using live_range [OF a(4)] a(5) by blast
  note fr = alloc_frame [OF a(1)]
  let ?h1 = "h\<lparr>gKeyHandleArray := (gKeyHandleArray h)(nat x :=
     \<lparr>resource_id = [], kh_ldbid = lid, kh_user_no = user, kh_seat_no = seat\<rparr>)\<rparr>"
  have set: "set_key_handle_data E x [] lid user seat h = Some (x, ?h1)"
    using set_key_handle_data_ok [of h x E "[]" lid user seat] fr inv(2) a(2) x by simp
  have o: "pclKeyHandleOpen E j lid [] user seat s = Some (x, s\<lparr>hnd := ?h1\<rparr>)"
    using assms(2) k by (simp add: pclKeyHandleOpen_def c a(1) set)
  have "initialized (s\<lparr>hnd := ?h1\<rparr>)" using assms(2) by (simp add: initialized_def)
  then have "pclKeyHandleClose x (s\<lparr>hnd := ?h1\<rparr>) = Some (EPERS_INVALID_HANDLE, s\<lparr>hnd := ?h1\<rparr>)"
    using get_key_handle_data_ok [of ?h1 x] fr inv(2) a(2) x by (simp add: pclKeyHandleClose_def)
  moreover have "finite (live_handles (hnd s))" by (simp add: live_handles_def)
  ultimately show ?thesis using o a by auto
qed

theorem key_handle_empty_leaks_witness:
  "\<exists>s x s1. pclKeyHandleOpen mem_env (mem_config 0 0) 0xFF [] 1 0 s = Some (x, s1) \<and> 0 < x \<and>
     pclKeyHandleClose x s1 = Some (EPERS_INVALID_HANDLE, s1)"
proof -
  let ?s = "demo_state\<lparr>world := \<lparr>mem_db = (\<lambda>_ _. None), mem_rct = (\<lambda>_. Some (mem_config 0 0))\<rparr>\<rparr>"
  have "initialized ?s" using demo_state_runs(1) by (simp add: initialized_def)
  moreover have "key_ready mem_env (\<lambda>w h. mem_rct w) 0xFF [] 1 0 (mem_config 0 0) ?s"
    using demo_ready [of "0xFF" 1 0] by (simp add: key_ready_def found_entry_def demo_world_def)
  moreover have "card (live_handles (hnd ?s)) < 126" "handles_ok (hnd ?s)"
    using pool_inv_init(2) handles_ok_init by simp_all
  ultimately show ?thesis using key_handle_empty_leaks [OF mem_env_lawful] by blast
qed

section \<open>Properties: deletion, types, notifications\<close>

text \<open>After a successful delete the database holds nothing for the key, and deleting it again returns
  \<open>EPERS_NOKEY\<close>. For a shared key every delete sends the deleted signal into the pipe, also one that
  deleted nothing.\<close>

theorem key_delete:
  assumes "kv_lawful E D R" and "initialized s" and "access_permitted s"
    and "key_ready E R lid rid user seat ck s"
    and "db_open (key_info lid user seat ck) (policy ck) s" and "0 \<le> key_handle_of lid user seat ck s"
    and "pclKeyDelete E j lid rid user seat s = Some (r, s1)"
  shows "(0 \<le> r \<longrightarrow> D (world s1) (key_handle_of lid user seat ck s1) (key_text E lid rid user seat) = None) \<and>
     (D (world s) (key_handle_of lid user seat ck s) (key_text E lid rid user seat) = None \<longrightarrow> r = EPERS_NOKEY) \<and>
     (0 \<le> r \<longrightarrow> (\<exists>s2. pclKeyDelete E j2 lid rid user seat s1 = Some (EPERS_NOKEY, s2))) \<and>
     (storage ck = PersistenceStorage_shared E \<longrightarrow> pipe_rc s \<noteq> - 1 \<longrightarrow>
        length (pipe s1) = length (pipe s) + 1 \<and> cmd (last (pipe s1)) = CMD_SEND_NOTIFY_SIGNAL \<and>
        params (last (pipe s1)) = [lid, user, seat, 3])"
proof -
  let ?i = "key_info lid user seat ck"
  let ?k = "key_text E lid rid user seat"
  let ?h = "key_handle_of lid user seat ck s"
  have law: "db_delete_law E D R" "PERS_COM_ERR_NOT_FOUND E < 0"
    using assms(1) by (simp_all add: kv_lawful_def consts_ok_def)
  have step: "\<exists>r1 w1 s'. persComDbDeleteKey E (key_handle_of lid user seat ck s) ?k (world s) = (r1, w1) \<and>
      pclKeyDelete E j lid rid user seat s =
        Some (if r1 < 0 then if r1 = PERS_COM_ERR_NOT_FOUND E then EPERS_NOKEY else EPERS_DB_ERROR_INTERNAL else r1, s') \<and>
      s' = (if storage ck = PersistenceStorage_shared E
            then snd (pers_send_Notification_Signal E rid (context_of ?i) pclNotifyStatus_deleted (s\<lparr>world := w1\<rparr>))
            else s\<lparr>world := w1\<rparr>)"
    if s: "key_ready E R lid rid user seat ck s" "initialized s" "access_permitted s"
      "db_open ?i (policy ck) s" "0 \<le> key_handle_of lid user seat ck s" for s j
  proof -
    obtain p where c: "key_context E j lid rid user seat s = Some ((0, ?i, ?k, p), s)"
      using key_context_ready [OF assms(1) s(1)] by blast
    have i: "is_key E ?i" "storage_valid E ?i" "storage ck \<noteq> PersistenceStorage_custom E"
        "slot_ok ?i" "type_ok E (policy ck)"
      using s(1) assms(1) by (auto simp: key_ready_def kv_lawful_def consts_ok_def storage_valid_def is_db_storage_def)
    have g: "database_get E ?i p (policy ck) s = Some (key_handle_of lid user seat ck s, s)"
      using database_get_cached [OF i(4,5) s(4), of p] by (simp add: key_handle_of_def)
    obtain r1 w1 where d: "persComDbDeleteKey E (key_handle_of lid user seat ck s) ?k (world s) = (r1, w1)"
      by fastforce
    show ?thesis
      using s(2,3,5) i(1-3) by (simp add: pclKeyDelete_def c persistence_delete_data_def g d Let_def)
  qed
  obtain r1 w1 where d: "persComDbDeleteKey E ?h ?k (world s) = (r1, w1)"
    and o: "r = (if r1 < 0 then if r1 = PERS_COM_ERR_NOT_FOUND E then EPERS_NOKEY else EPERS_DB_ERROR_INTERNAL else r1)"
      "s1 = (if storage ck = PersistenceStorage_shared E
            then snd (pers_send_Notification_Signal E rid (context_of ?i) pclNotifyStatus_deleted (s\<lparr>world := w1\<rparr>))
            else s\<lparr>world := w1\<rparr>)"
    using step [OF assms(4,2,3,5,6), of j] assms(7) by auto
  note dl = law(1) [unfolded db_delete_law_def, rule_format, OF d]
  have w: "world s1 = w1" "gHandlesDB s1 = gHandlesDB s" "gHandlesDBCreated s1 = gHandlesDBCreated s"
    "gResource_table s1 = gResource_table s" "gResourceOpen s1 = gResourceOpen s"
    "gPclInitialized s1 = gPclInitialized s" "gLockAccess s1 = gLockAccess s"
    using o(2) by (auto simp: send_notification)
  have h: "key_handle_of lid user seat ck s1 = ?h" "db_open ?i (policy ck) s1"
    using w assms(5) by (simp_all add: key_handle_of_def db_handle_def db_open_def)
  have a: "0 \<le> r \<longrightarrow> D (world s1) ?h ?k = None" using dl o(1) w(1) by (auto split: if_splits)
  have b: "D (world s) ?h ?k = None \<longrightarrow> r = EPERS_NOKEY" using dl o(1) law(2) by auto
  have c: "\<exists>s2. pclKeyDelete E j2 lid rid user seat s1 = Some (EPERS_NOKEY, s2)" if "0 \<le> r"
  proof -
    have r1: "key_ready E R lid rid user seat ck s1" "initialized s1" "access_permitted s1"
      using key_ready_keeps [OF assms(4)] dl w assms(2,3)
      by (simp_all add: initialized_def access_permitted_def isAccessLocked_def)
    obtain r2 w2 s2 where d2: "persComDbDeleteKey E ?h ?k (world s1) = (r2, w2)"
        "pclKeyDelete E j2 lid rid user seat s1 =
          Some (if r2 < 0 then if r2 = PERS_COM_ERR_NOT_FOUND E then EPERS_NOKEY else EPERS_DB_ERROR_INTERNAL else r2, s2)"
      using step [OF r1 h(2), of j2] h(1) assms(6) by auto
    have "r2 = PERS_COM_ERR_NOT_FOUND E"
      using law(1) [unfolded db_delete_law_def, rule_format, OF d2(1)] a that by simp
    then show ?thesis using d2(2) law(2) by auto
  qed
  have e: "storage ck = PersistenceStorage_shared E \<longrightarrow> pipe_rc s \<noteq> - 1 \<longrightarrow>
        length (pipe s1) = length (pipe s) + 1 \<and> cmd (last (pipe s1)) = CMD_SEND_NOTIFY_SIGNAL \<and>
        params (last (pipe s1)) = [lid, user, seat, 3]"
    using o(2) by (auto simp: pers_send_Notification_Signal_def deliver_eq deliverToMainloop_NM_def)
  show ?thesis using a b c e h(1) by auto
qed

theorem key_delete_witness:
  "\<exists>s1. pclKeyDelete mem_env (mem_config 0 0) 0xFF ''volume'' 1 0 demo_stored = Some (0, s1) \<and>
     mem_db (world s1) 5 ''/user/1/volume'' = None"
proof -
  have h: "key_handle_of 0xFF 1 0 (mem_config 0 0) s = 5" "db_open (key_info 0xFF 1 0 (mem_config 0 0)) 0 s"
    if "gHandlesDB s = gHandlesDB demo_stored" "gHandlesDBCreated s = gHandlesDBCreated demo_stored" for s
    using that by (simp_all add: key_handle_of_def db_handle_def db_open_def demo_stored_def)
  obtain p where c: "key_context mem_env (mem_config 0 0) 0xFF ''volume'' 1 0 demo_stored =
     Some ((0, key_info 0xFF 1 0 (mem_config 0 0), ''/user/1/volume'', p), demo_stored)"
    using key_context_ready [OF mem_env_lawful demo_stored_ready [of "0xFF"], of "mem_config 0 0" 1 0] demo_key by auto
  have g: "database_get mem_env (key_info 0xFF 1 0 (mem_config 0 0)) p 0 demo_stored = Some (5, demo_stored)"
    using database_get_cached [OF demo_slot(1) demo_type, of 1 0 demo_stored p] h [of demo_stored]
    by (simp add: key_handle_of_def)
  have del: "persComDbDeleteKey mem_env 5 ''/user/1/volume'' (world demo_stored)
      = (0, (world demo_stored)\<lparr>mem_db := (mem_db (world demo_stored))(5 := (mem_db (world demo_stored) 5)(''/user/1/volume'' := None))\<rparr>)"
    by (simp add: mem_env_def demo_stored_def)
  obtain s1 where o: "pclKeyDelete mem_env (mem_config 0 0) 0xFF ''volume'' 1 0 demo_stored = Some (0, s1)"
      "gHandlesDB s1 = gHandlesDB demo_stored" "gHandlesDBCreated s1 = gHandlesDBCreated demo_stored"
    using demo_stored_runs
    by (simp add: pclKeyDelete_def c persistence_delete_data_def g del is_key_def storage_valid_def Let_def)
  have "mem_db (world s1) (key_handle_of 0xFF 1 0 (mem_config 0 0) s1) (key_text mem_env 0xFF ''volume'' 1 0) = None"
    using key_delete [OF mem_env_lawful demo_stored_runs demo_stored_ready _ _ o(1)] h [of demo_stored] by simp
  then show ?thesis using o h(1) [of s1] demo_key by simp
qed

lemma key_context_file:
  assumes "kv_lawful E D R" and "lid < 0x80000000" and "found_entry R lid rid s = Some ck"
    and "storage ck \<noteq> PersistenceStorage_custom E"
  shows "\<exists>p. key_context E junk lid rid user seat s =
     Some ((0, key_info lid user seat ck, key_text E lid rid user seat, p), s)"
proof -
  have l: "rct_law E R" "consts_ok E" using assms(1) by (simp_all add: kv_lawful_def)
  let ?i = "\<lparr>context_of = \<lparr>ldbid = lid, user_no = user, seat_no = seat\<rparr>, configKey = junk\<rparr>"
  show ?thesis
    using get_db_context_found [OF l(1), of ?i rid s ck ResIsNoFile "[]" "[]"] assms l(2)
    by (simp add: key_context_def key_text_def key_for_def key_info_def consts_ok_def Let_def)
qed

text \<open>For a resource that the tables list as a file, reading, writing and deleting it as a key do nothing
  and return 0, the value that also means no data, nothing written, or success; only the size query
  reports an error (\<open>EPERS_BADPOL\<close>), and the handle cannot be opened.\<close>

theorem key_of_wrong_type:
  assumes "kv_lawful E D R" and "initialized s" and "access_permitted s" and "lid < 0x80000000"
    and "found_entry R lid rid s = Some ck" and "storage ck \<noteq> PersistenceStorage_custom E"
    and "rtype ck \<noteq> PersistenceResourceType_key E" and "n \<le> gMaxKeyValDataSize s"
  shows "pclKeyReadData E j lid rid user seat buf n s = Some ((0, buf), s) \<and>
     pclKeyWriteData E j lid rid user seat buf n s = Some (0, s) \<and>
     pclKeyDelete E j lid rid user seat s = Some (0, s) \<and>
     pclKeyGetSize E j lid rid user seat s = Some (EPERS_BADPOL, s) \<and>
     pclKeyHandleOpen E j lid rid user seat s = Some (EPERS_NOT_INITIALIZED, s)"
proof -
  obtain p where c: "key_context E j lid rid user seat s =
     Some ((0, key_info lid user seat ck, key_text E lid rid user seat, p), s)"
    using key_context_file [OF assms(1,4,5,6)] by blast
  show ?thesis
    using assms(2,3,7,8)
    by (simp add: pclKeyReadData_def pclKeyWriteData_def pclKeyDelete_def pclKeyGetSize_def pclKeyHandleOpen_def
        c is_key_def)
qed

theorem key_of_wrong_type_witness:
  "pclKeyDelete mem_env (mem_config 0 0) 0xFF ''track'' 1 0 demo_state = Some (0, demo_state)"
  using key_of_wrong_type [OF mem_env_lawful demo_state_runs, of "0xFF" "''track''" "(mem_config 0 0)\<lparr>rtype := 1\<rparr>" 0 "mem_config 0 0" 1 0]
  by (simp add: found_entry_def demo_world_def)

text \<open>One callback serves all notifications: registering a different one while one is set is refused;
  resources of a local database cannot be registered; for a shared key the callback is stored and the
  registration is sent to the main loop. Unregistering any shared key removes the callback, whichever
  function the caller names, so the registrations of all other keys lose it too.\<close>

theorem notify_registration:
  assumes "kv_lawful E D R" and "initialized s" and "key_ready E R lid rid user seat ck s"
    and "pipe_rc s \<noteq> - 1"
  shows "(gChangeNotifyCallback s \<noteq> None \<longrightarrow> gChangeNotifyCallback s \<noteq> cb \<longrightarrow>
      pclKeyRegisterNotifyOnChange E j lid rid user seat cb s = Some (EPERS_NOTIFY_NOT_ALLOWED, s)) \<and>
    (storage ck = PersistenceStorage_local E \<longrightarrow>
      pclKeyRegisterNotifyOnChange E j lid rid user seat cb s = Some (EPERS_NOTIFY_NOT_ALLOWED, s) \<and>
      pclKeyUnRegisterNotifyOnChange E j lid rid user seat cb s = Some (EPERS_NOTIFY_NOT_ALLOWED, s)) \<and>
    (storage ck = PersistenceStorage_shared E \<longrightarrow> gChangeNotifyCallback s = None \<longrightarrow>
      (\<exists>s1. pclKeyRegisterNotifyOnChange E j lid rid user seat cb s = Some (0, s1) \<and>
        gChangeNotifyCallback s1 = cb \<and> length (pipe s1) = length (pipe s) + 1 \<and>
        cmd (last (pipe s1)) = CMD_REG_NOTIFY_SIGNAL \<and> params (last (pipe s1)) = [lid, user, seat, 0])) \<and>
    (storage ck = PersistenceStorage_shared E \<longrightarrow>
      (\<exists>s1. pclKeyUnRegisterNotifyOnChange E j lid rid user seat cb s = Some (0, s1) \<and>
        gChangeNotifyCallback s1 = None))"
proof -
  obtain p where c: "key_context E j lid rid user seat s =
     Some ((0, key_info lid user seat ck, key_text E lid rid user seat, p), s)"
    using key_context_ready [OF assms(1,3)] by blast
  have k: "is_key E (key_info lid user seat ck)" "PersistenceStorage_shared E \<noteq> PersistenceStorage_local E"
    using assms(1,3) by (simp_all add: key_ready_def kv_lawful_def consts_ok_def)
  show ?thesis
    using assms(2,4) k
    by (auto simp: pclKeyRegisterNotifyOnChange_def pclKeyUnRegisterNotifyOnChange_def regNotifyOnChange_def
        callback_allowed_def c persistence_notify_on_change_def deliver_eq deliverToMainloop_NM_def)
qed

theorem notify_registration_witness:
  "pclKeyRegisterNotifyOnChange mem_env (mem_config 0 0) 0xFF ''volume'' 1 0 (Some 4) demo_state
     = Some (EPERS_NOTIFY_NOT_ALLOWED, demo_state)"
  using notify_registration [OF mem_env_lawful demo_state_runs(1) demo_ready [of "0xFF" 1 0], of "Some 4" "mem_config 0 0"]
  by (simp add: demo_state_def pcl_start_def)

end
