(* ===== verification/Key_Store.thy ===== *)
theory Key_Store
  imports Key
begin

text \<open>
  The key interface as a whole (\<open>src/persistence_client_library_key.c\<close> over
  \<open>src/persistence_client_library_db_access.c\<close> and \<open>src/persistence_client_library_handle.c\<close>): any sequence of
  calls, by the name of a resource or through handles, behaves as the same sequence on two finite maps, one
  from resources to values and one from open handles to resources. The abstract maps know nothing of
  databases, key texts, handle pools and tables.
\<close>

section \<open>Resources and calls\<close>

datatype resource = Resource (res_lid: u32) (res_id: string) (res_user: u32) (res_seat: u32)

definition res_info :: "resource \<Rightarrow> config_key \<Rightarrow> persistence_info" where
  "res_info r ck = key_info (res_lid r) (res_user r) (res_seat r) ck"

definition res_context :: "resource \<Rightarrow> db_context" where
  "res_context r = \<lparr>ldbid = res_lid r, user_no = res_user r, seat_no = res_seat r\<rparr>"

definition res_key :: "'c pers_consts_scheme \<Rightarrow> resource \<Rightarrow> string" where
  "res_key c r = snprintf (DbKeyMaxLen c) (db_key_text c (res_context r) (res_id r))"

datatype kv_op = Kv_write "u8 list" | Kv_read "u8 list" int | Kv_size | Kv_delete

text \<open>A call of the interface: the return value, and the buffer for a read.\<close>

fun kv_call ::
  "('w, 'e) perscom_scheme \<Rightarrow> config_key \<Rightarrow> resource \<Rightarrow> kv_op \<Rightarrow> 'w pcl \<Rightarrow> ((int \<times> u8 list) \<times> 'w pcl) option" where
  "kv_call E j r (Kv_write d) s =
     map_option (\<lambda>(x, s). ((x, []), s))
       (pclKeyWriteData E j (res_lid r) (res_id r) (res_user r) (res_seat r) d (int (length d)) s)"
| "kv_call E j r (Kv_read buf n) s = pclKeyReadData E j (res_lid r) (res_id r) (res_user r) (res_seat r) buf n s"
| "kv_call E j r Kv_size s =
     map_option (\<lambda>(x, s). ((x, []), s)) (pclKeyGetSize E j (res_lid r) (res_id r) (res_user r) (res_seat r) s)"
| "kv_call E j r Kv_delete s =
     map_option (\<lambda>(x, s). ((x, []), s)) (pclKeyDelete E j (res_lid r) (res_id r) (res_user r) (res_seat r) s)"

text \<open>All calls: by name, or through a handle (there is no deletion through a handle).\<close>

datatype key_api =
  By_name resource kv_op | By_handle int kv_op | Handle_open resource | Handle_close int

fun handle_call ::
  "('w, 'e) perscom_scheme \<Rightarrow> config_key \<Rightarrow> int \<Rightarrow> kv_op \<Rightarrow> 'w pcl \<Rightarrow> ((int \<times> u8 list) \<times> 'w pcl) option" where
  "handle_call E j h (Kv_write d) s =
     map_option (\<lambda>(x, s). ((x, []), s)) (pclKeyHandleWriteData E j h d (int (length d)) s)"
| "handle_call E j h (Kv_read buf n) s = pclKeyHandleReadData E j h buf n s"
| "handle_call E j h Kv_size s = map_option (\<lambda>(x, s). ((x, []), s)) (pclKeyHandleGetSize E j h s)"
| "handle_call E j h Kv_delete s = None"

fun api_step ::
  "('w, 'e) perscom_scheme \<Rightarrow> config_key \<Rightarrow> key_api \<Rightarrow> 'w pcl \<Rightarrow> ((int \<times> u8 list) \<times> 'w pcl) option" where
  "api_step E j (By_name r a) s = kv_call E j r a s"
| "api_step E j (By_handle h a) s = handle_call E j h a s"
| "api_step E j (Handle_open r) s =
     map_option (\<lambda>(x, s). ((x, []), s)) (pclKeyHandleOpen E j (res_lid r) (res_id r) (res_user r) (res_seat r) s)"
| "api_step E j (Handle_close h) s = map_option (\<lambda>(x, s). ((x, []), s)) (pclKeyHandleClose h s)"

fun api_run ::
  "('w, 'e) perscom_scheme \<Rightarrow> config_key \<Rightarrow> key_api list \<Rightarrow> 'w pcl \<Rightarrow> ((int \<times> u8 list) list \<times> 'w pcl) option" where
  "api_run E j [] s = Some ([], s)"
| "api_run E j (a # as) s = do {
     (x, s) \<leftarrow> api_step E j a s;
     (xs, s) \<leftarrow> api_run E j as s;
     Some (x # xs, s)
   }"

section \<open>The abstract map\<close>

type_synonym kv_map = "resource \<Rightarrow> u8 list option"

text \<open>What a call may do to the map \<open>m\<close>: \<open>lim\<close> is the limit for data, \<open>C\<close> the configuration, \<open>df\<close> the default
  values. A write and a deletion may fail in the database; then nothing changes. What a read into a
  buffer that is too small returns is not specified, but it changes nothing either. A deletion is not
  refused for a read-only resource, and a read not for a write-only one.\<close>

definition kv_value :: "kv_map \<Rightarrow> kv_map \<Rightarrow> kv_map" where
  "kv_value df m r = (case m r of Some d \<Rightarrow> Some d | None \<Rightarrow> df r)"

fun kv_spec ::
  "'c pers_consts_scheme \<Rightarrow> int \<Rightarrow> (resource \<Rightarrow> config_key option) \<Rightarrow> kv_map \<Rightarrow> resource \<Rightarrow> kv_op
     \<Rightarrow> kv_map \<Rightarrow> int \<times> u8 list \<Rightarrow> kv_map \<Rightarrow> bool" where
  "kv_spec c lim C df r (Kv_write d) m (x, b) m' \<longleftrightarrow>
     (if lim < int (length d) then x = EPERS_BUFLIMIT \<and> m' = m
      else if map_option permission (C r) = Some (PersistencePermission_ReadOnly c)
      then x = EPERS_RESOURCE_READ_ONLY \<and> m' = m
      else x = int (length d) \<and> m' = m(r \<mapsto> d) \<or> x < 0 \<and> m' = m)"
| "kv_spec c lim C df r (Kv_read buf n) m (x, b) m' \<longleftrightarrow> m' = m \<and>
     (case kv_value df m r of
        Some d \<Rightarrow> int (length d) \<le> n \<longrightarrow> x = int (length d) \<and> b = d @ drop (length d) buf
      | None \<Rightarrow> x = EPERS_NOKEY \<and> b = buf)"
| "kv_spec c lim C df r Kv_size m (x, b) m' \<longleftrightarrow> m' = m \<and>
     x = (case kv_value df m r of Some d \<Rightarrow> int (length d) | None \<Rightarrow> EPERS_NOKEY)"
| "kv_spec c lim C df r Kv_delete m (x, b) m' \<longleftrightarrow>
     (case m r of
        None \<Rightarrow> x = EPERS_NOKEY \<and> m' = m
      | Some d \<Rightarrow> 0 \<le> x \<and> m' = m(r := None) \<or> x \<in> {EPERS_NOKEY, EPERS_DB_ERROR_INTERNAL} \<and> m' = m)"

text \<open>Handles: \<open>H\<close> maps the open ones to their resources, \<open>others\<close> are the numbers that open files hold. A
  handle that is not open is answered with an error and changes nothing. When all 126 handles are taken, opening
  returns -1.\<close>

type_synonym handle_map = "int \<Rightarrow> resource option"

definition bad_handle :: "int \<Rightarrow> int" where
  "bad_handle h = (if 0 < h \<and> h < 128 then EPERS_INVALID_HANDLE else EPERS_MAXHANDLE)"

fun api_spec ::
  "'c pers_consts_scheme \<Rightarrow> int \<Rightarrow> (resource \<Rightarrow> config_key option) \<Rightarrow> kv_map \<Rightarrow> int set \<Rightarrow> key_api
     \<Rightarrow> kv_map \<times> handle_map \<Rightarrow> int \<times> u8 list \<Rightarrow> kv_map \<times> handle_map \<Rightarrow> bool" where
  "api_spec c lim C df others (By_name r a) (m, H) y (m', H') \<longleftrightarrow> kv_spec c lim C df r a m y m' \<and> H' = H"
| "api_spec c lim C df others (By_handle h a) (m, H) y (m', H') \<longleftrightarrow>
     (case H h of
        Some r \<Rightarrow> kv_spec c lim C df r a m y m' \<and> H' = H
      | None \<Rightarrow> y = (bad_handle h, case a of Kv_read buf n \<Rightarrow> buf | _ \<Rightarrow> []) \<and> m' = m \<and> H' = H)"
| "api_spec c lim C df others (Handle_open r) (m, H) y (m', H') \<longleftrightarrow> m' = m \<and>
     (if card (dom H \<union> others) < 126
      then 0 < fst y \<and> fst y < 127 \<and> fst y \<notin> dom H \<union> others \<and> H' = H(fst y \<mapsto> r)
      else fst y = - 1 \<and> H' = H)"
| "api_spec c lim C df others (Handle_close h) (m, H) y (m', H') \<longleftrightarrow> m' = m \<and>
     (case H h of
        Some r \<Rightarrow> fst y = 1 \<and> H' = H(h := None)
      | None \<Rightarrow> fst y = bad_handle h \<and> H' = H)"

inductive api_runs ::
  "'c pers_consts_scheme \<Rightarrow> int \<Rightarrow> (resource \<Rightarrow> config_key option) \<Rightarrow> kv_map \<Rightarrow> int set
     \<Rightarrow> key_api list \<Rightarrow> kv_map \<times> handle_map \<Rightarrow> (int \<times> u8 list) list \<Rightarrow> kv_map \<times> handle_map \<Rightarrow> bool"
  for c lim C df others where
  api_end: "api_runs c lim C df others [] st [] st"
| api_next: "api_spec c lim C df others a st x st1 \<Longrightarrow> api_runs c lim C df others as st1 xs st2
     \<Longrightarrow> api_runs c lim C df others (a # as) st (x # xs) st2"

inductive_simps api_runs_end: "api_runs c lim C df others [] st xs st'"

inductive_simps api_runs_next: "api_runs c lim C df others (a # as) st xs st'"

section \<open>The map that a state stores\<close>

definition stored ::
  "('w, 'e) perscom_scheme \<Rightarrow> 'w db_view \<Rightarrow> (resource \<Rightarrow> config_key option) \<Rightarrow> 'w pcl \<Rightarrow> kv_map" where
  "stored E D C s r = Option.bind (C r) (\<lambda>ck.
     D (world s) (db_handle (res_info r ck) (policy ck) s) (res_key E r))"

definition default_values ::
  "('w, 'e) perscom_scheme \<Rightarrow> 'w db_view \<Rightarrow> (resource \<Rightarrow> config_key option) \<Rightarrow> 'w pcl \<Rightarrow> kv_map" where
  "default_values E D C s r = Option.bind (C r) (\<lambda>ck.
     case D (world s) (db_handle (res_info r ck) (PersistenceDB_confdefault E) s) (res_id r) of
       Some d \<Rightarrow> Some d
     | None \<Rightarrow> D (world s) (db_handle (res_info r ck) (PersistenceDB_default E) s) (res_id r))"

text \<open>The resources of \<open>C\<close> are configured as keys of open databases; ids contain no separator and the keys
  fit; resources of different databases have different handles.\<close>

definition res_ready ::
  "('w, 'e) perscom_scheme \<Rightarrow> 'w rct_view \<Rightarrow> resource \<Rightarrow> config_key \<Rightarrow> 'w pcl \<Rightarrow> bool" where
  "res_ready E R r ck s \<longleftrightarrow> key_ready E R (res_lid r) (res_id r) (res_user r) (res_seat r) ck s"

definition res_ok :: "('w, 'e) perscom_scheme \<Rightarrow> 'w rct_view \<Rightarrow> resource \<Rightarrow> config_key \<Rightarrow> 'w pcl \<Rightarrow> bool" where
  "res_ok E R r ck s \<longleftrightarrow> res_ready E R r ck s \<and> CHR ''/'' \<notin> set (res_id r) \<and>
     length (db_key_text E (res_context r) (res_id r)) < DbKeyMaxLen E \<and>
     (\<forall>t \<in> {policy ck, PersistenceDB_confdefault E, PersistenceDB_default E}.
        db_open (res_info r ck) t s \<and> 0 \<le> db_handle (res_info r ck) t s)"

definition store_ok ::
  "('w, 'e) perscom_scheme \<Rightarrow> 'w rct_view \<Rightarrow> (resource \<Rightarrow> config_key option) \<Rightarrow> 'w pcl \<Rightarrow> bool" where
  "store_ok E R C s \<longleftrightarrow> initialized s \<and> access_permitted s \<and>
     (\<forall>r ck. C r = Some ck \<longrightarrow> res_ok E R r ck s) \<and>
     (\<forall>r1 r2 c1 c2. C r1 = Some c1 \<longrightarrow> C r2 = Some c2 \<longrightarrow>
        db_handle (res_info r1 c1) (policy c1) s = db_handle (res_info r2 c2) (policy c2) s \<longrightarrow>
        same_database (res_lid r1) (res_lid r2))"

text \<open>The open key handles of a state, and the other numbers of the pool.\<close>

definition handle_res :: "'w pcl \<Rightarrow> handle_map" where
  "handle_res s x =
     (let k = gKeyHandleArray (hnd s) (nat x) in
      if 0 < x \<and> x < 128 \<and> resource_id k \<noteq> [] then Some (Resource (kh_ldbid k) (resource_id k) (kh_user_no k) (kh_seat_no k))
      else None)"

definition other_handles :: "'w pcl \<Rightarrow> int set" where
  "other_handles s = live_handles (hnd s) - dom (handle_res s)"

text \<open>The handles are sound and belong to configured resources, which have a non-empty id.\<close>

definition api_ok ::
  "('w, 'e) perscom_scheme \<Rightarrow> 'w rct_view \<Rightarrow> (resource \<Rightarrow> config_key option) \<Rightarrow> 'w pcl \<Rightarrow> bool" where
  "api_ok E R C s \<longleftrightarrow> store_ok E R C s \<and> handles_ok (hnd s) \<and> ran (handle_res s) \<subseteq> dom C \<and> (\<forall>r \<in> dom C. res_id r \<noteq> [])"

text \<open>Calls with sizes that are an \<open>int\<close>, on configured resources.\<close>

fun kv_small :: "kv_op \<Rightarrow> bool" where
  "kv_small (Kv_write d) = (length d < 2 ^ 31)"
| "kv_small _ = True"

fun api_call_ok :: "(resource \<Rightarrow> config_key option) \<Rightarrow> key_api \<Rightarrow> bool" where
  "api_call_ok C (By_name r a) = (C r \<noteq> None \<and> kv_small a)"
| "api_call_ok C (By_handle h a) = (a \<noteq> Kv_delete \<and> kv_small a)"
| "api_call_ok C (Handle_open r) = (C r \<noteq> None)"
| "api_call_ok C (Handle_close h) = True"

section \<open>Frames\<close>

text \<open>What every call leaves as it was.\<close>

definition kv_frame :: "'w rct_view \<Rightarrow> 'w pcl \<Rightarrow> 'w pcl \<Rightarrow> bool" where
  "kv_frame R s s' \<longleftrightarrow> same_control s s' \<and> gHandlesDB s' = gHandlesDB s \<and> gHandlesDBCreated s' = gHandlesDBCreated s \<and>
     gMaxKeyValDataSize s' = gMaxKeyValDataSize s \<and> hnd s' = hnd s \<and> R (world s') = R (world s)"

lemma kv_frame_refl [simp]: "kv_frame R s s"
  by (simp add: kv_frame_def same_control_def)

lemma kv_frame_db:
  "kv_frame R s s' \<Longrightarrow> db_handle i t s' = db_handle i t s" "kv_frame R s s' \<Longrightarrow> db_open i t s' = db_open i t s"
  by (simp_all add: kv_frame_def db_handle_def db_open_def)

lemma kv_frame_notify:
  "kv_frame R s (snd (pers_send_Notification_Signal c k ctx reason s))"
  by (auto simp: kv_frame_def same_control_def send_notification pers_send_Notification_Signal_def
      deliver_eq deliverToMainloop_NM_def)

lemma kv_frame_world: "R w = R (world s) \<Longrightarrow> kv_frame R s (s\<lparr>world := w\<rparr>)"
  by (simp add: kv_frame_def same_control_def)

lemma kv_frame_trans: "kv_frame R a b \<Longrightarrow> kv_frame R b c \<Longrightarrow> kv_frame R a c"
  by (auto simp: kv_frame_def same_control_def)

lemma kv_frame_sent:
  "R w = R (world s) \<Longrightarrow> kv_frame R s (snd (pers_send_Notification_Signal c k ctx reason (s\<lparr>world := w\<rparr>)))"
  by (rule kv_frame_trans [OF kv_frame_world kv_frame_notify])

lemma res_ok_frame:
  assumes "res_ok E R r ck s" and "kv_frame R s s'"
  shows "res_ok E R r ck s'"
proof -
  have "res_ready E R r ck s'"
    using assms key_ready_keeps [of E R "res_lid r" "res_id r" "res_user r" "res_seat r" ck s s']
    by (simp add: res_ok_def res_ready_def kv_frame_def same_control_def)
  then show ?thesis using assms(1) by (simp add: res_ok_def kv_frame_db [OF assms(2)])
qed

lemma store_ok_frame:
  assumes "store_ok E R C s" and "kv_frame R s s'"
  shows "store_ok E R C s'"
proof -
  have "initialized s' = initialized s" "access_permitted s' = access_permitted s"
    using assms(2) by (simp_all add: kv_frame_def same_control_def initialized_def access_permitted_def isAccessLocked_def)
  moreover have "\<forall>r ck. C r = Some ck \<longrightarrow> res_ok E R r ck s'"
    using assms(1) res_ok_frame [OF _ assms(2)] unfolding store_ok_def by blast
  ultimately show ?thesis using assms(1) unfolding store_ok_def kv_frame_db(1) [OF assms(2)] by blast
qed

section \<open>Different resources, different places\<close>

lemma res_apart:
  assumes "names_ok E" and "store_ok E R C s" and "C r1 = Some c1" and "C r2 = Some c2" and "r1 \<noteq> r2"
    and "db_handle (res_info r1 c1) (policy c1) s = db_handle (res_info r2 c2) (policy c2) s"
  shows "res_key E r1 \<noteq> res_key E r2"
proof
  assume eq: "res_key E r1 = res_key E r2"
  have ok: "res_ok E R r1 c1 s" "res_ok E R r2 c2 s" and "same_database (res_lid r1) (res_lid r2)"
    using assms(2-4,6) by (auto simp: store_ok_def)
  moreover have "res_lid r = ldbid (res_context r)" for r by (simp add: res_context_def)
  ultimately have "res_context r1 = res_context r2 \<and> res_id r1 = res_id r2"
    using db_key_injective [OF assms(1), of "res_context r1" "res_context r2" "res_id r1" "res_id r2"] eq
    by (simp add: res_ok_def res_key_def)
  then show False using assms(5) by (auto simp: res_context_def resource.expand)
qed

text \<open>A database key starts with a separator, so it is never the id of a resource.\<close>

lemma res_key_not_id:
  assumes "names_ok E" and "res_ok E R r1 c1 s" and "CHR ''/'' \<notin> set i"
  shows "res_key E r1 \<noteq> i"
proof -
  have "res_key E r1 = path_of (key_components (res_context r1) (res_id r1))"
    using assms(2) db_key_components [OF assms(1)] by (simp add: res_key_def res_ok_def snprintf_fits)
  moreover have "key_components (res_context r1) (res_id r1) \<noteq> []"
    by (simp add: key_components_def Let_def)
  ultimately have "CHR ''/'' \<in> set (res_key E r1)"
    by (cases "key_components (res_context r1) (res_id r1)") (simp_all add: path_of_def)
  then show ?thesis using assms(3) by blast
qed

text \<open>A change of the database at the place of one resource.\<close>

lemma stored_change:
  assumes "names_ok E" and "store_ok E R C s" and "C r = Some ck" and "kv_frame R s s'"
    and d: "\<forall>h' k'. (h', k') \<noteq> (db_handle (res_info r ck) (policy ck) s, res_key E r) \<longrightarrow>
        D (world s') h' k' = D (world s) h' k'"
  shows "stored E D C s' = (stored E D C s)(r := D (world s') (db_handle (res_info r ck) (policy ck) s) (res_key E r))"
    and "default_values E D C s' = default_values E D C s"
proof -
  note fr = kv_frame_db [OF assms(4)]
  show "stored E D C s' = (stored E D C s)(r := D (world s') (db_handle (res_info r ck) (policy ck) s) (res_key E r))"
  proof
    fix r'
    show "stored E D C s' r' = ((stored E D C s)(r := D (world s') (db_handle (res_info r ck) (policy ck) s) (res_key E r))) r'"
    proof (cases "C r'")
      case (Some ck')
      then show ?thesis using assms(3) d res_apart [OF assms(1,2) Some assms(3)] by (auto simp: stored_def fr)
    qed (use assms(3) in \<open>auto simp: stored_def\<close>)
  qed
  have ok: "res_ok E R r ck s" "\<And>r' ck'. C r' = Some ck' \<Longrightarrow> CHR ''/'' \<notin> set (res_id r')"
    using assms(2,3) by (auto simp: store_ok_def res_ok_def)
  have "D (world s') h (res_id r') = D (world s) h (res_id r')" if "C r' = Some ck'" for h r' ck'
    using d res_key_not_id [OF assms(1) ok(1) ok(2) [OF that]] by auto
  then show "default_values E D C s' = default_values E D C s"
    by (intro ext) (auto simp: default_values_def fr split: option.split Option.bind_splits)
qed

section \<open>The calls\<close>

lemma res_facts:
  assumes "kv_lawful E D R" and "res_ok E R r ck s"
  shows "is_key E (res_info r ck)" "is_db_storage E (res_info r ck)" "slot_ok (res_info r ck)"
    "storage_valid E (res_info r ck)" "storage ck \<noteq> PersistenceStorage_custom E" "configKey (res_info r ck) = ck"
    "context_of (res_info r ck) = res_context r"
    "\<forall>t \<in> {policy ck, PersistenceDB_confdefault E, PersistenceDB_default E}. \<forall>p.
       database_get E (res_info r ck) p t s = Some (db_handle (res_info r ck) t s, s) \<and> 0 \<le> db_handle (res_info r ck) t s"
proof -
  have c: "consts_ok E" using assms(1) by (simp add: kv_lawful_def)
  show i: "is_key E (res_info r ck)" "is_db_storage E (res_info r ck)" "slot_ok (res_info r ck)"
    "configKey (res_info r ck) = ck" "context_of (res_info r ck) = res_context r"
    using assms(2) by (simp_all add: res_ok_def res_ready_def key_ready_def res_info_def res_context_def key_info_def)
  then show "storage_valid E (res_info r ck)" "storage ck \<noteq> PersistenceStorage_custom E"
    using c by (auto simp: storage_valid_def is_db_storage_def consts_ok_def)
  have "type_ok E (policy ck)" using assms(2) by (simp add: res_ok_def res_ready_def key_ready_def)
  moreover have "type_ok E (PersistenceDB_confdefault E)" "type_ok E (PersistenceDB_default E)"
    using policy_bounds [OF c] by (simp_all add: type_ok_def)
  ultimately show "\<forall>t \<in> {policy ck, PersistenceDB_confdefault E, PersistenceDB_default E}. \<forall>p.
       database_get E (res_info r ck) p t s = Some (db_handle (res_info r ck) t s, s) \<and> 0 \<le> db_handle (res_info r ck) t s"
    using assms(2) i(3) by (auto simp: res_ok_def database_get_cached)
qed

lemma res_context_found:
  assumes "kv_lawful E D R" and "res_ok E R r ck s"
  obtains p where "key_context E j (res_lid r) (res_id r) (res_user r) (res_seat r) s =
     Some ((0, res_info r ck, res_key E r, p), s)"
  using key_context_ready [OF assms(1), of "res_lid r" "res_id r" "res_user r" "res_seat r" ck s j] assms(2)
  by (auto simp: res_ok_def res_ready_def res_info_def res_key_def res_context_def key_text_def)

lemma crc_defined: "length d < 2 ^ 31 \<Longrightarrow> pclCrc32 0 (Some d) (size_of_int (int (length d))) = Some (crc32_bytes 0 d)"
  using pclCrc32_bytes [of 0 d] by (simp add: size_of_int_def)

text \<open>What a call must achieve.\<close>

definition kv_refines ::
  "('w, 'e) perscom_scheme \<Rightarrow> 'w db_view \<Rightarrow> 'w rct_view \<Rightarrow> config_key \<Rightarrow> (resource \<Rightarrow> config_key option)
     \<Rightarrow> 'w pcl \<Rightarrow> resource \<Rightarrow> kv_op \<Rightarrow> bool" where
  "kv_refines E D R j C s r a \<longleftrightarrow> (\<exists>x s'. kv_call E j r a s = Some (x, s') \<and> kv_frame R s s' \<and>
     default_values E D C s' = default_values E D C s \<and>
     kv_spec E (gMaxKeyValDataSize s) C (default_values E D C s) r a (stored E D C s) x (stored E D C s'))"

lemma write_refines:
  assumes law: "kv_lawful E D R" and "names_ok E" and ok: "store_ok E R C s" and C: "C r = Some ck" and "length d < 2 ^ 31"
  shows "kv_refines E D R j C s r (Kv_write d)"
proof -
  have r: "res_ok E R r ck s" and run: "initialized s" "access_permitted s" using ok C by (auto simp: store_ok_def)
  obtain p where c: "key_context E j (res_lid r) (res_id r) (res_user r) (res_seat r) s =
     Some ((0, res_info r ck, res_key E r, p), s)" using res_context_found [OF law r] by blast
  note f = res_facts [OF law r]
  let ?h = "db_handle (res_info r ck) (policy ck) s"
  have g: "database_get E (res_info r ck) p (policy ck) s = Some (?h, s)" "0 \<le> ?h" using f(8) by simp_all
  obtain x w where wr: "persComDbWriteKey E ?h (res_key E r) d (int (length d)) (world s) = (x, w)" by fastforce
  have "db_write_law E D R" using law by (simp add: kv_lawful_def)
  note wl = this [unfolded db_write_law_def, rule_format, OF wr]
  define s' where "s' = (if x < 0 \<or> storage ck \<noteq> PersistenceStorage_shared E then s\<lparr>world := w\<rparr>
    else snd (pers_send_Notification_Signal E (res_id r) (res_context r) pclNotifyStatus_changed (s\<lparr>world := w\<rparr>)))"
  have s': "kv_frame R s s'" "world s' = w"
    using wl by (auto simp: s'_def send_notification intro: kv_frame_world kv_frame_sent)
  have set: "persistence_set_data E p (res_key E r) (res_id r) (res_info r ck) d (int (length d)) s = Some (x, s')"
    using f g wr by (auto simp: persistence_set_data_def s'_def Let_def case_prod_beta send_notification)
  have st: "stored E D C s' = (stored E D C s)(r := D w ?h (res_key E r))" "default_values E D C s' = default_values E D C s"
    using stored_change [OF assms(2) ok C s'(1), of D] wl s'(2) by auto
  have "stored E D C s r = D (world s) ?h (res_key E r)" using C by (simp add: stored_def)
  then have m: "0 \<le> x \<and> x = int (length d) \<and> stored E D C s' = (stored E D C s)(r \<mapsto> d) \<or> x < 0 \<and> stored E D C s' = stored E D C s"
    using wl st(1) by (cases "x < 0") auto
  show ?thesis
  proof (cases "int (length d) \<le> gMaxKeyValDataSize s \<and> permission ck \<noteq> PersistencePermission_ReadOnly E")
    case True
    then have "kv_call E j r (Kv_write d) s = Some ((x, []), s')"
      using run f crc_defined [OF assms(5)] set by (simp add: pclKeyWriteData_def c)
    then show ?thesis using True s'(1) st(2) m C by (auto simp: kv_refines_def)
  next
    case False
    then show ?thesis using run f C by (auto simp: kv_refines_def pclKeyWriteData_def c)
  qed
qed

lemma delete_refines:
  assumes law: "kv_lawful E D R" and "names_ok E" and ok: "store_ok E R C s" and C: "C r = Some ck"
  shows "kv_refines E D R j C s r Kv_delete"
proof -
  have r: "res_ok E R r ck s" and run: "initialized s" "access_permitted s" using ok C by (auto simp: store_ok_def)
  obtain p where c: "key_context E j (res_lid r) (res_id r) (res_user r) (res_seat r) s =
     Some ((0, res_info r ck, res_key E r, p), s)" using res_context_found [OF law r] by blast
  note f = res_facts [OF law r]
  let ?h = "db_handle (res_info r ck) (policy ck) s"
  have g: "database_get E (res_info r ck) p (policy ck) s = Some (?h, s)" "0 \<le> ?h" using f(8) by simp_all
  obtain x0 w where wr: "persComDbDeleteKey E ?h (res_key E r) (world s) = (x0, w)" by fastforce
  have "db_delete_law E D R" and neg: "PERS_COM_ERR_NOT_FOUND E < 0" using law by (simp_all add: kv_lawful_def consts_ok_def)
  note wl = this(1) [unfolded db_delete_law_def, rule_format, OF wr]
  define x where "x = (if x0 < 0 then if x0 = PERS_COM_ERR_NOT_FOUND E then EPERS_NOKEY else EPERS_DB_ERROR_INTERNAL else x0)"
  define s' where "s' = (if storage ck \<noteq> PersistenceStorage_shared E then s\<lparr>world := w\<rparr>
    else snd (pers_send_Notification_Signal E (res_id r) (res_context r) pclNotifyStatus_deleted (s\<lparr>world := w\<rparr>)))"
  have s': "kv_frame R s s'" "world s' = w"
    using wl by (auto simp: s'_def send_notification intro: kv_frame_world kv_frame_sent)
  have "kv_call E j r Kv_delete s = Some ((x, []), s')"
    using run f g wr by (auto simp: pclKeyDelete_def c persistence_delete_data_def s'_def x_def Let_def)
  moreover have st: "stored E D C s' = (stored E D C s)(r := D w ?h (res_key E r))" "default_values E D C s' = default_values E D C s"
    using stored_change [OF assms(2) ok C s'(1), of D] wl s'(2) by auto
  moreover have "stored E D C s r = D (world s) ?h (res_key E r)" using C by (simp add: stored_def)
  ultimately show ?thesis
    using s'(1) wl neg by (cases "x0 < 0") (auto simp: kv_refines_def x_def split: option.split)
qed

text \<open>Reading never changes the world, and the buffer of an unsuccessful read of a missing key is untouched.\<close>

lemma read_key:
  assumes "kv_lawful E D R"
  obtains x b where "persComDbReadKey E h k buf n (world s) = ((x, b), world s)"
    "case D (world s) h k of Some d \<Rightarrow> int (length d) \<le> n \<longrightarrow> x = int (length d) \<and> b = d @ drop (length d) buf
       | None \<Rightarrow> x = PERS_COM_ERR_NOT_FOUND E \<and> b = buf"
proof -
  have "db_read_law E D" using assms by (simp add: kv_lawful_def)
  note l = this [unfolded db_read_law_def, rule_format, of h k buf n "world s"]
  obtain x b w where r: "persComDbReadKey E h k buf n (world s) = ((x, b), w)" by (metis surj_pair)
  show ?thesis by (rule that [of x b]) (use r l in \<open>auto split: option.split\<close>)
qed

definition read_as :: "u8 list option \<Rightarrow> u8 list \<Rightarrow> int \<Rightarrow> int \<times> u8 list \<Rightarrow> bool" where
  "read_as v buf n r \<longleftrightarrow> (case v of
     Some d \<Rightarrow> int (length d) \<le> n \<longrightarrow> fst r = int (length d) \<and> snd r = d @ drop (length d) buf
   | None \<Rightarrow> fst r = EPERS_NOKEY \<and> snd r = buf)"

lemma defaults_read:
  assumes law: "kv_lawful E D R" and r: "res_ok E R r ck s" and C: "C r = Some ck"
  shows "\<exists>y. pers_get_defaults E p (res_id r) (res_info r ck) buf n PersGetDefault_Data s = Some (y, s) \<and>
     read_as (default_values E D C s r) buf n y"
proof -
  note f = res_facts(8) [OF law r]
  have neg: "PERS_COM_ERR_NOT_FOUND E < 0" using law by (simp add: kv_lawful_def consts_ok_def)
  let ?h = "db_handle (res_info r ck) (PersistenceDB_confdefault E) s"
  let ?k = "db_handle (res_info r ck) (PersistenceDB_default E) s"
  obtain x b where 1: "persComDbReadKey E ?h (res_id r) buf n (world s) = ((x, b), world s)"
    "case D (world s) ?h (res_id r) of Some d \<Rightarrow> int (length d) \<le> n \<longrightarrow> x = int (length d) \<and> b = d @ drop (length d) buf
       | None \<Rightarrow> x = PERS_COM_ERR_NOT_FOUND E \<and> b = buf"
    by (rule read_key [OF law])
  obtain x' b' where 2: "persComDbReadKey E ?k (res_id r) b n (world s) = ((x', b'), world s)"
    "case D (world s) ?k (res_id r) of Some d \<Rightarrow> int (length d) \<le> n \<longrightarrow> x' = int (length d) \<and> b' = d @ drop (length d) b
       | None \<Rightarrow> x' = PERS_COM_ERR_NOT_FOUND E \<and> b' = b"
    by (rule read_key [OF law])
  have w: "s\<lparr>world := world s\<rparr> = s" by simp
  show ?thesis
    using f 1 2 C neg
    by (auto simp: pers_get_defaults_def read_as_def default_values_def w Let_def split: option.splits)
qed

lemma defaults_size:
  assumes law: "kv_lawful E D R" and r: "res_ok E R r ck s" and C: "C r = Some ck"
  shows "pers_get_defaults E p (res_id r) (res_info r ck) [] 0 PersGetDefault_Size s =
     Some ((case default_values E D C s r of Some d \<Rightarrow> int (length d) | None \<Rightarrow> EPERS_NOKEY, []), s)"
proof -
  note f = res_facts(8) [OF law r]
  have neg: "PERS_COM_ERR_NOT_FOUND E < 0" and l: "db_size_law E D" using law by (simp_all add: kv_lawful_def consts_ok_def)
  have w: "s\<lparr>world := world s\<rparr> = s" by simp
  show ?thesis
    using f C neg l
    by (auto simp: pers_get_defaults_def db_size_law_def default_values_def w Let_def split: option.splits)
qed

lemma read_refines:
  assumes law: "kv_lawful E D R" and ok: "store_ok E R C s" and C: "C r = Some ck"
  shows "kv_refines E D R j C s r (Kv_read buf n)"
proof -
  have r: "res_ok E R r ck s" and run: "initialized s" "access_permitted s" using ok C by (auto simp: store_ok_def)
  obtain p where c: "key_context E j (res_lid r) (res_id r) (res_user r) (res_seat r) s =
     Some ((0, res_info r ck, res_key E r, p), s)" using res_context_found [OF law r] by blast
  note f = res_facts [OF law r]
  let ?h = "db_handle (res_info r ck) (policy ck) s"
  have neg: "PERS_COM_ERR_NOT_FOUND E < 0" using law by (simp add: kv_lawful_def consts_ok_def)
  have g: "database_get E (res_info r ck) p (policy ck) s = Some (?h, s)" "0 \<le> ?h" using f(8) by simp_all
  have st: "stored E D C s r = D (world s) ?h (res_key E r)" using C by (simp add: stored_def)
  obtain x b where x: "persComDbReadKey E ?h (res_key E r) buf n (world s) = ((x, b), world s)"
    "case D (world s) ?h (res_key E r) of Some d \<Rightarrow> int (length d) \<le> n \<longrightarrow> x = int (length d) \<and> b = d @ drop (length d) buf
       | None \<Rightarrow> x = PERS_COM_ERR_NOT_FOUND E \<and> b = buf"
    by (rule read_key [OF law])
  obtain y where y: "pers_get_defaults E p (res_id r) (res_info r ck) b n PersGetDefault_Data s = Some (y, s)"
    "read_as (default_values E D C s r) b n y"
    using defaults_read [where C = C and r = r and ck = ck, OF law r C] by blast
  have w: "s\<lparr>world := world s\<rparr> = s" by simp
  let ?z = "if x < 0 then y else (x, b)"
  have "kv_call E j r (Kv_read buf n) s = Some (?z, s)"
    using run f g x(1) y(1) by (simp add: pclKeyReadData_def c persistence_get_data_def w Let_def)
  moreover have "kv_spec E (gMaxKeyValDataSize s) C (default_values E D C s) r (Kv_read buf n) (stored E D C s) ?z (stored E D C s)"
    using x(2) y(2) neg st by (cases y) (auto simp: kv_value_def read_as_def split: option.splits)
  ultimately show ?thesis by (auto simp: kv_refines_def)
qed

lemma size_refines:
  assumes law: "kv_lawful E D R" and ok: "store_ok E R C s" and C: "C r = Some ck"
  shows "kv_refines E D R j C s r Kv_size"
proof -
  have r: "res_ok E R r ck s" and run: "initialized s" using ok C by (auto simp: store_ok_def)
  obtain p where c: "key_context E j (res_lid r) (res_id r) (res_user r) (res_seat r) s =
     Some ((0, res_info r ck, res_key E r, p), s)" using res_context_found [OF law r] by blast
  note f = res_facts [OF law r]
  let ?h = "db_handle (res_info r ck) (policy ck) s"
  have neg: "PERS_COM_ERR_NOT_FOUND E < 0" and l: "db_size_law E D" using law by (simp_all add: kv_lawful_def consts_ok_def)
  have g: "database_get E (res_info r ck) p (policy ck) s = Some (?h, s)" "0 \<le> ?h" using f(8) by simp_all
  have st: "stored E D C s r = D (world s) ?h (res_key E r)" using C by (simp add: stored_def)
  have w: "s\<lparr>world := world s\<rparr> = s" by simp
  have "kv_call E j r Kv_size s =
      Some ((case kv_value (default_values E D C s) (stored E D C s) r of Some d \<Rightarrow> int (length d) | None \<Rightarrow> EPERS_NOKEY, []), s)"
    using run f g l neg st defaults_size [where C = C and r = r and ck = ck, OF law r C, of p]
    by (auto simp: pclKeyGetSize_def c persistence_get_data_size_def db_size_law_def w kv_value_def Let_def split: option.split)
  then show ?thesis by (auto simp: kv_refines_def)
qed

lemma call_refines:
  assumes "kv_lawful E D R" and "names_ok E" and "store_ok E R C s" and "r \<in> dom C" and "kv_small a"
  shows "kv_refines E D R j C s r a"
proof -
  obtain ck where "C r = Some ck" using assms(4) by blast
  then show ?thesis
    using assms by (cases a) (simp_all add: write_refines delete_refines read_refines size_refines)
qed

section \<open>Handles\<close>

lemma db_hnd [simp]:
  "db_handle i t (s\<lparr>hnd := h\<rparr>) = db_handle i t s" "db_open i t (s\<lparr>hnd := h\<rparr>) = db_open i t s"
  by (simp_all add: db_handle_def db_open_def)

lemma stored_hnd [simp]:
  "stored E D C (s\<lparr>hnd := h\<rparr>) = stored E D C s" "default_values E D C (s\<lparr>hnd := h\<rparr>) = default_values E D C s"
  "store_ok E R C (s\<lparr>hnd := h\<rparr>) = store_ok E R C s"
  by (simp_all add: stored_def default_values_def store_ok_def res_ok_def res_ready_def key_ready_def found_entry_def
      initialized_def access_permitted_def isAccessLocked_def fun_eq_iff cong: option.case_cong)

lemma handle_res_hnd: "hnd s' = hnd s \<Longrightarrow> handle_res s' = handle_res s \<and> other_handles s' = other_handles s"
  by (auto simp: handle_res_def other_handles_def fun_eq_iff)

lemma handle_dom: "handles_ok (hnd s) \<Longrightarrow> dom (handle_res s) \<union> other_handles s = live_handles (hnd s)"
  by (auto simp: handles_ok_def other_handles_def handle_res_def Let_def split: if_splits)

lemma with_handle:
  assumes "initialized s" and "handles_ok (hnd s)"
  shows "with_key_handle x bad f s = (case handle_res s x of
      Some r \<Rightarrow> f \<lparr>resource_id = res_id r, kh_ldbid = res_lid r, kh_user_no = res_user r, kh_seat_no = res_seat r\<rparr> s
    | None \<Rightarrow> Some (bad (bad_handle x), s))"
proof (cases "0 < x \<and> x < 128")
  case True
  then have "get_key_handle_data x key_handle_zero (hnd s) = Some (0, gKeyHandleArray (hnd s) (nat x))"
    using assms(2) get_key_handle_data_ok by (simp add: handles_ok_def)
  then show ?thesis using assms(1) True
    by (cases "gKeyHandleArray (hnd s) (nat x)") (simp add: with_key_handle_def handle_res_def bad_handle_def Let_def)
next
  case False
  then have "get_key_handle_data x key_handle_zero (hnd s) = Some (- 1, key_handle_zero)"
    by (intro get_key_handle_data_bad) auto
  then show ?thesis using assms(1) False by (auto simp: with_key_handle_def handle_res_def bad_handle_def)
qed

text \<open>What a call of the whole interface must achieve.\<close>

definition api_refines ::
  "('w, 'e) perscom_scheme \<Rightarrow> 'w db_view \<Rightarrow> 'w rct_view \<Rightarrow> config_key \<Rightarrow> (resource \<Rightarrow> config_key option)
     \<Rightarrow> 'w pcl \<Rightarrow> key_api \<Rightarrow> bool" where
  "api_refines E D R j C s a \<longleftrightarrow> (\<exists>x s'. api_step E j a s = Some (x, s') \<and> api_ok E R C s' \<and>
     gMaxKeyValDataSize s' = gMaxKeyValDataSize s \<and>
     default_values E D C s' = default_values E D C s \<and> other_handles s' = other_handles s \<and>
     api_spec E (gMaxKeyValDataSize s) C (default_values E D C s) (other_handles s) a
       (stored E D C s, handle_res s) x (stored E D C s', handle_res s'))"

lemma api_ok_frame: "api_ok E R C s \<Longrightarrow> kv_frame R s s' \<Longrightarrow> api_ok E R C s'"
  using handle_res_hnd [of s' s] store_ok_frame [of E R C s s'] by (auto simp: api_ok_def kv_frame_def)

lemma by_name_refines:
  assumes "api_ok E R C s" and "kv_refines E D R j C s r a"
  shows "\<exists>x s'. kv_call E j r a s = Some (x, s') \<and> api_ok E R C s' \<and> gMaxKeyValDataSize s' = gMaxKeyValDataSize s \<and>
     default_values E D C s' = default_values E D C s \<and> other_handles s' = other_handles s \<and> handle_res s' = handle_res s \<and>
     kv_spec E (gMaxKeyValDataSize s) C (default_values E D C s) r a (stored E D C s) x (stored E D C s')"
proof -
  obtain x s' where x: "kv_call E j r a s = Some (x, s')" "kv_frame R s s'" "default_values E D C s' = default_values E D C s"
     "kv_spec E (gMaxKeyValDataSize s) C (default_values E D C s) r a (stored E D C s) x (stored E D C s')"
    using assms(2) by (auto simp: kv_refines_def)
  moreover have "hnd s' = hnd s" "gMaxKeyValDataSize s' = gMaxKeyValDataSize s" using x(2) by (simp_all add: kv_frame_def)
  ultimately show ?thesis using api_ok_frame [OF assms(1) x(2)] handle_res_hnd by blast
qed

lemma handle_call_open:
  assumes "initialized s" and "handles_ok (hnd s)" and "handle_res s x = Some r" and "a \<noteq> Kv_delete"
  shows "handle_call E j x a s = kv_call E j r a s"
  using assms(3,4) by (cases a)
    (simp_all add: pclKeyHandleWriteData_def pclKeyHandleReadData_def pclKeyHandleGetSize_def with_handle [OF assms(1,2)])

lemma handle_call_bad:
  assumes "initialized s" and "handles_ok (hnd s)" and "handle_res s x = None" and "a \<noteq> Kv_delete"
  shows "handle_call E j x a s = Some ((bad_handle x, case a of Kv_read buf n \<Rightarrow> buf | _ \<Rightarrow> []), s)"
  using assms(3,4) by (cases a)
    (simp_all add: pclKeyHandleWriteData_def pclKeyHandleReadData_def pclKeyHandleGetSize_def with_handle [OF assms(1,2)])

text \<open>The name of a resource fits into the table of the handles.\<close>

lemma id_fits: "res_ok E R r ck s \<Longrightarrow> length (res_id r) < DbResIDMaxLen E"
  by (auto simp: res_ok_def db_key_text_def DbKeyMaxLen_def DbResIDMaxLen_def Let_def split: if_splits)

lemma open_refines:
  assumes law: "kv_lawful E D R" and ok: "api_ok E R C s" and C: "C r = Some ck"
  shows "api_refines E D R j C s (Handle_open r)"
proof -
  have r: "res_ok E R r ck s" and run: "initialized s" and h: "handles_ok (hnd s)" and ne: "res_id r \<noteq> []"
    using ok C by (auto simp: api_ok_def store_ok_def)
  obtain p where c: "key_context E j (res_lid r) (res_id r) (res_user r) (res_seat r) s =
     Some ((0, res_info r ck, res_key E r, p), s)" using res_context_found [OF law r] by blast
  note f = res_facts [OF law r]
  have inv: "pool_inv (hnd s)" "mutex_rc (hnd s) gKeyHandleAccessMtx = 0" using h by (simp_all add: handles_ok_def)
  note live = handle_dom [OF h]
  show ?thesis
  proof (cases "card (live_handles (hnd s)) < 126")
    case True
    obtain x h' where a: "get_persistence_handle_idx (hnd s) = Some (x, h')" "0 < x" "x \<notin> live_handles (hnd s)"
        "pool_inv h'" "live_handles h' = insert x (live_handles (hnd s))"
      using alloc_fresh_model [OF inv(1) True] by blast
    have x: "x < 127" using live_range [OF a(4)] a(5) by blast
    note fr = alloc_frame [OF a(1)]
    let ?e = "\<lparr>resource_id = res_id r, kh_ldbid = res_lid r, kh_user_no = res_user r, kh_seat_no = res_seat r\<rparr>"
    let ?h1 = "h'\<lparr>gKeyHandleArray := (gKeyHandleArray h')(nat x := ?e)\<rparr>"
    let ?s1 = "s\<lparr>hnd := ?h1\<rparr>"
    have "set_key_handle_data E x (res_id r) (res_lid r) (res_user r) (res_seat r) h' = Some (x, ?h1)"
      using set_key_handle_data_ok [of h' x E "res_id r" "res_lid r" "res_user r" "res_seat r"] fr inv(2) a(2) x id_fits [OF r] by simp
    then have step: "api_step E j (Handle_open r) s = Some ((x, []), ?s1)"
      using run f by (simp add: pclKeyHandleOpen_def c a(1))
    have res: "handle_res ?s1 = (handle_res s)(x \<mapsto> r)"
      using a(2) x fr ne by (auto simp: handle_res_def fun_eq_iff Let_def)
    have "handles_ok ?h1" using h a fr by (auto simp: handles_ok_def)
    moreover have "ran ((handle_res s)(x \<mapsto> r)) \<subseteq> dom C" using ok C by (auto simp: api_ok_def ran_def)
    ultimately have "api_ok E R C ?s1" using ok res by (simp add: api_ok_def)
    moreover have "other_handles ?s1 = other_handles s" using a(3,5) live by (auto simp: other_handles_def res)
    ultimately show ?thesis using step res True a(2,3) x live by (auto simp: api_refines_def)
  next
    case False
    then have "get_persistence_handle_idx (hnd s) = Some (EPERS_MAXHANDLE, hnd s)" using alloc_full_model [OF inv(1)] by simp
    moreover have "set_key_handle_data E EPERS_MAXHANDLE i l u t (hnd s) = Some (- 1, hnd s)" for i l u t
      by (simp add: set_key_handle_data_def)
    ultimately have "api_step E j (Handle_open r) s = Some ((- 1, []), s)"
      using run f by (simp add: pclKeyHandleOpen_def c)
    then show ?thesis using ok False live by (auto simp: api_refines_def)
  qed
qed

lemma close_refines:
  assumes ok: "api_ok E R C s"
  shows "api_refines E D R j C s (Handle_close x)"
proof -
  have run: "initialized s" and h: "handles_ok (hnd s)" using ok by (auto simp: api_ok_def store_ok_def)
  have inv: "pool_inv (hnd s)" "mutex_rc (hnd s) gKeyHandleAccessMtx = 0" using h by (simp_all add: handles_ok_def)
  note live = handle_dom [OF h]
  have cl: "pclKeyHandleClose x s = with_key_handle x (\<lambda>e. e) (\<lambda>k s. do {
      h \<leftarrow> set_persistence_handle_close_idx x (hnd s);
      h \<leftarrow> clear_key_handle_array x h;
      Some (1, s\<lparr>hnd := h\<rparr>) }) s"
    by (simp add: pclKeyHandleClose_def with_key_handle_def)
  show ?thesis
  proof (cases "handle_res s x")
    case None
    then have "api_step E j (Handle_close x) s = Some ((bad_handle x, []), s)" by (simp add: cl with_handle [OF run h])
    then show ?thesis using ok None by (auto simp: api_refines_def)
  next
    case (Some r)
    then have x: "0 < x" "x < 128" "x \<in> live_handles (hnd s)"
      using live by (auto simp: handle_res_def Let_def split: if_splits)
    obtain h' where f: "set_persistence_handle_close_idx x (hnd s) = Some h'" "pool_inv h'"
        "live_handles h' = live_handles (hnd s) - {x}" using free_live_model [OF inv(1) x(3)] by blast
    note fr = free_frame [OF f(1)]
    let ?h1 = "h'\<lparr>gKeyHandleArray := (gKeyHandleArray h')(nat x := key_handle_zero)\<rparr>"
    let ?s1 = "s\<lparr>hnd := ?h1\<rparr>"
    have "clear_key_handle_array x h' = Some ?h1" using clear_key_handle_array_ok [of h' x] fr inv(2) x by simp
    then have step: "api_step E j (Handle_close x) s = Some ((1, []), ?s1)"
      by (simp add: cl with_handle [OF run h] Some f(1))
    have z: "resource_id key_handle_zero = []" by (simp add: key_handle_zero_def)
    have res: "handle_res ?s1 = (handle_res s)(x := None)"
      using x fr z by (auto simp: handle_res_def fun_eq_iff Let_def)
    have "handles_ok ?h1" using h f(2,3) fr z x by (auto simp: handles_ok_def)
    moreover have "ran ((handle_res s)(x := None)) \<subseteq> dom C" using ok by (auto simp: api_ok_def ran_def)
    ultimately have "api_ok E R C ?s1" using ok res by (simp add: api_ok_def)
    moreover have "other_handles ?s1 = other_handles s" using f(3) Some by (auto simp: other_handles_def res)
    ultimately show ?thesis using step res Some by (auto simp: api_refines_def)
  qed
qed

lemma api_step_refines:
  assumes law: "kv_lawful E D R" and names: "names_ok E" and ok: "api_ok E R C s" and a: "api_call_ok C a"
  shows "api_refines E D R j C s a"
proof -
  have st: "store_ok E R C s" and run: "initialized s" "handles_ok (hnd s)" using ok by (auto simp: api_ok_def store_ok_def)
  show ?thesis
  proof (cases a)
    case (By_name r b)
    then have "kv_refines E D R j C s r b" using call_refines [OF law names st] a by auto
    then show ?thesis using by_name_refines [OF ok] By_name unfolding api_refines_def by fastforce
  next
    case (By_handle x b)
    show ?thesis
    proof (cases "handle_res s x")
      case None
      then show ?thesis using handle_call_bad [OF run None] By_handle a ok by (auto simp: api_refines_def)
    next
      case (Some r)
      then have "r \<in> dom C" using ok by (auto simp: api_ok_def intro: ranI)
      then have "kv_refines E D R j C s r b" using call_refines [OF law names st] a By_handle by auto
      moreover have "handle_call E j x b s = kv_call E j r b s" by (rule handle_call_open [OF run Some]) (use a By_handle in simp)
      ultimately show ?thesis using by_name_refines [OF ok] By_handle Some unfolding api_refines_def by fastforce
    qed
  next
    case (Handle_open r)
    then show ?thesis using open_refines [OF law ok] a by auto
  next
    case (Handle_close x)
    then show ?thesis using close_refines [OF ok] by blast
  qed
qed

section \<open>Property\<close>

text \<open>C2: the key interface is two maps. From any state in which a set of resources is configured as keys of
  open databases, any sequence of calls on these resources, by name or through handles, in any order and mixture,
  is defined, and its results are those of the same sequence on a map from resources to values and a map
  from open handles to resources. A write stores exactly its data for exactly its resource, or fails and
  changes nothing; too long data and read-only resources are refused; a read and a size query give the
  stored value, else the default, else \<open>EPERS_NOKEY\<close>; a deletion removes the value, or changes nothing, and the
  default is visible again. Opening gives a handle that neither a key nor a file holds, as long as fewer than 126
  are held; through it the operations are those on its resource until it is closed; a handle that is not open,
  whether never opened, closed already or out of range, is refused and changes nothing. Resources of
  different users, seats, ids and databases never interfere.\<close>

theorem key_api_refines_map:
  assumes "kv_lawful E D R" and "names_ok E" and "api_ok E R C s" and "\<forall>a \<in> set as. api_call_ok C a"
  shows "\<exists>xs s'. api_run E j as s = Some (xs, s') \<and>
     api_runs E (gMaxKeyValDataSize s) C (default_values E D C s) (other_handles s) as
       (stored E D C s, handle_res s) xs (stored E D C s', handle_res s')"
  using assms(3,4)
proof (induction as arbitrary: s)
  case Nil
  then show ?case by (auto intro: api_end)
next
  case (Cons a as)
  have "api_refines E D R j C s a" using api_step_refines [OF assms(1,2) Cons.prems(1)] Cons.prems(2) by simp
  then obtain x s1 where 1: "api_step E j a s = Some (x, s1)" "api_ok E R C s1" "gMaxKeyValDataSize s1 = gMaxKeyValDataSize s"
      "default_values E D C s1 = default_values E D C s" "other_handles s1 = other_handles s"
      "api_spec E (gMaxKeyValDataSize s) C (default_values E D C s) (other_handles s) a
         (stored E D C s, handle_res s) x (stored E D C s1, handle_res s1)"
    by (auto simp: api_refines_def)
  then obtain xs s2 where "api_run E j as s1 = Some (xs, s2)"
      "api_runs E (gMaxKeyValDataSize s) C (default_values E D C s) (other_handles s) as
         (stored E D C s1, handle_res s1) xs (stored E D C s2, handle_res s2)"
    using Cons.IH [OF 1(2)] Cons.prems(2) by auto
  then show ?case using 1(1) api_next [OF 1(6)] by auto
qed

text \<open>Two users of one device; the first has a volume.\<close>

definition user1 :: resource where
  "user1 = Resource 0xFF ''volume'' 1 0"

definition user2 :: resource where
  "user2 = Resource 0xFF ''volume'' 2 0"

definition two_users :: "resource \<Rightarrow> config_key option" where
  "two_users = [user1 \<mapsto> mem_config 0 0, user2 \<mapsto> mem_config 0 0]"

lemma demo_store_ok: "store_ok mem_env (\<lambda>w h. mem_rct w) two_users demo_stored"
proof -
  have "res_ok mem_env (\<lambda>w h. mem_rct w) r (mem_config 0 0) demo_stored" if "r \<in> {user1, user2}" for r
  proof -
    have "res_lid r = 0xFF" "res_id r = ''volume''" "res_user r \<in> {1, 2}" "res_seat r = 0"
      using that by (auto simp: user1_def user2_def)
    then show ?thesis
      using demo_stored_ready [of "0xFF" "res_user r" 0]
      by (auto simp: res_ok_def res_ready_def res_context_def db_key_text_def fmt_d_def digits_one mem_env_def DbKeyMaxLen_def)
         (simp_all add: db_open_def db_handle_def demo_stored_def)
  qed
  then show ?thesis
    using demo_stored_runs
    by (auto simp: store_ok_def two_users_def same_database_def user1_def user2_def split: if_splits)
qed

lemma demo_api_ok: "api_ok mem_env (\<lambda>w h. mem_rct w) two_users demo_stored"
proof -
  have "hnd demo_stored = handle_init" by (simp add: demo_stored_def)
  moreover have "handle_res demo_stored = (\<lambda>_. None)"
    by (simp add: handle_res_def demo_stored_def handle_init_def key_handle_zero_def fun_eq_iff)
  ultimately show ?thesis
    using demo_store_ok handles_ok_init by (auto simp: api_ok_def two_users_def user1_def user2_def split: if_splits)
qed

theorem key_api_refines_map_witness:
  "\<exists>b h c x s'. api_run mem_env (mem_config 0 0)
       [Handle_close 5, Handle_open user2, By_name user2 (Kv_write [1]), By_name user1 (Kv_read [0, 0, 0] 3)] demo_stored
     = Some ([(EPERS_INVALID_HANDLE, b), (h, c), x, (2, [7, 8, 0])], s') \<and> 0 < h"
proof -
  have "names_ok mem_env" by (simp add: names_ok_def mem_env_def)
  moreover have "stored mem_env mem_db two_users demo_stored user1 = Some [7, 8]"
    by (simp add: stored_def two_users_def user1_def user2_def res_key_def res_context_def db_key_text_def fmt_d_def digits_one
        db_handle_def demo_stored_def snprintf_def hex_char_def)
  moreover have "user1 \<noteq> user2" "two_users user1 = Some (mem_config 0 0)" "two_users user2 = Some (mem_config 0 0)"
    by (simp_all add: user1_def user2_def two_users_def)
  moreover have "handle_res demo_stored = (\<lambda>_. None)" "other_handles demo_stored = {}"
    using pool_inv_init(2)
    by (simp_all add: handle_res_def other_handles_def demo_stored_def handle_init_def key_handle_zero_def fun_eq_iff)
  ultimately show ?thesis
    using key_api_refines_map [OF mem_env_lawful _ demo_api_ok, of "[Handle_close 5, Handle_open user2,
        By_name user2 (Kv_write [1]), By_name user1 (Kv_read [0, 0, 0] 3)]" "mem_config 0 0"]
    by (auto simp: api_runs_next api_runs_end kv_value_def bad_handle_def dom_def split: if_splits)
qed

end
