(* ===== verification/Lc_Interface.thy ===== *)
theory Lc_Interface
  imports Pcl_State
begin

text \<open>
  The interface to the node state manager (\<open>src/persistence_client_library_lc_interface.[ch]\<close>): the
  lifecycle request, its D-Bus handlers, and the registration of the client for shutdown.
\<close>

definition check_lc_request :: "u32 \<Rightarrow> u32 \<Rightarrow> 'w pcl \<Rightarrow> int \<times> 'w pcl" where
  "check_lc_request request requestID s =
     (if request = word_of_int NsmShutdownNormal then
        let (r, s) = deliverToMainloop_NM \<lparr>cmd = CMD_LC_PREPARE_SHUTDOWN,
              params = [request, requestID], mstring = []\<rparr> s
        in if r = - 1 then (NsmErrorStatus_Fail, s) else (NsmErrorStatus_OK, s)
      else (0, s))"

definition msg_lifecycleRequest :: "dbus_msg \<Rightarrow> 'w pcl \<Rightarrow> DBusHandlerResult \<times> 'w pcl" where
  "msg_lifecycleRequest m s =
     (case dm_args m of
        DBUS_UINT32 request # DBUS_UINT32 requestID # _ \<Rightarrow>
          let (msgReturn, s) = check_lc_request request requestID s
          in (DBUS_HANDLER_RESULT_HANDLED, dbus_send (Reply_return msgReturn) s)
      | _ \<Rightarrow> (DBUS_HANDLER_RESULT_NOT_YET_HANDLED, dbus_send Reply_error s))"

definition gDbusLcConsterface :: string where
  "gDbusLcConsterface = ''org.genivi.NodeStateManager.LifeCycleConsumer''"

definition gDbusLcConsMsg :: string where
  "gDbusLcConsMsg = ''LifecycleRequest''"

text \<open>The comparisons are \<open>strncmp\<close> with 46 and 16 characters: the first covers the whole name and its
  terminator, the second accepts every member that starts with \<open>LifecycleRequest\<close>.\<close>

definition checkLifecycleMsg :: "dbus_msg \<Rightarrow> 'w pcl \<Rightarrow> DBusHandlerResult \<times> 'w pcl" where
  "checkLifecycleMsg m s =
     (if strncmp_eq gDbusLcConsterface (dm_interface m) 46 \<and> strncmp_eq gDbusLcConsMsg (dm_member m) 16
      then msg_lifecycleRequest m s
      else (DBUS_HANDLER_RESULT_NOT_YET_HANDLED, s))"

definition lc_registration :: "u32 \<Rightarrow> int \<Rightarrow> 'w pcl \<Rightarrow> int \<times> 'w pcl" where
  "lc_registration regType shutdownMode s =
     deliverToMainloop \<lparr>cmd = CMD_SEND_LC_REGISTER, params = [regType, word_of_int shutdownMode],
       mstring = []\<rparr> s"

definition register_lifecycle :: "int \<Rightarrow> 'w pcl \<Rightarrow> int \<times> 'w pcl" where
  "register_lifecycle shutdownMode s = lc_registration 1 shutdownMode s"

definition unregister_lifecycle :: "int \<Rightarrow> 'w pcl \<Rightarrow> int \<times> 'w pcl" where
  "unregister_lifecycle shutdownMode s = lc_registration 0 shutdownMode s"

lemma register_lifecycle_never_fails: "fst (register_lifecycle m s) = 0" "fst (unregister_lifecycle m s) = 0"
  by (simp_all add: register_lifecycle_def unregister_lifecycle_def lc_registration_def deliver_eq)

end
