(* ===== verification/Blacklist.thy ===== *)
theory Blacklist
  imports Pcl_State Crc32
begin

text \<open>
  The backup blacklist (first half of \<open>src/persistence_client_library_backup_filelist.c\<close>): the file that
  lists the resources for which no backup is made is split into tokens, the checksum of each token is
  stored in a red-black tree, and \<open>pclBackupNeeded\<close> looks up the checksum of a path.

  The tokens point into the mapped file; when it is unmapped they dangle. Every tree lives in memory of
  its own, of which \<open>room\<close> is the number of nodes that can be allocated; the small temporary items of the
  source are always allocated.
\<close>

section \<open>Items\<close>

definition key_val_cmp :: "key_value_s \<Rightarrow> key_value_s \<Rightarrow> int" where
  "key_val_cmp first second =
     (if kv_key second = kv_key first then 0
      else if kv_key second < kv_key first then - 1
      else 1)"

text \<open>\<open>key_val_dup\<close> copies key and value: the copy that the tree keeps has the same contents.\<close>

definition key_val_dup :: "key_value_s \<Rightarrow> key_value_s" where
  "key_val_dup src = \<lparr>kv_key = kv_key src, kv_value = kv_value src\<rparr>"

section \<open>Reading the file\<close>

definition fillFileBackupCharTokenArray :: "string \<Rightarrow> 'w pcl \<Rightarrow> 'w pcl option" where
  "fillFileBackupCharTokenArray fileMap s = do {
     t \<leftarrow> token_table sep_backup fileMap (gpTokenArray s);
     Some (s\<lparr>gpTokenArray := t\<rparr>)
   }"

text \<open>The loop: it stops at the first token whose successor is NULL.\<close>

fun store_names ::
  "nat list \<Rightarrow> (nat \<Rightarrow> token_ptr) \<Rightarrow> jsw_rbtree \<Rightarrow> key_value_s rbheap \<Rightarrow> (jsw_rbtree \<times> key_value_s rbheap) option" where
  "store_names [] tok t h = Some (t, h)"
| "store_names (i # is) tok t h = do {
     nxt \<leftarrow> rd TOKENARRAYSIZE tok (int i + 1);
     if nxt \<noteq> Tok_null then do {
       name \<leftarrow> token_string (tok i);
       let path = snprintf 128 name;
       crc \<leftarrow> pclCrc32 0 (Some (bytes path)) (length path);
       ((_, t), h) \<leftarrow> jsw_rbinsert key_val_cmp t (key_val_dup \<lparr>kv_key = crc, kv_value = []\<rparr>) h;
       store_names is tok t h
     }
     else Some (t, h)
   }"

definition createAndStoreFileNames :: "nat \<Rightarrow> 'w pcl \<Rightarrow> 'w pcl option" where
  "createAndStoreFileNames mem s = do {
     r \<leftarrow> store_names [0..<TOKENARRAYSIZE] (gpTokenArray s) jsw_rbnew (heap_empty mem);
     Some (s\<lparr>gRb_tree_bl := Some r\<rparr>)
   }"

definition unmap_token :: "token_ptr \<Rightarrow> token_ptr" where
  "unmap_token t = (case t of Tok m \<Rightarrow> Tok_dangling | _ \<Rightarrow> t)"

text \<open>\<open>mapped\<close>: \<open>mmap\<close> succeeds.\<close>

definition readBlacklistConfigFile :: "string option \<Rightarrow> bool \<Rightarrow> nat \<Rightarrow> 'w pcl \<Rightarrow> (int \<times> 'w pcl) option" where
  "readBlacklistConfigFile filename mapped mem s =
     (case filename of
        None \<Rightarrow> Some (EPERS_COMMON, s)
      | Some name \<Rightarrow>
          (case fs_names (fsys s) (resolve name) of
             None \<Rightarrow> Some (EPERS_COMMON, s)
           | Some node \<Rightarrow>
               if node = Dir \<or> file_content (fsys s) name \<noteq> Some [] then do {
                 let (fd, f) = fs_open name O_RDONLY False False (fsys s);
                 let s = s\<lparr>fsys := f\<rparr>;
                 if fd = - 1 then Some (EPERS_COMMON, s)
                 else if \<not> mapped then Some (EPERS_COMMON, s\<lparr>fsys := snd (fs_close fd f)\<rparr>)
                 else do {
                   text \<leftarrow> file_content f name;
                   s \<leftarrow> fillFileBackupCharTokenArray (map byte_char text) s;
                   s \<leftarrow> createAndStoreFileNames mem s;
                   Some (0, s\<lparr>gpTokenArray := unmap_token \<circ> gpTokenArray s,
                              fsys := snd (fs_close fd (fsys s))\<rparr>)
                 }
               }
               else Some (EPERS_COMMON, s)))"

section \<open>Asking\<close>

definition need_backup_key :: "u32 \<Rightarrow> 'w pcl \<Rightarrow> int option" where
  "need_backup_key key s =
     (case gRb_tree_bl s of
        Some (t, h) \<Rightarrow> do {
          found \<leftarrow> jsw_rbfind key_val_cmp h t \<lparr>kv_key = key, kv_value = []\<rparr>;
          Some (if found \<noteq> None then DONT_CREATE_BACKUP else CREATE_BACKUP)
        }
      | None \<Rightarrow> Some CREATE_BACKUP)"

definition pclBackupNeeded :: "string \<Rightarrow> 'w pcl \<Rightarrow> int option" where
  "pclBackupNeeded path s = do {
     crc \<leftarrow> pclCrc32 0 (Some (bytes path)) (length path);
     need_backup_key crc s
   }"

end
