(* ===== verification/Rb_Model.thy ===== *)
theory Rb_Model
  imports RbTree
begin

text \<open>
  The abstract view of the red-black tree of \<open>src/rbtree.c\<close>. The heap below a pointer is described by a tree
  \<open>rt\<close> whose nodes carry their addresses; a position of the insertion loop is a path of frames from the
  current node up to the false root, as in a zipper. \<open>holds\<close> and \<open>fholds\<close> relate them to the heap. The
  lemmas say what the colour flip, the rotations and the insertion of a node make of the two.
\<close>

section \<open>Trees with addresses\<close>

datatype 'a rt = Lf | Nd nat bool 'a "bool \<Rightarrow> 'a rt"

fun ra :: "'a rt \<Rightarrow> nat" where
  "ra Lf = 0"
| "ra (Nd a c x f) = a"

fun isred :: "'a rt \<Rightarrow> bool" where
  "isred Lf = False"
| "isred (Nd a c x f) = c"

primrec addrs :: "'a rt \<Rightarrow> nat set" where
  "addrs Lf = {}"
| "addrs (Nd a c x f) = insert a (\<Union>e. addrs (f e))"

primrec items :: "'a rt \<Rightarrow> 'a set" where
  "items Lf = {}"
| "items (Nd a c x f) = insert x (\<Union>e. items (f e))"

primrec dist :: "'a rt \<Rightarrow> bool" where
  "dist Lf = True"
| "dist (Nd a c x f) = ((\<forall>e. a \<notin> addrs (f e)) \<and> addrs (f False) \<inter> addrs (f True) = {} \<and> (\<forall>e. dist (f e)))"

text \<open>No red node has a red child; all paths have the same number of black nodes.\<close>

primrec invc :: "'a rt \<Rightarrow> bool" where
  "invc Lf = True"
| "invc (Nd a c x f) = (\<forall>e. invc (f e) \<and> \<not> (c \<and> isred (f e)))"

primrec bh :: "'a rt \<Rightarrow> nat" where
  "bh Lf = 0"
| "bh (Nd a c x f) = bh (f False) + (if c then 0 else 1)"

primrec invh :: "'a rt \<Rightarrow> bool" where
  "invh Lf = True"
| "invh (Nd a c x f) = (bh (f False) = bh (f True) \<and> (\<forall>e. invh (f e)))"

primrec nsize :: "'a rt \<Rightarrow> nat" where
  "nsize Lf = 0"
| "nsize (Nd a c x f) = nsize (f False) + nsize (f True) + 1"

lemma all_bool: "(\<forall>e. P e) \<longleftrightarrow> P d \<and> P (\<not> d)" for d :: bool
  by (cases d) (auto simp: all_bool_eq)

text \<open>Two children, one in direction \<open>d\<close>.\<close>

definition two :: "bool \<Rightarrow> 'b \<Rightarrow> 'b \<Rightarrow> bool \<Rightarrow> 'b" where
  "two d T s = (\<lambda>e. if e = d then T else s)"

lemma two_simps [simp]: "two d T s d = T" "two d T s (\<not> d) = s"
  by (simp_all add: two_def)

lemma two_eta: "f = two d (f d) (f (\<not> d))"
  by (auto simp: two_def)

lemma two_flip: "two (\<not> d) T s = two d s T"
  by (auto simp: two_def)

lemma two_upd [simp]: "(two d T s)(d := T') = two d T' s" "(two d T s)(\<not> d := s') = two d T s'"
  by (auto simp: two_def fun_eq_iff)

lemma two_comp: "(\<lambda>e. g (two d T s e)) = two d (g T) (g s)"
  by (auto simp: two_def)

lemma node_simps [simp]:
  "addrs (Nd a c x (two d T s)) = insert a (addrs T \<union> addrs s)"
  "items (Nd a c x (two d T s)) = insert x (items T \<union> items s)"
  "dist (Nd a c x (two d T s)) \<longleftrightarrow> a \<notin> addrs T \<and> a \<notin> addrs s \<and> addrs T \<inter> addrs s = {} \<and> dist T \<and> dist s"
  "invc (Nd a c x (two d T s)) \<longleftrightarrow> invc T \<and> invc s \<and> \<not> (c \<and> (isred T \<or> isred s))"
  "invh (Nd a c x (two d T s)) \<longleftrightarrow> bh T = bh s \<and> invh T \<and> invh s"
  "nsize (Nd a c x (two d T s)) = nsize T + nsize s + 1"
  by (cases d; auto simp: two_def UNIV_bool all_bool_eq)+

lemma bh_two: "bh T = bh s \<Longrightarrow> bh (Nd a c x (two d T s)) = bh T + (if c then 0 else 1)"
  by (cases d) (simp_all add: two_def)

declare addrs.simps(2) [simp del] items.simps(2) [simp del] dist.simps(2) [simp del] invc.simps(2) [simp del]
  invh.simps(2) [simp del] nsize.simps(2) [simp del] bh.simps(2) [simp del]

lemma rt_cases [case_names Lf Nd]:
  obtains "T = Lf" | a c x L R where "T = Nd a c x (two d L R)"
proof (cases T)
  case Lf
  then show ?thesis using that by blast
next
  case (Nd a c x f)
  have "T = Nd a c x (two d (f d) (f (\<not> d)))" using Nd two_eta [of f d] by simp
  then show ?thesis using that(2) by blast
qed

lemma rt_induct [case_names Lf Nd]:
  assumes "P Lf" and "\<And>a c x L R. P L \<Longrightarrow> P R \<Longrightarrow> P (Nd a c x (two d L R))"
  shows "P T"
proof (induction T)
  case Lf
  then show ?case by (rule assms(1))
next
  case (Nd a c x f)
  have "P (Nd a c x (two d (f d) (f (\<not> d))))" by (intro assms(2) Nd.IH) auto
  then show ?case using two_eta [of f d] by simp
qed

lemma ra_in: "T \<noteq> Lf \<Longrightarrow> ra T \<in> addrs T"
  by (cases T rule: rt_cases) auto

section \<open>Paths\<close>

text \<open>A frame: address, colour, item, direction taken, the other child.\<close>

type_synonym 'a frame = "nat \<times> bool \<times> 'a \<times> bool \<times> 'a rt"

fun plug :: "'a frame list \<Rightarrow> 'a rt \<Rightarrow> 'a rt" where
  "plug [] T = T"
| "plug ((a, c, x, d, s) # fs) T = plug fs (Nd a c x (two d T s))"

fun faddrs :: "nat \<Rightarrow> 'a frame list \<Rightarrow> nat set" where
  "faddrs b [] = {b}"
| "faddrs b ((a, c, x, d, s) # fs) = insert a (addrs s \<union> faddrs b fs)"

fun fdist :: "nat \<Rightarrow> 'a frame list \<Rightarrow> bool" where
  "fdist b [] = True"
| "fdist b ((a, c, x, d, s) # fs) =
     (a \<notin> addrs s \<and> a \<notin> faddrs b fs \<and> addrs s \<inter> faddrs b fs = {} \<and> dist s \<and> fdist b fs)"

definition zdist :: "nat \<Rightarrow> 'a frame list \<Rightarrow> 'a rt \<Rightarrow> bool" where
  "zdist b fs T \<longleftrightarrow> fdist b fs \<and> dist T \<and> addrs T \<inter> faddrs b fs = {}"

fun finvc :: "'a frame list \<Rightarrow> bool \<Rightarrow> bool" where
  "finvc [] r = True"
| "finvc ((a, c, x, d, s) # fs) r = (\<not> (c \<and> r) \<and> \<not> (c \<and> isred s) \<and> invc s \<and> finvc fs c)"

fun finvh :: "'a frame list \<Rightarrow> nat \<Rightarrow> bool" where
  "finvh [] n = True"
| "finvh ((a, c, x, d, s) # fs) n = (bh s = n \<and> invh s \<and> finvh fs (n + (if c then 0 else 1)))"

fun fitems :: "'a frame list \<Rightarrow> 'a set" where
  "fitems [] = {}"
| "fitems ((a, c, x, d, s) # fs) = insert x (items s \<union> fitems fs)"

lemma invc_plug: "invc (plug fs T) \<longleftrightarrow> invc T \<and> finvc fs (isred T)"
  by (induction fs T rule: plug.induct) auto

lemma invh_plug: "invh (plug fs T) \<longleftrightarrow> invh T \<and> finvh fs (bh T)"
  by (induction fs T rule: plug.induct) (auto simp: bh_two)

lemma items_plug: "items (plug fs T) = items T \<union> fitems fs"
  by (induction fs T rule: plug.induct) auto

lemma zdist_step:
  "zdist b ((a, c, x, d, s) # fs) T \<longleftrightarrow> zdist b fs (Nd a c x (two d T s))"
  by (auto simp: zdist_def)

section \<open>The heap\<close>

definition cell :: "bool \<Rightarrow> 'a \<Rightarrow> (bool \<Rightarrow> nat) \<Rightarrow> 'a rbnode" where
  "cell c x l = \<lparr>red = (if c then 1 else 0), ndata = Some x, link0 = l False, link1 = l True\<rparr>"

lemma cell_simps [simp]:
  "link (cell c x l) d = l d" "set_link d p (cell c x l) = cell c x (l(d := p))"
  "(cell c x l)\<lparr>red := 1\<rparr> = cell True x l" "(cell c x l)\<lparr>red := 0\<rparr> = cell False x l"
  "red (cell c x l) = 1 \<longleftrightarrow> c" "ndata (cell c x l) = Some x"
  "link0 (cell c x l) = l False" "link1 (cell c x l) = l True"
  by (simp_all add: cell_def link_def set_link_def)

primrec holds :: "'a rbheap \<Rightarrow> 'a rt \<Rightarrow> bool" where
  "holds h Lf = True"
| "holds h (Nd a c x f) = (0 < a \<and> a < brk h \<and> nodes h a = cell c x (\<lambda>e. ra (f e)) \<and> (\<forall>e. holds h (f e)))"

lemma holds_two [simp]:
  "holds h (Nd a c x (two d T s)) \<longleftrightarrow>
     0 < a \<and> a < brk h \<and> nodes h a = cell c x (two d (ra T) (ra s)) \<and> holds h T \<and> holds h s"
  by (auto simp: two_comp all_bool [of _ d])

declare holds.simps(2) [simp del]

definition head_cell :: "nat \<Rightarrow> 'a rbnode" where
  "head_cell r = \<lparr>red = 0, ndata = None, link0 = 0, link1 = r\<rparr>"

lemma head_cell_simps [simp]:
  "link1 (head_cell r) = r" "set_link True p (head_cell r) = head_cell p" "link (head_cell r) True = r"
  by (simp_all add: head_cell_def set_link_def link_def)

fun fholds :: "'a rbheap \<Rightarrow> nat \<Rightarrow> 'a frame list \<Rightarrow> nat \<Rightarrow> bool" where
  "fholds h b [] r = (0 < b \<and> b < brk h \<and> nodes h b = head_cell r)"
| "fholds h b ((a, c, x, d, s) # fs) r =
     (0 < a \<and> a < brk h \<and> nodes h a = cell c x (two d r (ra s)) \<and> holds h s \<and> fholds h b fs a)"

definition zholds :: "'a rbheap \<Rightarrow> nat \<Rightarrow> 'a frame list \<Rightarrow> 'a rt \<Rightarrow> bool" where
  "zholds h b fs T \<longleftrightarrow> fholds h b fs (ra T) \<and> holds h T \<and> zdist b fs T"

lemma zholds_step: "zholds h b ((a, c, x, d, s) # fs) T \<longleftrightarrow> zholds h b fs (Nd a c x (two d T s))"
  by (auto simp: zholds_def zdist_step)

lemma zholds_plug: "zholds h b fs T \<longleftrightarrow> zholds h b [] (plug fs T)"
  by (induction fs T rule: plug.induct) (auto simp: zholds_step)

lemma holds_cong:
  assumes "holds h T" and "brk h \<le> brk h'" and "\<And>a. a \<in> addrs T \<Longrightarrow> nodes h' a = nodes h a"
  shows "holds h' T"
  using assms by (induction T rule: rt_induct [where d = True]) auto

lemma fholds_cong:
  assumes "fholds h b fs r" and "brk h \<le> brk h'" and "\<And>a. a \<in> faddrs b fs \<Longrightarrow> nodes h' a = nodes h a"
  shows "fholds h' b fs r"
  using assms by (induction h b fs r rule: fholds.induct) (auto intro: holds_cong)

lemma holds_bound: "holds h T \<Longrightarrow> addrs T \<subseteq> {0<..<brk h}"
  by (induction T rule: rt_induct [where d = True]) auto

lemma fholds_bound: "fholds h b fs r \<Longrightarrow> faddrs b fs \<subseteq> {0<..<brk h}"
  by (induction h b fs r rule: fholds.induct) (auto dest: holds_bound)

lemma ra_zero: "holds h T \<Longrightarrow> ra T = 0 \<longleftrightarrow> T = Lf"
  by (cases T rule: rt_cases) auto

lemma deref_node: "holds h (Nd a c x f) \<Longrightarrow> deref h a = Some (nodes h a)"
  by (simp add: deref_def holds.simps(2))

lemma is_red_holds: "holds h T \<Longrightarrow> is_red h (ra T) = Some (isred T)"
  by (cases T rule: rt_cases [where d = True]) (auto simp: is_red_def deref_def)

lemma upd_node: "0 < a \<Longrightarrow> a < brk h \<Longrightarrow> upd a f h = Some (h\<lparr>nodes := (nodes h)(a := f (nodes h a))\<rparr>)"
  by (simp add: upd_def)

end
