(* ===== verification/Rb_Heap.thy ===== *)
theory Rb_Heap
  imports Rb_Model
begin

text \<open>
  What the single steps of \<open>jsw_rbinsert\<close> (\<open>src/rbtree.c\<close>) do on the heap, in terms of trees: the colour flip,
  \<open>jsw_single\<close>, \<open>jsw_double\<close>, a new node below a path, and the link of the node above a rotation.
\<close>

section \<open>Changes of the heap\<close>

definition outside :: "nat set \<Rightarrow> 'a rbheap \<Rightarrow> 'a rbheap \<Rightarrow> bool" where
  "outside S h h' \<longleftrightarrow> brk h' = brk h \<and> room h' = room h \<and> (\<forall>a. a \<notin> S \<longrightarrow> nodes h' a = nodes h a)"

lemma outside_trans: "outside S h h' \<Longrightarrow> outside S' h' h'' \<Longrightarrow> outside (S \<union> S') h h''"
  by (simp add: outside_def)

lemma outside_mono: "outside S h h' \<Longrightarrow> S \<subseteq> S' \<Longrightarrow> outside S' h h'"
  by (auto simp: outside_def)

lemma holds_outside: "holds h T \<Longrightarrow> outside S h h' \<Longrightarrow> addrs T \<inter> S = {} \<Longrightarrow> holds h' T"
  by (erule holds_cong) (auto simp: outside_def)

lemma fholds_outside: "fholds h b fs r \<Longrightarrow> outside S h h' \<Longrightarrow> faddrs b fs \<inter> S = {} \<Longrightarrow> fholds h' b fs r"
  by (erule fholds_cong) (auto simp: outside_def)

section \<open>Colours\<close>

fun paint :: "bool \<Rightarrow> 'a rt \<Rightarrow> 'a rt" where
  "paint c Lf = Lf"
| "paint c (Nd a c' x f) = Nd a c x f"

lemma paint_simps [simp]:
  "ra (paint c T) = ra T" "addrs (paint c T) = addrs T" "items (paint c T) = items T" "nsize (paint c T) = nsize T"
  "dist (paint c T) = dist T" "isred (paint c T) \<longleftrightarrow> T \<noteq> Lf \<and> c" "paint c T = Lf \<longleftrightarrow> T = Lf" "invh (paint c T) = invh T"
  by (cases T rule: rt_cases [where d = True]; simp)+

lemma invc_paint: "invc T \<Longrightarrow> invc (paint False T)"
  by (cases T rule: rt_cases [where d = True]) auto

lemma bh_paint_black: "invh T \<Longrightarrow> isred T \<Longrightarrow> bh (paint False T) = bh T + 1"
  by (cases T rule: rt_cases [where d = True]) (auto simp: bh_two)

lemma paint_heap:
  assumes "holds h T" and "T \<noteq> Lf" and "dist T"
  shows "\<exists>h'. upd (ra T) (\<lambda>n. n\<lparr>red := if c then 1 else 0\<rparr>) h = Some h' \<and> holds h' (paint c T) \<and> outside {ra T} h h'"
proof (cases T rule: rt_cases [where d = True])
  case Lf
  then show ?thesis using assms by simp
next
  case (Nd a c' x L R)
  let ?h = "h\<lparr>nodes := (nodes h)(a := cell c x (two True (ra L) (ra R)))\<rparr>"
  have o: "outside {a} h ?h" by (simp add: outside_def)
  then have "holds ?h L" "holds ?h R" using assms Nd by (auto intro: holds_outside)
  then show ?thesis using assms Nd o by (cases c) (auto simp: upd_node)
qed

text \<open>The colour flip.\<close>

definition flip :: "'a rt \<Rightarrow> 'a rt" where
  "flip T = (case T of Lf \<Rightarrow> Lf | Nd a c x f \<Rightarrow> Nd a True x (\<lambda>e. paint False (f e)))"

lemma flip_two [simp]: "flip (Nd a c x (two d L R)) = Nd a True x (two d (paint False L) (paint False R))"
  by (simp add: flip_def two_comp)

lemma flip_heap:
  assumes "holds h (Nd a c x (two False L R))" and "dist (Nd a c x (two False L R))" and "L \<noteq> Lf" and "R \<noteq> Lf"
  shows "\<exists>h1 h2 h3. upd a (\<lambda>n. n\<lparr>red := 1\<rparr>) h = Some h1 \<and> upd (ra L) (\<lambda>n. n\<lparr>red := 0\<rparr>) h1 = Some h2 \<and>
     upd (ra R) (\<lambda>n. n\<lparr>red := 0\<rparr>) h2 = Some h3 \<and> holds h3 (flip (Nd a c x (two False L R))) \<and>
     outside {a, ra L, ra R} h h3"
proof -
  have d: "a \<notin> addrs L" "a \<notin> addrs R" "addrs L \<inter> addrs R = {}" "dist L" "dist R" using assms(2) by auto
  obtain h1 where h1: "upd a (\<lambda>n. n\<lparr>red := 1\<rparr>) h = Some h1" "holds h1 (Nd a True x (two False L R))" "outside {a} h h1"
    using paint_heap [OF assms(1) _ assms(2), of True] by auto
  obtain h2 where h2: "upd (ra L) (\<lambda>n. n\<lparr>red := 0\<rparr>) h1 = Some h2" "holds h2 (paint False L)" "outside {ra L} h1 h2"
    using paint_heap [of h1 L False] h1(2) assms(3) d by auto
  have "holds h1 R" using h1(2) by simp
  then have R: "holds h2 R" by (rule holds_outside [OF _ h2(3)]) (use d ra_in [OF assms(3)] in auto)
  obtain h3 where h3: "upd (ra R) (\<lambda>n. n\<lparr>red := 0\<rparr>) h2 = Some h3" "holds h3 (paint False R)" "outside {ra R} h2 h3"
    using paint_heap [of h2 R False] R assms(4) d by auto
  have "holds h3 (paint False L)" by (rule holds_outside [OF h2(2) h3(3)]) (use d ra_in [OF assms(4)] in auto)
  moreover have "a \<noteq> ra L" "a \<noteq> ra R" using d ra_in [OF assms(3)] ra_in [OF assms(4)] by metis+
  then have "nodes h3 a = nodes h1 a" "brk h3 = brk h1" using h2(3) h3(3) by (simp_all add: outside_def)
  moreover have "outside {a, ra L, ra R} h h3"
    using outside_trans [OF outside_trans [OF h1(3) h2(3)] h3(3)] by (simp add: insert_commute)
  ultimately show ?thesis using h1 h2 h3 by auto
qed

section \<open>Rotations\<close>

lemma single_heap:
  assumes "holds h (Nd g cg xg (two e (Nd p cp xp (two e Q C)) B))" and "dist (Nd g cg xg (two e (Nd p cp xp (two e Q C)) B))"
  shows "\<exists>h'. jsw_single g (\<not> e) h = Some (p, h') \<and> holds h' (Nd p False xp (two e Q (Nd g True xg (two e C B)))) \<and>
     outside {g, p} h h'"
proof -
  have gp: "0 < g" "g < brk h" "0 < p" "p < brk h" "g \<noteq> p"
    and cells: "nodes h g = cell cg xg (two e p (ra B))" "nodes h p = cell cp xp (two e (ra Q) (ra C))"
    and sub: "holds h Q" "holds h C" "holds h B" using assms by simp_all
  have d: "addrs Q \<inter> {g, p} = {}" "addrs C \<inter> {g, p} = {}" "addrs B \<inter> {g, p} = {}" using assms(2) by auto
  let ?h = "h\<lparr>nodes := (nodes h)(g := cell True xg (two e (ra C) (ra B)), p := cell False xp (two e (ra Q) g))\<rparr>"
  have o: "outside {g, p} h ?h" by (simp add: outside_def)
  have "jsw_single g (\<not> e) h = Some (p, ?h)"
    using gp cells by (simp add: jsw_single_def deref_def upd_node fun_upd_twist)
  moreover have "holds ?h Q" "holds ?h C" "holds ?h B" using holds_outside [OF sub(1) o d(1)]
      holds_outside [OF sub(2) o d(2)] holds_outside [OF sub(3) o d(3)] .
  ultimately show ?thesis using gp o by (intro exI [of _ ?h]) simp
qed

lemma double_heap:
  assumes "holds h (Nd g cg xg (two e (Nd p cp xp (two (\<not> e) (Nd q cq xq (two (\<not> e) Q1 Q2)) C)) B))"
    and "dist (Nd g cg xg (two e (Nd p cp xp (two (\<not> e) (Nd q cq xq (two (\<not> e) Q1 Q2)) C)) B))"
  shows "\<exists>h'. jsw_double g (\<not> e) h = Some (q, h') \<and>
     holds h' (Nd q False xq (two e (Nd p True xp (two (\<not> e) Q2 C)) (Nd g True xg (two e Q1 B)))) \<and> outside {g, p, q} h h'"
proof -
  let ?P = "Nd p cp xp (two (\<not> e) (Nd q cq xq (two (\<not> e) Q1 Q2)) C)"
  let ?P' = "Nd q False xq (two (\<not> e) Q1 (Nd p True xp (two (\<not> e) Q2 C)))"
  have P: "holds h ?P" "dist ?P" and B: "holds h B" "dist B"
    and g: "0 < g" "g < brk h" "nodes h g = cell cg xg (two e p (ra B))"
    using assms by simp_all
  have dg: "g \<notin> addrs ?P" "g \<notin> addrs B" "addrs ?P \<inter> addrs B = {}"
    using assms(2) unfolding node_simps(3) [of g] by blast+
  have pq: "p \<in> addrs ?P" "q \<in> addrs ?P" "addrs ?P' = addrs ?P" by auto
  obtain h1 where h1: "jsw_single p e h = Some (q, h1)" "holds h1 ?P'" "outside {p, q} h h1"
    using single_heap [OF P] unfolding not_not by blast
  have g1: "nodes h1 g = cell cg xg (two e p (ra B))" "g < brk h1"
    using h1(3) g dg(1) pq by (auto simp: outside_def)
  let ?h2 = "h1\<lparr>nodes := (nodes h1)(g := cell cg xg (two e q (ra B)))\<rparr>"
  have o2: "outside {g} h1 ?h2" by (simp add: outside_def)
  have "holds h1 B" by (rule holds_outside [OF B(1) h1(3)]) (use dg(3) pq in blast)
  then have "holds ?h2 B" by (rule holds_outside [OF _ o2]) (use dg(2) in blast)
  moreover have "holds ?h2 ?P'" by (rule holds_outside [OF h1(2) o2]) (use dg(1) pq(3) in blast)
  ultimately have G: "holds ?h2 (Nd g cg xg (two e ?P' B))" using g(1) g1(2) by simp
  moreover have "dist ?P'" using P(2) by auto
  then have "dist (Nd g cg xg (two e ?P' B))" unfolding node_simps(3) [of g] pq(3) using dg B(2) by blast
  moreover have "?P' = Nd q False xq (two e (Nd p True xp (two (\<not> e) Q2 C)) Q1)" by (simp add: two_flip)
  ultimately obtain h3 where h3: "jsw_single g (\<not> e) ?h2 = Some (q, h3)"
      "holds h3 (Nd q False xq (two e (Nd p True xp (two (\<not> e) Q2 C)) (Nd g True xg (two e Q1 B))))" "outside {g, q} ?h2 h3"
    using single_heap [of ?h2 g cg xg e q False xq "Nd p True xp (two (\<not> e) Q2 C)" Q1 B] by metis
  have "jsw_double g (\<not> e) h = Some (q, h3)"
    using g g1 h1(1) h3(1) by (simp add: jsw_double_def deref_def upd_node)
  moreover have "outside {g, p, q} h h3"
    using outside_trans [OF outside_trans [OF h1(3) o2] h3(3)] by (simp add: insert_commute)
  ultimately show ?thesis using h3(2) by blast
qed

end
