(* ===== verification/Rb_Insert.thy ===== *)
theory Rb_Insert
  imports Rb_Heap
begin

text \<open>
  Correctness of \<open>jsw_rbinsert\<close> and \<open>jsw_rbfind\<close> (\<open>src/rbtree.c\<close>). The loop invariant has three phases. In
  phase N the helpers \<open>t\<close>, \<open>g\<close>, \<open>p\<close> are the three nodes above \<open>q\<close>. After a colour flip (phase F) and after
  a rotation (phases F and D) \<open>t\<close> and \<open>g\<close> can be stale, and the invariant says why no rotation can
  happen before they have caught up.
\<close>

section \<open>Search trees\<close>

text \<open>In direction 1 lie the smaller keys.\<close>

definition before :: "bool \<Rightarrow> 'k::linorder \<Rightarrow> 'k \<Rightarrow> bool" where
  "before d a b = (if d then a < b else b < a)"

lemma before_trans: "before d a b \<Longrightarrow> before d b c \<Longrightarrow> before d a c"
  by (auto simp: before_def split: if_splits)

lemma before_flip: "before (\<not> d) a b = before d b a"
  by (auto simp: before_def)

primrec bst :: "('a \<Rightarrow> 'k::linorder) \<Rightarrow> 'a rt \<Rightarrow> bool" where
  "bst k Lf = True"
| "bst k (Nd a c x f) = (\<forall>e. bst k (f e) \<and> (\<forall>y \<in> items (f e). before e (k y) (k x)))"

lemma bst_two [simp]:
  "bst k (Nd a c x (two d T s)) \<longleftrightarrow>
     bst k T \<and> bst k s \<and> (\<forall>y \<in> items T. before d (k y) (k x)) \<and> (\<forall>y \<in> items s. before d (k x) (k y))"
  by (auto simp: all_bool [of _ d] before_flip)

declare bst.simps(2) [simp del]

lemma bst_paint [simp]: "bst k (paint c T) = bst k T"
  by (cases T rule: rt_cases [where d = True]) auto

fun on_path :: "('a \<Rightarrow> 'k::linorder) \<Rightarrow> 'a \<Rightarrow> 'a frame list \<Rightarrow> bool" where
  "on_path k y [] = True"
| "on_path k y ((a, c, x, d, s) # fs) = (before d (k y) (k x) \<and> on_path k y fs)"

fun fbst :: "('a \<Rightarrow> 'k::linorder) \<Rightarrow> 'a frame list \<Rightarrow> bool" where
  "fbst k [] = True"
| "fbst k ((a, c, x, d, s) # fs) =
     (bst k s \<and> (\<forall>y \<in> items s. before d (k x) (k y) \<and> on_path k y fs) \<and> on_path k x fs \<and> fbst k fs)"

lemma bst_plug: "bst k (plug fs T) \<longleftrightarrow> bst k T \<and> fbst k fs \<and> (\<forall>y \<in> items T. on_path k y fs)"
  by (induction fs T rule: plug.induct) auto

text \<open>The search never meets the key of \<open>x\<close> beside the path.\<close>

lemma fitems_key:
  assumes "fbst k fs" and "on_path k x fs" and "y \<in> fitems fs"
  shows "k y \<noteq> k x"
  using assms
proof (induction fs)
  case (Cons f fs)
  obtain a c z d s where f: "f = (a, c, z, d, s)" by (cases f)
  consider "y = z" | "y \<in> items s" | "y \<in> fitems fs" using Cons.prems(3) f by auto
  then show ?case
  proof cases
    case 2
    then have "before d (k x) (k y)" using Cons.prems f before_trans by fastforce
    then show ?thesis by (auto simp: before_def split: if_splits)
  qed (use Cons f in \<open>auto simp: before_def split: if_splits\<close>)
qed simp

section \<open>Valid trees\<close>

definition valid :: "('a \<Rightarrow> 'k::linorder) \<Rightarrow> 'a rt \<Rightarrow> bool" where
  "valid k T \<longleftrightarrow> invc T \<and> invh T \<and> bst k T"

lemma valid_plug:
  "valid k (plug fs T) \<longleftrightarrow> invc T \<and> invh T \<and> bst k T \<and> finvc fs (isred T) \<and> finvh fs (bh T) \<and>
     fbst k fs \<and> (\<forall>y \<in> items T. on_path k y fs)"
  by (auto simp: valid_def invc_plug invh_plug bst_plug)

text \<open>What the first part of an iteration leaves when it has made the current node red: all is well but for
  the colour of its parent.\<close>

definition nearly :: "('a \<Rightarrow> 'k::linorder) \<Rightarrow> 'a frame list \<Rightarrow> 'a rt \<Rightarrow> bool" where
  "nearly k fs T \<longleftrightarrow> isred T \<and> invc T \<and> invh T \<and> bst k T \<and> finvc fs False \<and> finvh fs (bh T) \<and>
     fbst k fs \<and> (\<forall>y \<in> items T. on_path k y fs)"

text \<open>Whether the node above is red.\<close>

definition pred :: "'a frame list \<Rightarrow> bool" where
  "pred fs = (case fs of [] \<Rightarrow> False | (a, c, x, d, s) # fs' \<Rightarrow> c)"

lemma nearly_valid: "nearly k fs T \<Longrightarrow> \<not> pred fs \<Longrightarrow> valid k (plug fs T)"
  unfolding valid_plug by (cases fs) (auto simp: nearly_def pred_def)

lemma flip_nearly:
  assumes "valid k (plug fs (Nd a c x (two d L R)))" and "isred L" and "isred R"
  shows "nearly k fs (flip (Nd a c x (two d L R)))"
  using assms by (auto simp: valid_plug nearly_def invc_paint bh_two bh_paint_black)

lemma insert_nearly:
  assumes "valid k (plug fs Lf)" and "on_path k x fs"
  shows "nearly k fs (Nd a True x (two d Lf Lf))"
  using assms by (auto simp: valid_plug nearly_def bh_two)

lemma single_valid:
  assumes "nearly k ((p, True, xp, e, C) # (g, cg, xg, e, B) # fs) Q" and "\<not> isred B"
  shows "valid k (plug ((p, False, xp, e, Nd g True xg (two e C B)) # fs) Q)"
proof -
  have "before e (k xp) (k y)" if "y \<in> items B" for y
    using assms that before_trans [of e "k xp" "k xg" "k y"] by (auto simp: nearly_def)
  then show ?thesis using assms by (auto simp: nearly_def valid_plug bh_two)
qed

lemma double_valid:
  assumes "nearly k ((p, True, xp, \<not> e, C) # (g, cg, xg, e, B) # fs) (Nd q True xq (two (\<not> e) Q1 Q2))"
    and "\<not> isred B"
  shows "valid k (plug fs (Nd q False xq (two e (Nd p True xp (two (\<not> e) Q2 C)) (Nd g True xg (two e Q1 B)))))"
proof -
  have o: "before e (k xq) (k xg)" "before e (k xp) (k xq)" "before e (k xp) (k xg)"
    using assms by (auto simp: nearly_def before_flip)
  have "before e (k xq) (k y)" if "y \<in> items B" for y
    using assms that o(1) before_trans [of e "k xq" "k xg" "k y"] by (auto simp: nearly_def)
  moreover have "before e (k y) (k xq)" if "y \<in> items C" for y
    using assms that o(2) before_trans [of e "k y" "k xp" "k xq"] by (auto simp: nearly_def before_flip)
  ultimately show ?thesis using assms o by (auto simp: nearly_def valid_plug bh_two before_flip)
qed

section \<open>The parts of an iteration on the heap\<close>

fun top_addr :: "nat \<Rightarrow> 'a frame list \<Rightarrow> nat" where
  "top_addr b [] = b"
| "top_addr b ((a, c, x, d, s) # fs) = a"

lemma top_addr_in: "fs \<noteq> [] \<Longrightarrow> top_addr b fs = top_addr b' fs"
  by (cases fs) auto

lemma top_addr_faddrs: "top_addr b fs \<in> faddrs b fs"
  by (cases fs) auto

text \<open>The node above a rotation gets the new root of the subtree as its child.\<close>

lemma relink:
  assumes "fholds h b fs r" and "fdist b fs" and "r \<noteq> 0" and "r \<notin> faddrs b fs"
  shows "\<exists>n h'. deref h (top_addr b fs) = Some n \<and> upd (top_addr b fs) (set_link (link1 n = r) r') h = Some h' \<and>
     fholds h' b fs r' \<and> outside {top_addr b fs} h h'"
proof (cases fs)
  case Nil
  let ?h = "h\<lparr>nodes := (nodes h)(b := head_cell r')\<rparr>"
  show ?thesis using assms Nil by (auto simp: deref_def upd_node outside_def)
next
  case (Cons f fs')
  obtain a c x d s where f: "f = (a, c, x, d, s)" by (cases f)
  have a: "0 < a" "a < brk h" "nodes h a = cell c x (two d r (ra s))" "holds h s" "fholds h b fs' a"
    using assms(1) Cons f by auto
  have na: "a \<notin> addrs s" "a \<notin> faddrs b fs'" "r \<notin> addrs s" using assms(2,4) Cons f by auto
  have "ra s \<noteq> r" using assms(3) na(3) ra_in [of s] by (cases s) auto
  then have dir: "(two d r (ra s) True = r) = d" by (cases d) (simp_all add: two_def)
  let ?h = "h\<lparr>nodes := (nodes h)(a := cell c x (two d r' (ra s)))\<rparr>"
  have o: "outside {a} h ?h" by (simp add: outside_def)
  have "holds ?h s" "fholds ?h b fs' a"
    using holds_outside [OF a(4) o] fholds_outside [OF a(5) o] na by auto
  then show ?thesis using a(1-3) dir Cons f o by (intro exI [of _ "nodes h a"] exI [of _ ?h]) (simp add: deref_def upd_node)
qed

text \<open>A new node at the null link.\<close>

lemma insert_part:
  assumes z: "zholds h b fs Lf" and fs: "fs = (p, c, y, d, s) # fs'" and v: "v_q v = 0" "v_p v = p" "v_dir v = d"
    and room: "0 < room h"
  shows "\<exists>h'. rb_insert_or_flip x v h = Some (False, v\<lparr>v_q := brk h\<rparr>, h') \<and>
     zholds h' b fs (Nd (brk h) True x (two True Lf Lf)) \<and> brk h' = brk h + 1 \<and> room h' = room h - 1"
proof -
  have p: "0 < p" "p < brk h" "nodes h p = cell c y (two d 0 (ra s))" "holds h s" "fholds h b fs' p"
    and dd: "fdist b fs" using z fs by (auto simp: zholds_def zdist_def)
  have bound: "addrs s \<subseteq> {0<..<brk h}" "faddrs b fs' \<subseteq> {0<..<brk h}"
    using holds_bound [OF p(4)] fholds_bound [OF p(5)] .
  have np: "p \<notin> addrs s" "p \<notin> faddrs b fs'" using dd fs by auto
  let ?q = "\<lparr>red = 1, ndata = Some x, link0 = 0, link1 = 0\<rparr>"
  let ?h = "h\<lparr>nodes := (nodes h)(brk h := ?q, p := cell c y (two d (brk h) (ra s))), brk := brk h + 1, room := room h - 1\<rparr>"
  have q: "?q = cell True x (two True 0 0)" by (simp add: cell_def two_def)
  have "holds ?h s" by (rule holds_cong [OF p(4)]) (use bound np in auto)
  moreover have "fholds ?h b fs' p" by (rule fholds_cong [OF p(5)]) (use bound np in auto)
  moreover have "zdist b fs (Nd (brk h) True x (two True Lf Lf))"
    using dd bound p(1,2) fs by (auto simp: zdist_def)
  ultimately have "zholds ?h b fs (Nd (brk h) True x (two True Lf Lf))"
    using p(1,2) fs q by (simp add: zholds_def)
  moreover have "rb_insert_or_flip x v h = Some (False, v\<lparr>v_q := brk h\<rparr>, ?h)"
    using v room p(1-3) by (simp add: rb_insert_or_flip_def new_node_def upd_def Let_def)
  ultimately show ?thesis by (intro exI [of _ ?h]) simp
qed

text \<open>The colour flip, when both children are red.\<close>

lemma flip_part:
  assumes z: "zholds h b fs (Nd a c y (two False L R))" and q: "v_q v = a"
  shows "\<exists>h'. rb_insert_or_flip x v h = Some (False, v, h') \<and> brk h' = brk h \<and> room h' = room h \<and>
     zholds h' b fs (if isred L \<and> isred R then flip (Nd a c y (two False L R)) else Nd a c y (two False L R))"
proof -
  have h: "holds h (Nd a c y (two False L R))" and dd: "dist (Nd a c y (two False L R))"
    and f: "fholds h b fs a" "fdist b fs" "addrs (Nd a c y (two False L R)) \<inter> faddrs b fs = {}"
    using z by (auto simp: zholds_def zdist_def)
  have n: "deref h a = Some (cell c y (two False (ra L) (ra R)))" "0 < a"
    and lr: "is_red h (ra L) = Some (isred L)" "is_red h (ra R) = Some (isred R)"
    using h is_red_holds by (auto simp: deref_def)
  show ?thesis
  proof (cases "isred L \<and> isred R")
    case False
    then show ?thesis using q n lr z by (auto simp: rb_insert_or_flip_def two_def)
  next
    case True
    then have ne: "L \<noteq> Lf" "R \<noteq> Lf" by auto
    obtain h1 h2 h3 where u: "upd a (\<lambda>n. n\<lparr>red := 1\<rparr>) h = Some h1" "upd (ra L) (\<lambda>n. n\<lparr>red := 0\<rparr>) h1 = Some h2"
       "upd (ra R) (\<lambda>n. n\<lparr>red := 0\<rparr>) h2 = Some h3" "holds h3 (flip (Nd a c y (two False L R)))" "outside {a, ra L, ra R} h h3"
      using flip_heap [OF h dd ne] by blast
    have "fholds h3 b fs a"
      by (rule fholds_outside [OF f(1) u(5)]) (use f(3) ra_in [OF ne(1)] ra_in [OF ne(2)] in auto)
    then have "zholds h3 b fs (flip (Nd a c y (two False L R)))"
      using u(4) dd f(2,3) by (simp add: zholds_def zdist_def)
    then show ?thesis using u q n lr True by (auto simp: rb_insert_or_flip_def two_def outside_def)
  qed
qed

text \<open>The rotations.\<close>

lemma no_fix:
  assumes "zholds h b fs T" and "v_q v = ra T" and "v_p v = top_addr 0 fs" and "\<not> (isred T \<and> pred fs)"
  shows "rb_fix v h = Some h"
proof -
  have "is_red h (ra T) = Some (isred T)" using assms(1) is_red_holds by (auto simp: zholds_def)
  moreover have "is_red h (top_addr 0 fs) = Some (pred fs)"
  proof (cases fs)
    case Nil
    then show ?thesis by (simp add: is_red_def pred_def)
  next
    case (Cons f fs')
    obtain a c x d s where "f = (a, c, x, d, s)" by (cases f)
    then show ?thesis using assms(1) Cons by (auto simp: zholds_def is_red_def deref_def pred_def)
  qed
  ultimately show ?thesis using assms(2-4) by (auto simp: rb_fix_def)
qed

lemma fix_single:
  assumes z: "zholds h b ((p, True, xp, e, C) # (g, cg, xg, e, B) # fs) Q" and red: "isred Q"
    and v: "v_q v = ra Q" "v_p v = p" "v_g v = g" "v_t v = top_addr b fs" "v_last v = e"
  shows "\<exists>h'. rb_fix v h = Some h' \<and> zholds h' b ((p, False, xp, e, Nd g True xg (two e C B)) # fs) Q \<and>
     brk h' = brk h \<and> room h' = room h"
proof -
  let ?G = "Nd g cg xg (two e (Nd p True xp (two e Q C)) B)"
  have zG: "zholds h b fs ?G" using z by (simp add: zholds_step)
  then have h: "holds h ?G" "dist ?G" and f: "fholds h b fs g" "fdist b fs" "addrs ?G \<inter> faddrs b fs = {}"
    by (simp_all add: zholds_def zdist_def)
  have pc: "deref h p = Some (cell True xp (two e (ra Q) (ra C)))" "g \<noteq> 0" "is_red h p = Some True" "is_red h (ra Q) = Some True"
    using h(1) red is_red_holds [of h Q] by (auto simp: deref_def is_red_def)
  obtain h1 where h1: "jsw_single g (\<not> e) h = Some (p, h1)" "holds h1 (Nd p False xp (two e Q (Nd g True xg (two e C B))))"
      "outside {g, p} h h1"
    using single_heap [OF h] by blast
  have "fholds h1 b fs g" by (rule fholds_outside [OF f(1) h1(3)]) (use f(3) in auto)
  then obtain n h2 where h2: "deref h1 (top_addr b fs) = Some n" "upd (top_addr b fs) (set_link (link1 n = g) p) h1 = Some h2"
      "fholds h2 b fs p" "outside {top_addr b fs} h1 h2"
    using relink [of h1 b fs g p] f(2,3) pc(2) by auto
  have nd: "deref h (top_addr b fs) = Some n"
    using h2(1) h1(3) f(3) top_addr_faddrs [of b fs] by (auto simp: deref_def outside_def)
  have "holds h2 (Nd p False xp (two e Q (Nd g True xg (two e C B))))"
    by (rule holds_outside [OF h1(2) h2(4)]) (use f(3) top_addr_faddrs [of b fs] in auto)
  moreover have "zdist b fs (Nd p False xp (two e Q (Nd g True xg (two e C B))))"
    using h(2) f(2,3) by (auto simp: zdist_def)
  ultimately have "zholds h2 b ((p, False, xp, e, Nd g True xg (two e C B)) # fs) Q"
    using h2(3) by (simp add: zholds_step) (simp add: zholds_def)
  moreover have "rb_fix v h = Some h2"
    using v pc nd h1(1) h2(2) by (simp add: rb_fix_def)
  ultimately show ?thesis using h1(3) h2(4) by (auto simp: outside_def)
qed

lemma fix_double:
  assumes z: "zholds h b ((p, True, xp, \<not> e, C) # (g, cg, xg, e, B) # fs) (Nd q True xq (two (\<not> e) Q1 Q2))"
    and v: "v_q v = q" "v_p v = p" "v_g v = g" "v_t v = top_addr b fs" "v_last v = e"
  shows "\<exists>h'. rb_fix v h = Some h' \<and> brk h' = brk h \<and> room h' = room h \<and>
     zholds h' b fs (Nd q False xq (two e (Nd p True xp (two (\<not> e) Q2 C)) (Nd g True xg (two e Q1 B))))"
proof -
  let ?Q = "Nd q True xq (two (\<not> e) Q1 Q2)"
  let ?G = "Nd g cg xg (two e (Nd p True xp (two (\<not> e) ?Q C)) B)"
  let ?G' = "Nd q False xq (two e (Nd p True xp (two (\<not> e) Q2 C)) (Nd g True xg (two e Q1 B)))"
  have zG: "zholds h b fs ?G" using z by (simp add: zholds_step)
  then have h: "holds h ?G" "dist ?G" and f: "fholds h b fs g" "fdist b fs" "addrs ?G \<inter> faddrs b fs = {}"
    by (simp_all add: zholds_def zdist_def)
  have pc: "deref h p = Some (cell True xp (two (\<not> e) q (ra C)))" "g \<noteq> 0" "q \<noteq> 0" "is_red h p = Some True" "is_red h q = Some True"
    using h(1) by (auto simp: deref_def is_red_def)
  have "ra C \<noteq> q" using h(2) pc(3) ra_in [of C] by (cases C) auto
  then have other: "link (cell True xp (two (\<not> e) q (ra C))) e \<noteq> q" by (simp add: two_def)
  obtain h1 where h1: "jsw_double g (\<not> e) h = Some (q, h1)" "holds h1 ?G'" "outside {g, p, q} h h1"
    using double_heap [OF h] by blast
  have "fholds h1 b fs g" by (rule fholds_outside [OF f(1) h1(3)]) (use f(3) in auto)
  then obtain n h2 where h2: "deref h1 (top_addr b fs) = Some n" "upd (top_addr b fs) (set_link (link1 n = g) q) h1 = Some h2"
      "fholds h2 b fs q" "outside {top_addr b fs} h1 h2"
    using relink [of h1 b fs g q] f(2,3) pc(2) by auto
  have nd: "deref h (top_addr b fs) = Some n"
    using h2(1) h1(3) f(3) top_addr_faddrs [of b fs] by (auto simp: deref_def outside_def)
  have "holds h2 ?G'"
    by (rule holds_outside [OF h1(2) h2(4)]) (use f(3) top_addr_faddrs [of b fs] in auto)
  moreover have "zdist b fs ?G'" using h(2) f(2,3) by (auto simp: zdist_def)
  ultimately have "zholds h2 b fs ?G'" using h2(3) by (simp add: zholds_def)
  moreover have "rb_fix v h = Some h2"
    using v pc nd h1(1) h2(2) other by (simp add: rb_fix_def)
  ultimately show ?thesis using h1(3) h2(4) by (auto simp: outside_def)
qed

end
