(* ===== verification/Rb_Correct.thy ===== *)
theory Rb_Correct
  imports Rb_Insert
begin

text \<open>
  The loop of \<open>jsw_rbinsert\<close> keeps its invariant, ends and inserts; \<open>jsw_rbfind\<close> finds what is in the tree
  (\<open>src/rbtree.c\<close>).
\<close>

section \<open>The invariant of the loop\<close>

fun fdir :: "'a frame list \<Rightarrow> bool" where
  "fdir [] = False"
| "fdir ((a, c, x, d, s) # fs) = d"

fun sib_red :: "'a frame list \<Rightarrow> bool" where
  "sib_red [] = False"
| "sib_red ((a, c, x, d, s) # fs) = isred s"

text \<open>A black node without red children: nothing happens there.\<close>

definition calm :: "'a rt \<Rightarrow> bool" where
  "calm T \<longleftrightarrow> (\<exists>a x L R. T = Nd a False x (two True L R) \<and> \<not> isred L \<and> \<not> isred R)"

text \<open>The child that the search for \<open>x\<close> takes.\<close>

definition child :: "('a \<Rightarrow> 'k::linorder) \<Rightarrow> 'a \<Rightarrow> 'a rt \<Rightarrow> 'a rt" where
  "child k x T = (case T of Lf \<Rightarrow> Lf | Nd a c y f \<Rightarrow> f (k x < k y))"

definition at_path :: "rb_vars \<Rightarrow> 'a frame list \<Rightarrow> 'a rt \<Rightarrow> bool" where
  "at_path v fs T \<longleftrightarrow> v_q v = ra T \<and> v_p v = top_addr 0 fs \<and> (fs \<noteq> [] \<longrightarrow> v_dir v = fdir fs)"

datatype phase = PhN | PhF | PhD

definition phase_ok ::
  "('a \<Rightarrow> 'k::linorder) \<Rightarrow> 'a \<Rightarrow> phase \<Rightarrow> rb_vars \<Rightarrow> nat \<Rightarrow> 'a frame list \<Rightarrow> 'a rt \<Rightarrow> bool" where
  "phase_ok k x ph v b fs T \<longleftrightarrow> at_path v fs T \<and>
     (case ph of
        PhN \<Rightarrow> v_g v = top_addr 0 (drop 1 fs) \<and> v_t v = top_addr b (drop 2 fs) \<and>
          (2 \<le> length fs \<longrightarrow> v_last v = fdir (drop 1 fs)) \<and> (length fs \<le> 1 \<longrightarrow> \<not> pred fs) \<and>
          (isred T \<longrightarrow> \<not> sib_red fs) \<and> (pred fs \<longrightarrow> \<not> sib_red (drop 1 fs)) \<and> (fs = [] \<longrightarrow> T \<noteq> Lf \<and> \<not> isred T)
      | PhF \<Rightarrow> v_g v = top_addr 0 (drop 1 fs) \<and> (length fs \<le> 1 \<longrightarrow> v_t v = b) \<and> calm T \<and> fs \<noteq> []
      | PhD \<Rightarrow> v_g v \<noteq> 0 \<and> fs \<noteq> [] \<and> isred T \<and> calm (child k x T))"

definition loop_inv ::
  "('a \<Rightarrow> 'k::linorder) \<Rightarrow> 'a \<Rightarrow> phase \<Rightarrow> rb_vars \<Rightarrow> 'a rbheap \<Rightarrow> nat \<Rightarrow> 'a frame list \<Rightarrow> 'a rt \<Rightarrow> bool" where
  "loop_inv k x ph v h b fs T \<longleftrightarrow>
     zholds h b fs T \<and> valid k (plug fs T) \<and> on_path k x fs \<and> phase_ok k x ph v b fs T"

definition weight :: "('a \<Rightarrow> 'k::linorder) \<Rightarrow> 'a \<Rightarrow> phase \<Rightarrow> 'a rt \<Rightarrow> nat" where
  "weight k x ph T = (case ph of PhD \<Rightarrow> 2 * nsize (child k x T) + 2 | _ \<Rightarrow> 2 * nsize T + 1)"

definition added :: "('a \<Rightarrow> 'k) \<Rightarrow> 'a \<Rightarrow> 'a set \<Rightarrow> 'a set" where
  "added k x S = (if k x \<in> k ` S then S else insert x S)"

definition rb_done :: "('a \<Rightarrow> 'k::linorder) \<Rightarrow> 'a rbheap \<Rightarrow> nat \<Rightarrow> 'a set \<Rightarrow> bool" where
  "rb_done k h b S \<longleftrightarrow> (\<exists>T. T \<noteq> Lf \<and> zholds h b [] T \<and> valid k T \<and> items T = S)"

lemma child_two [simp]: "child k x (Nd a c y (two (k x < k y) L R)) = L"
  by (simp add: child_def)

lemma calm_two: "calm (Nd a c y (two d L R)) \<longleftrightarrow> \<not> c \<and> \<not> isred L \<and> \<not> isred R"
proof -
  have "two d L R = two True (two d L R True) (two d L R False)" using two_eta [of "two d L R" True] by simp
  then show ?thesis unfolding calm_def by (cases d) (auto simp: two_def fun_eq_iff)
qed

lemma plug_not_Lf: "T \<noteq> Lf \<Longrightarrow> plug fs T \<noteq> Lf"
  by (induction fs T rule: plug.induct) auto

lemma top_pos: "zholds h b fs T \<Longrightarrow> (top_addr 0 (drop n fs) = 0 \<longleftrightarrow> length fs \<le> n)"
proof (induction n arbitrary: fs T)
  case 0
  then show ?case by (cases fs) (auto simp: zholds_def)
next
  case (Suc n)
  show ?case
  proof (cases fs)
    case (Cons f fs')
    obtain a c y d s where "f = (a, c, y, d, s)" by (cases f)
    then show ?thesis using Suc Cons by (simp add: zholds_step)
  qed simp
qed

text \<open>What an iteration that goes on must achieve.\<close>

definition goes_on ::
  "('a \<Rightarrow> 'k::linorder) \<Rightarrow> 'a \<Rightarrow> nat \<Rightarrow> 'a set \<Rightarrow> nat \<Rightarrow> 'a rbheap \<Rightarrow> rb_vars \<Rightarrow> 'a rbheap \<Rightarrow> bool" where
  "goes_on k x b S w h v' h' \<longleftrightarrow> room h' = room h \<and>
     (\<exists>ph fs T. loop_inv k x ph v' h' b fs T \<and> items (plug fs T) = S \<and> weight k x ph T < w)"

lemma before_iff: "before d a b \<Longrightarrow> (a < b) = d"
  by (auto simp: before_def split: if_splits)

lemma items_flip [simp]: "items (flip T) = items T"
  by (cases T rule: rt_cases [where d = True]) (auto simp: flip_def [of Lf])

lemma calm_paint: "invc T \<Longrightarrow> isred T \<Longrightarrow> calm (paint False T)"
  by (cases T rule: rt_cases [where d = True]) (auto simp: calm_two)

lemma no_flip:
  assumes "zholds h b fs (Nd a c y (two d L R))" and "v_q v = a" and "\<not> (isred L \<and> isred R)"
  shows "rb_insert_or_flip x v h = Some (False, v, h)"
proof -
  have "is_red h (ra L) = Some (isred L)" "is_red h (ra R) = Some (isred R)"
    "deref h a = Some (cell c y (two d (ra L) (ra R)))" "a \<noteq> 0"
    using assms(1) is_red_holds [of h L] is_red_holds [of h R] by (auto simp: zholds_def deref_def)
  then show ?thesis using assms(2,3) by (cases d) (auto simp: rb_insert_or_flip_def two_def)
qed

text \<open>A tree in the heap that represents a set of items.\<close>

definition rb_tree :: "('a \<Rightarrow> 'k::linorder) \<Rightarrow> 'a rbheap \<Rightarrow> jsw_rbtree \<Rightarrow> 'a set \<Rightarrow> bool" where
  "rb_tree k h t S \<longleftrightarrow> 0 < brk h \<and>
     (\<exists>T. ra T = root t \<and> holds h T \<and> dist T \<and> valid k T \<and> \<not> isred T \<and> items T = S)"

section \<open>The parts of an iteration\<close>

locale rb_key =
  fixes cmp :: "'a \<Rightarrow> 'a \<Rightarrow> int" and key :: "'a \<Rightarrow> 'k::linorder"
  assumes cmp_0: "cmp y x = 0 \<longleftrightarrow> key y = key x" and cmp_neg: "cmp y x < 0 \<longleftrightarrow> key x < key y"
begin

lemma move_part:
  assumes z: "zholds h b fs (Nd a c y (two (key x < key y) L R))" and q: "v_q v = a"
    and v: "valid key (plug fs (Nd a c y (two (key x < key y) L R)))" and o: "on_path key x fs"
  shows "rb_move cmp x v h = Some (if key y = key x then (True, v) else (False,
      \<lparr>v_t = (if v_g v \<noteq> 0 then v_g v else v_t v), v_g = v_p v, v_p = a, v_q = ra L, v_dir = key x < key y, v_last = v_dir v\<rparr>))"
    and "key y \<noteq> key x \<Longrightarrow> zholds h b ((a, c, y, key x < key y, R) # fs) L"
    and "key y \<noteq> key x \<Longrightarrow> valid key (plug ((a, c, y, key x < key y, R) # fs) L)"
    and "key y \<noteq> key x \<Longrightarrow> on_path key x ((a, c, y, key x < key y, R) # fs)"
proof -
  have "deref h a = Some (cell c y (two (key x < key y) (ra L) (ra R)))" using z by (auto simp: zholds_def deref_def)
  then show "rb_move cmp x v h = Some (if key y = key x then (True, v) else (False,
      \<lparr>v_t = (if v_g v \<noteq> 0 then v_g v else v_t v), v_g = v_p v, v_p = a, v_q = ra L, v_dir = key x < key y, v_last = v_dir v\<rparr>))"
    using q by (simp add: rb_move_def cmp_0 cmp_neg)
qed (use z v o in \<open>auto simp: zholds_step before_def\<close>)

lemma done_at:
  assumes "zholds h b fs T" and "valid key (plug fs T)" and "T = Nd a c y f" and "key y = key x" and "items (plug fs T) = S"
  shows "rb_done key h b (added key x S)"
proof -
  have "y \<in> S" using assms(3,5) by (auto simp: items_plug items.simps(2))
  then have "key x \<in> key ` S" using assms(4) by (metis imageI)
  then show ?thesis using assms zholds_plug [of h b fs T] plug_not_Lf [of T fs]
    by (auto simp: rb_done_def added_def)
qed

lemma not_there:
  assumes "valid key (plug fs Lf)" and "on_path key x fs" and "items (plug fs (Nd a c x (two True Lf Lf))) = S"
  shows "S = added key x (items (plug fs Lf))"
proof -
  have "fbst key fs" using assms(1) by (simp add: valid_plug)
  then have "key x \<notin> key ` fitems fs" using fitems_key [OF _ assms(2)] by (metis imageE)
  then show ?thesis using assms(3) by (simp add: added_def items_plug)
qed

text \<open>An iteration that only moves.\<close>

abbreviation moved :: "rb_vars \<Rightarrow> nat \<Rightarrow> nat \<Rightarrow> bool \<Rightarrow> rb_vars" where
  "moved v a l d \<equiv> \<lparr>v_t = (if v_g v \<noteq> 0 then v_g v else v_t v), v_g = v_p v, v_p = a, v_q = l, v_dir = d, v_last = v_dir v\<rparr>"

lemma plain_step:
  assumes z: "zholds h b fs (Nd a c y (two (key x < key y) L R))"
    and v: "valid key (plug fs (Nd a c y (two (key x < key y) L R)))" and o: "on_path key x fs"
    and at: "at_path v fs (Nd a c y (two (key x < key y) L R))" and n: "\<not> (isred L \<and> isred R)" "\<not> (c \<and> pred fs)"
  shows "rb_step cmp x v h = Some (if key y = key x then (False, True, v, h)
           else (False, False, moved v a (ra L) (key x < key y), h))"
proof -
  have q: "v_q v = a" "v_p v = top_addr 0 fs" using at by (simp_all add: at_path_def)
  have "rb_fix v h = Some h" by (rule no_fix [OF z]) (use q n(2) in simp_all)
  then show ?thesis using no_flip [OF z q(1) n(1), of x] move_part(1) [OF z q(1) v o] by (simp add: rb_step_def)
qed

text \<open>The rotation at a red node below a red one, seen from the node.\<close>

lemma fix_part:
  assumes z: "zholds h b fs Q" and Q: "Q = Nd q True y (two (key x < key y) Q1 Q2)" and n: "nearly key fs Q"
    and pr: "pred fs" and o: "on_path key x fs" and at: "at_path v fs Q"
    and v: "v_g v = top_addr 0 (drop 1 fs)" "v_t v = top_addr b (drop 2 fs)" "v_last v = fdir (drop 1 fs)"
    and len: "2 \<le> length fs" and sib: "\<not> sib_red (drop 1 fs)"
  shows "\<exists>h' fs' T'. rb_fix v h = Some h' \<and> room h' = room h \<and> zholds h' b fs' T' \<and> valid key (plug fs' T') \<and>
     on_path key x fs' \<and> items (plug fs' T') = items (plug fs Q) \<and>
     (T' = Q \<and> fs' \<noteq> [] \<and> top_addr 0 fs' = v_p v \<or>
      (\<exists>T1 R. T' = Nd q False y (two (key x < key y) T1 R) \<and> isred T1 \<and> child key x T1 = Q1))"
proof -
  obtain p xp d0 C g cg xg e B rest where fs: "fs = (p, True, xp, d0, C) # (g, cg, xg, e, B) # rest"
  proof -
    obtain f1 f2 rest where f: "fs = f1 # f2 # rest" using len by (cases fs; cases "tl fs") auto
    obtain p c xp d0 C where f1: "f1 = (p, c, xp, d0, C)" by (cases f1)
    obtain g cg xg e B where f2: "f2 = (g, cg, xg, e, B)" by (cases f2)
    have "c" using pr f f1 by (simp add: pred_def)
    then show ?thesis using that f f1 f2 by simp
  qed
  have vs: "v_q v = q" "v_p v = p" "v_g v = g" "v_t v = top_addr b rest" "v_last v = e" and B: "\<not> isred B"
    using at v sib fs Q by (simp_all add: at_path_def)
  have bef: "before d0 (key x) (key xp)" "before e (key x) (key xg)" "on_path key x rest" using o fs by simp_all
  show ?thesis
  proof (cases "d0 = e")
    case True
    have z': "zholds h b ((p, True, xp, e, C) # (g, cg, xg, e, B) # rest) Q" using z fs True by simp
    have n': "nearly key ((p, True, xp, e, C) # (g, cg, xg, e, B) # rest) Q" using n fs True by simp
    let ?fs = "(p, False, xp, e, Nd g True xg (two e C B)) # rest"
    obtain h' where h': "rb_fix v h = Some h'" "zholds h' b ?fs Q" "room h' = room h"
      using fix_single [OF z', of v] vs Q by auto
    have "items (plug ?fs Q) = items (plug fs Q)" using fs by (auto simp: items_plug)
    then show ?thesis using h' single_valid [OF n' B] bef True vs(2)
      by (intro exI [of _ h'] exI [of _ ?fs] exI [of _ Q]) simp
  next
    case False
    then have d0: "d0 = (\<not> e)" by auto
    define L R where "L = two (key x < key y) Q1 Q2 (\<not> e)" and "R = two (key x < key y) Q1 Q2 e"
    have QLR: "Q = Nd q True y (two (\<not> e) L R)"
      unfolding Q L_def R_def using two_eta [of "two (key x < key y) Q1 Q2" "\<not> e"] by simp
    have z': "zholds h b ((p, True, xp, \<not> e, C) # (g, cg, xg, e, B) # rest) (Nd q True y (two (\<not> e) L R))"
      using z fs d0 QLR by simp
    have n': "nearly key ((p, True, xp, \<not> e, C) # (g, cg, xg, e, B) # rest) (Nd q True y (two (\<not> e) L R))"
      using n fs d0 QLR by simp
    let ?P = "Nd p True xp (two (\<not> e) R C)" and ?G = "Nd g True xg (two e L B)"
    let ?T = "Nd q False y (two e ?P ?G)"
    obtain h' where h': "rb_fix v h = Some h'" "room h' = room h" "zholds h' b rest ?T"
      using fix_double [OF z' vs] by auto
    have it: "items (plug rest ?T) = items (plug fs Q)" using fs QLR by (auto simp: items_plug)
    have "(key x < key xp) = (\<not> e)" "(key x < key xg) = e" using bef(1,2) before_iff d0 by metis+
    then have ch: "child key x ?P = R" "child key x ?G = L" by (simp_all add: child_def)
    have "\<exists>T1 R'. ?T = Nd q False y (two (key x < key y) T1 R') \<and> isred T1 \<and> child key x T1 = Q1"
    proof (cases "(key x < key y) = e")
      case True
      then have "R = Q1" by (simp add: R_def)
      then show ?thesis using True ch(1) by (intro exI [of _ ?P] exI [of _ ?G]) simp
    next
      case False
      then have e: "e = (\<not> (key x < key y))" by auto
      then have "L = Q1" by (simp add: L_def)
      moreover have "two e ?P ?G = two (key x < key y) ?G ?P" unfolding e by (rule two_flip)
      ultimately show ?thesis using ch(2) by (intro exI [of _ ?G] exI [of _ ?P]) simp
    qed
    then show ?thesis using h' it bef(3) double_valid [OF n' B]
      by (intro exI [of _ h'] exI [of _ rest] exI [of _ ?T]) blast
  qed
qed

section \<open>One iteration\<close>

text \<open>The node in the direction of \<open>x\<close> first.\<close>

lemma node_towards:
  obtains "T = Lf" | a c y L R where "T = Nd a c y (two (key x < key y) L R)"
proof (cases T)
  case Lf
  then show ?thesis using that(1) by blast
next
  case (Nd a c y f)
  then show ?thesis using that(2) two_eta [of f "key x < key y"] by metis
qed

text \<open>What an iteration leaves when it moves from a red or calm node.\<close>

lemma goes_on_step:
  assumes z: "zholds h b ((a, c, y, key x < key y, R) # fs) L"
    and v: "valid key (plug ((a, c, y, key x < key y, R) # fs) L)"
    and o: "on_path key x ((a, c, y, key x < key y, R) # fs)"
    and ph: "phase_ok key x ph v' b ((a, c, y, key x < key y, R) # fs) L"
    and S: "items (plug fs (Nd a c y (two (key x < key y) L R))) = S" and w: "weight key x ph L < w" and r: "room h = room hs"
  shows "goes_on key x b S w hs v' h"
  unfolding goes_on_def loop_inv_def using assms
  by (intro conjI exI [of _ ph] exI [of _ "(a, c, y, key x < key y, R) # fs"] exI [of _ L]) simp_all

lemma step_D:
  assumes "loop_inv key x PhD v h b fs T"
  shows "\<exists>st v'. rb_step cmp x v h = Some (False, st, v', h) \<and>
     (if st then rb_done key h b (added key x (items (plug fs T)))
      else goes_on key x b (items (plug fs T)) (weight key x PhD T) h v' h)"
proof (cases rule: node_towards [of T _ x])
  case 1
  then show ?thesis using assms by (simp add: loop_inv_def phase_ok_def)
next
  case (2 a c y L R)
  have i: "zholds h b fs T" "valid key (plug fs T)" "on_path key x fs" "at_path v fs T" "v_g v \<noteq> 0" "fs \<noteq> []" "isred T" "calm (child key x T)"
    using assms by (simp_all add: loop_inv_def phase_ok_def)
  have c: "c" "calm L" using i(7,8) 2 by simp_all
  have q: "v_q v = a" using i(4) 2 by (simp add: at_path_def)
  have "\<not> isred L" "\<not> isred R" using i(2) c(1) 2 by (simp_all add: valid_plug)
  moreover have "\<not> pred fs" using i(2) c(1) 2 by (cases fs) (auto simp: valid_plug pred_def)
  ultimately have st: "rb_step cmp x v h = Some (if key y = key x then (False, True, v, h)
      else (False, False, moved v a (ra L) (key x < key y), h))"
    using plain_step [of h b fs a c y x L R v] i 2 by simp
  show ?thesis
  proof (cases "key y = key x")
    case True
    then show ?thesis using st done_at [OF i(1,2) 2 True] by (intro exI [of _ True] exI [of _ v]) simp
  next
    case False
    note m = move_part(2-4) [OF i(1) [unfolded 2] q i(2) [unfolded 2] i(3) False]
    have "phase_ok key x PhF (moved v a (ra L) (key x < key y)) b ((a, c, y, key x < key y, R) # fs) L"
      using i(4,6) c(2) by (cases fs) (auto simp: phase_ok_def at_path_def)
    from goes_on_step [OF m this, where w = "weight key x PhD T" and hs = h] show ?thesis
      using st False 2 by (intro exI [of _ False] exI [of _ "moved v a (ra L) (key x < key y)"]) (simp add: weight_def)
  qed
qed

lemma step_F:
  assumes "loop_inv key x PhF v h b fs T"
  shows "\<exists>st v'. rb_step cmp x v h = Some (False, st, v', h) \<and>
     (if st then rb_done key h b (added key x (items (plug fs T)))
      else goes_on key x b (items (plug fs T)) (weight key x PhF T) h v' h)"
proof (cases rule: node_towards [of T _ x])
  case 1
  then show ?thesis using assms by (simp add: loop_inv_def phase_ok_def calm_def)
next
  case (2 a c y L R)
  have i: "zholds h b fs T" "valid key (plug fs T)" "on_path key x fs" "at_path v fs T"
    "v_g v = top_addr 0 (drop 1 fs)" "length fs \<le> 1 \<longrightarrow> v_t v = b" "calm T" "fs \<noteq> []"
    using assms by (simp_all add: loop_inv_def phase_ok_def)
  have c: "\<not> c" "\<not> isred L" "\<not> isred R" using i(7) 2 by (simp_all add: calm_two)
  have q: "v_q v = a" using i(4) 2 by (simp add: at_path_def)
  have st: "rb_step cmp x v h = Some (if key y = key x then (False, True, v, h)
      else (False, False, moved v a (ra L) (key x < key y), h))"
    using plain_step [of h b fs a c y x L R v] i 2 c by simp
  show ?thesis
  proof (cases "key y = key x")
    case True
    then show ?thesis using st done_at [OF i(1,2) 2 True] by (intro exI [of _ True] exI [of _ v]) simp
  next
    case False
    note m = move_part(2-4) [OF i(1) [unfolded 2] q i(2) [unfolded 2] i(3) False]
    have "(v_g v \<noteq> 0) = (2 \<le> length fs)" using top_pos [OF i(1), of 1] i(5) by auto
    then have t: "(if v_g v \<noteq> 0 then v_g v else v_t v) = top_addr b (drop 1 fs)"
      using i(5,6) top_addr_in [of "drop 1 fs" 0 b] by auto
    have "phase_ok key x PhN (moved v a (ra L) (key x < key y)) b ((a, c, y, key x < key y, R) # fs) L"
      using i(4,8) c t by (auto simp: phase_ok_def at_path_def pred_def)
    from goes_on_step [OF m this, where w = "weight key x PhF T" and hs = h] show ?thesis
      using st False 2 by (intro exI [of _ False] exI [of _ "moved v a (ra L) (key x < key y)"]) (simp add: weight_def)
  qed
qed

lemma step_N_plain:
  assumes inv: "loop_inv key x PhN v h b fs T" and T: "T = Nd a c y (two (key x < key y) L R)"
    and n: "\<not> (isred L \<and> isred R)"
  shows "\<exists>st v'. rb_step cmp x v h = Some (False, st, v', h) \<and>
     (if st then rb_done key h b (added key x (items (plug fs T)))
      else goes_on key x b (items (plug fs T)) (weight key x PhN T) h v' h)"
proof -
  have i: "zholds h b fs T" "valid key (plug fs T)" "on_path key x fs" "at_path v fs T"
    "v_g v = top_addr 0 (drop 1 fs)" "v_t v = top_addr b (drop 2 fs)" "length fs \<le> 1 \<longrightarrow> \<not> pred fs"
    "isred T \<longrightarrow> \<not> sib_red fs" "fs = [] \<longrightarrow> T \<noteq> Lf \<and> \<not> isred T"
    using inv by (simp_all add: loop_inv_def phase_ok_def)
  have q: "v_q v = a" using i(4) T by (simp add: at_path_def)
  have np: "\<not> (c \<and> pred fs)" using i(2) T by (cases fs) (auto simp: valid_plug pred_def)
  have st: "rb_step cmp x v h = Some (if key y = key x then (False, True, v, h)
      else (False, False, moved v a (ra L) (key x < key y), h))"
    using plain_step [of h b fs a c y x L R v] i T n np by simp
  show ?thesis
  proof (cases "key y = key x")
    case True
    then show ?thesis using st done_at [OF i(1,2) T True] by (intro exI [of _ True] exI [of _ v]) simp
  next
    case False
    note m = move_part(2-4) [OF i(1) [unfolded T] q i(2) [unfolded T] i(3) False]
    have "(v_g v \<noteq> 0) = (2 \<le> length fs)" using top_pos [OF i(1), of 1] i(5) by auto
    then have t: "(if v_g v \<noteq> 0 then v_g v else v_t v) = top_addr b (drop 1 fs)"
      using i(5,6) top_addr_in [of "drop 1 fs" 0 b] by auto
    have "phase_ok key x PhN (moved v a (ra L) (key x < key y)) b ((a, c, y, key x < key y, R) # fs) L"
      using i(4,8,9) t n T by (auto simp: phase_ok_def at_path_def pred_def)
    from goes_on_step [OF m this, where w = "weight key x PhN T" and hs = h] show ?thesis
      using st False T by (intro exI [of _ False] exI [of _ "moved v a (ra L) (key x < key y)"]) (simp add: weight_def)
  qed
qed

text \<open>The second and third part, when the first has made the node red.\<close>

lemma red_rest:
  assumes z: "zholds h b fs Q" and Q: "Q = Nd q True y (two (key x < key y) Q1 Q2)" and n: "nearly key fs Q"
    and o: "on_path key x fs" and at: "at_path v fs Q"
    and v: "v_g v = top_addr 0 (drop 1 fs)" "v_t v = top_addr b (drop 2 fs)" "2 \<le> length fs \<longrightarrow> v_last v = fdir (drop 1 fs)"
    and len: "length fs \<le> 1 \<longrightarrow> \<not> pred fs" and sib: "pred fs \<longrightarrow> \<not> sib_red (drop 1 fs)"
    and q1: "key y = key x \<or> calm Q1" and w: "2 * nsize Q < w"
  shows "\<exists>h' st v'. rb_fix v h = Some h' \<and> rb_move cmp x v h' = Some (st, v') \<and> room h' = room h \<and> st = (key y = key x) \<and>
     (if st then rb_done key h' b (items (plug fs Q))
      else goes_on key x b (items (plug fs Q)) w h v' h')"
proof -
  have vq: "v_q v = q" "v_p v = top_addr 0 fs" using at Q by (simp_all add: at_path_def)
  have stop: "rb_done key h' b (items (plug fs' T'))" if "zholds h' b fs' T'" "valid key (plug fs' T')" "T' \<noteq> Lf" for h' fs' T'
    using that zholds_plug [of h' b fs' T'] plug_not_Lf [of T' fs'] unfolding rb_done_def by blast
  \<comment> \<open>the node stays red at the end of a path\<close>
  have red: ?thesis if fx: "rb_fix v h = Some h'" "room h' = room h" "zholds h' b fs' Q" "valid key (plug fs' Q)"
      "on_path key x fs'" "items (plug fs' Q) = items (plug fs Q)" "top_addr 0 fs' = v_p v" "fs' = [] \<longrightarrow> fs = []" for h' fs'
  proof (cases "key y = key x")
    case True
    have "Q \<noteq> Lf" using Q by simp
    then show ?thesis using True move_part(1) [OF fx(3) [unfolded Q] vq(1) fx(4) [unfolded Q] fx(5)] fx stop [OF fx(3,4)]
      by (intro exI [of _ h'] exI [of _ True] exI [of _ v]) simp
  next
    case False
    note m = move_part(2-4) [OF fx(3) [unfolded Q] vq(1) fx(4) [unfolded Q] fx(5) False]
    have "phase_ok key x PhF (moved v q (ra Q1) (key x < key y)) b ((q, True, y, key x < key y, Q2) # fs') Q1"
      using fx(7,8) v(1,2) q1 False by (auto simp: phase_ok_def at_path_def)
    from goes_on_step [OF m this, where w = w and hs = h and S = "items (plug fs Q)"] show ?thesis
      using fx(1,2,6) w Q False move_part(1) [OF fx(3) [unfolded Q] vq(1) fx(4) [unfolded Q] fx(5)]
      by (intro exI [of _ h'] exI [of _ False] exI [of _ "moved v q (ra Q1) (key x < key y)"]) (simp add: weight_def)
  qed
  show ?thesis
  proof (cases "pred fs")
    case False
    have "rb_fix v h = Some h" by (rule no_fix [OF z]) (use vq Q False in simp_all)
    then show ?thesis using red [of h fs] z nearly_valid [OF n False] o vq(2) by simp
  next
    case True
    then have l: "2 \<le> length fs" using len by (cases "length fs \<le> 1") auto
    have lt: "v_last v = fdir (drop 1 fs)" and sb: "\<not> sib_red (drop 1 fs)" using v(3) l sib True by blast+
    obtain h' fs' T' where fx: "rb_fix v h = Some h'" "room h' = room h" "zholds h' b fs' T'" "valid key (plug fs' T')"
        "on_path key x fs'" "items (plug fs' T') = items (plug fs Q)"
       and or: "T' = Q \<and> fs' \<noteq> [] \<and> top_addr 0 fs' = v_p v \<or>
         (\<exists>T1 R. T' = Nd q False y (two (key x < key y) T1 R) \<and> isred T1 \<and> child key x T1 = Q1)"
      using fix_part [OF z Q n True o at v(1,2) lt l sb] by blast
    show ?thesis
    proof (cases "T' = Q \<and> fs' \<noteq> [] \<and> top_addr 0 fs' = v_p v")
      case True
      then show ?thesis using red [of h' fs'] fx by simp
    next
      case False
      then obtain T1 R where T': "T' = Nd q False y (two (key x < key y) T1 R)" "isred T1" "child key x T1 = Q1" using or by blast
      note mv = move_part(1) [OF fx(3) [unfolded T'(1)] vq(1) fx(4) [unfolded T'(1)] fx(5)]
      show ?thesis
      proof (cases "key y = key x")
        case True
        have "T' \<noteq> Lf" using T'(1) by simp
        then show ?thesis using True mv fx stop [OF fx(3,4)] by (intro exI [of _ h'] exI [of _ True] exI [of _ v]) simp
      next
        case False
        note m = move_part(2-4) [OF fx(3) [unfolded T'(1)] vq(1) fx(4) [unfolded T'(1)] fx(5) False]
        have "v_p v \<noteq> 0" using top_pos [OF z, of 0] vq(2) l by auto
        then have "phase_ok key x PhD (moved v q (ra T1) (key x < key y)) b ((q, False, y, key x < key y, R) # fs') T1"
          using T'(2,3) q1 False by (auto simp: phase_ok_def at_path_def)
        from goes_on_step [OF m this, where w = w and hs = h and S = "items (plug fs Q)"] show ?thesis
          using fx(1,2,6) w Q T' False mv
            by (intro exI [of _ h'] exI [of _ False] exI [of _ "moved v q (ra T1) (key x < key y)"]) (simp add: weight_def)
      qed
    qed
  qed
qed

lemma step_N_flip:
  assumes inv: "loop_inv key x PhN v h b fs T" and T: "T = Nd a c y (two (key x < key y) L R)"
    and n: "isred L" "isred R"
  shows "\<exists>st v' h'. rb_step cmp x v h = Some (False, st, v', h') \<and> room h' = room h \<and>
     (if st then rb_done key h' b (added key x (items (plug fs T)))
      else goes_on key x b (items (plug fs T)) (weight key x PhN T) h v' h')"
proof -
  have i: "zholds h b fs T" "valid key (plug fs T)" "on_path key x fs" "at_path v fs T"
    "v_g v = top_addr 0 (drop 1 fs)" "v_t v = top_addr b (drop 2 fs)" "length fs \<le> 1 \<longrightarrow> \<not> pred fs"
    "2 \<le> length fs \<longrightarrow> v_last v = fdir (drop 1 fs)" "pred fs \<longrightarrow> \<not> sib_red (drop 1 fs)"
    using inv by (simp_all add: loop_inv_def phase_ok_def)
  have q: "v_q v = a" using i(4) T by (simp add: at_path_def)
  let ?Q = "Nd a True y (two (key x < key y) (paint False L) (paint False R))"
  have fQ: "flip T = ?Q" using T by simp
  define L' R' where "L' = two (key x < key y) L R False" and "R' = two (key x < key y) L R True"
  have T': "T = Nd a c y (two False L' R')"
    unfolding T L'_def R'_def using two_eta [of "two (key x < key y) L R" False] by simp
  have "isred L'" "isred R'" using n by (auto simp: L'_def R'_def two_def)
  then obtain h1 where h1: "rb_insert_or_flip x v h = Some (False, v, h1)" "room h1 = room h" "zholds h1 b fs ?Q"
    using flip_part [OF i(1) [unfolded T'] q, of x] fQ unfolding T' by auto
  have nr: "nearly key fs ?Q" using flip_nearly [OF i(2) [unfolded T] n] by simp
  have at: "at_path v fs ?Q" using i(4) T by (simp add: at_path_def)
  have "invc L" using i(2) T by (simp add: valid_plug)
  then have cl: "calm (paint False L)" using n(1) by (rule calm_paint)
  have it: "items (plug fs ?Q) = items (plug fs T)" using T by (simp add: items_plug)
  have w: "2 * nsize ?Q < weight key x PhN T" using T by (simp add: weight_def)
  obtain h' st v' where r: "rb_fix v h1 = Some h'" "rb_move cmp x v h' = Some (st, v')" "room h' = room h1" "st = (key y = key x)"
     "if st then rb_done key h' b (items (plug fs ?Q))
      else goes_on key x b (items (plug fs ?Q)) (weight key x PhN T) h1 v' h'"
    using red_rest [OF h1(3) refl nr i(3) at i(5,6,8,7,9) disjI2 [OF cl] w] by auto
  have "y \<in> items (plug fs T)" using T by (simp add: items_plug)
  then have "key y = key x \<Longrightarrow> added key x (items (plug fs T)) = items (plug fs T)"
    by (metis added_def imageI)
  then show ?thesis using r h1(1,2) it by (auto simp: rb_step_def goes_on_def)
qed

lemma step_N_insert:
  assumes inv: "loop_inv key x PhN v h b fs Lf" and room: "0 < room h"
  shows "\<exists>v' h'. rb_step cmp x v h = Some (False, True, v', h') \<and> room h' = room h - 1 \<and>
     rb_done key h' b (added key x (items (plug fs Lf)))"
proof -
  have i: "zholds h b fs Lf" "valid key (plug fs Lf)" "on_path key x fs" "at_path v fs Lf"
    "v_g v = top_addr 0 (drop 1 fs)" "v_t v = top_addr b (drop 2 fs)" "length fs \<le> 1 \<longrightarrow> \<not> pred fs"
    "2 \<le> length fs \<longrightarrow> v_last v = fdir (drop 1 fs)" "pred fs \<longrightarrow> \<not> sib_red (drop 1 fs)" "fs \<noteq> []"
    using inv by (simp_all add: loop_inv_def phase_ok_def)
  obtain p c y d s fs' where fs: "fs = (p, c, y, d, s) # fs'" using i(10) by (cases fs) auto
  have vp: "v_q v = 0" "v_p v = p" "v_dir v = d" using i(4) fs by (simp_all add: at_path_def)
  let ?Q = "Nd (brk h) True x (two True Lf Lf)"
  have Q: "?Q = Nd (brk h) True x (two (key x < key x) Lf Lf)" by (simp add: two_def fun_eq_iff)
  let ?v = "v\<lparr>v_q := brk h\<rparr>"
  obtain h1 where h1: "rb_insert_or_flip x v h = Some (False, ?v, h1)" "zholds h1 b fs ?Q" "room h1 = room h - 1"
    using insert_part [OF i(1) fs vp room] by blast
  have nr: "nearly key fs ?Q" by (rule insert_nearly [OF i(2,3)])
  have at: "at_path ?v fs ?Q" using i(4) by (simp add: at_path_def)
  have g: "v_g ?v = top_addr 0 (drop 1 fs)" "v_t ?v = top_addr b (drop 2 fs)" "2 \<le> length fs \<longrightarrow> v_last ?v = fdir (drop 1 fs)"
    using i(5,6,8) by simp_all
  have w: "2 * nsize ?Q < 2 * nsize ?Q + 1" by simp
  obtain h' v' where r: "rb_fix ?v h1 = Some h'" "rb_move cmp x ?v h' = Some (True, v')" "room h' = room h1"
     "rb_done key h' b (items (plug fs ?Q))"
    using red_rest [OF h1(2) Q nr i(3) at g i(7,9) disjI1 [OF refl] w] by auto
  then show ?thesis using h1(1,3) not_there [OF i(2,3), of "brk h"] by (simp add: rb_step_def)
qed

section \<open>The loop\<close>

lemma insert_loop:
  assumes "loop_inv key x ph v h b fs T" and "0 < room h"
  shows "\<exists>h'. rbinsert_loop cmp x v h = Some (False, h') \<and> room h - 1 \<le> room h' \<and>
     rb_done key h' b (added key x (items (plug fs T)))"
  using assms
proof (induction "weight key x ph T" arbitrary: ph v h fs T rule: less_induct)
  case less
  let ?S = "items (plug fs T)"
  have "\<exists>st v' h'. rb_step cmp x v h = Some (False, st, v', h') \<and> room h - 1 \<le> room h' \<and>
     (if st then rb_done key h' b (added key x ?S) else goes_on key x b ?S (weight key x ph T) h v' h')"
  proof (cases ph)
    case PhD
    then show ?thesis using step_D [of x v h b fs T] less.prems(1) by fastforce
  next
    case PhF
    then show ?thesis using step_F [of x v h b fs T] less.prems(1) by fastforce
  next
    case PhN
    then have inv: "loop_inv key x PhN v h b fs T" using less.prems(1) by simp
    show ?thesis
    proof (cases rule: node_towards [of T _ x])
      case 1
      then show ?thesis using step_N_insert [OF inv [unfolded 1] less.prems(2)] 1 by force
    next
      case (2 a c y L R)
      show ?thesis
      proof (cases "isred L \<and> isred R")
        case True
        then show ?thesis using step_N_flip [OF inv 2] PhN by fastforce
      next
        case False
        then show ?thesis using step_N_plain [OF inv 2] PhN by fastforce
      qed
    qed
  qed
  then obtain st v' h' where st: "rb_step cmp x v h = Some (False, st, v', h')" "room h - 1 \<le> room h'"
     "if st then rb_done key h' b (added key x ?S) else goes_on key x b ?S (weight key x ph T) h v' h'" by blast
  show ?case
  proof (cases st)
    case True
    then show ?thesis using st by (simp add: rbinsert_loop.simps)
  next
    case False
    then obtain ph' fs' T' where g: "room h' = room h" "loop_inv key x ph' v' h' b fs' T'" "items (plug fs' T') = ?S"
        "weight key x ph' T' < weight key x ph T"
      using st(3) by (auto simp: goes_on_def)
    then obtain h'' where "rbinsert_loop cmp x v' h' = Some (False, h'')" "room h' - 1 \<le> room h''"
        "rb_done key h'' b (added key x ?S)"
      using less.hyps [OF g(4) g(2)] less.prems(2) by auto
    then show ?thesis using st(1) False g(1) by (simp add: rbinsert_loop.simps [of cmp x v])
  qed
qed

section \<open>Insertion and search\<close>

lemma insert_ok:
  assumes "rb_tree key h t S" and "0 < room h"
  shows "\<exists>t' h'. jsw_rbinsert cmp t x h = Some ((1, t'), h') \<and> rb_tree key h' t' (added key x S) \<and>
     tsize t' = tsize t + 1 \<and> room h - 1 \<le> room h'"
proof -
  obtain T where T: "ra T = root t" "holds h T" "dist T" "valid key T" "\<not> isred T" "items T = S" "0 < brk h"
    using assms(1) by (auto simp: rb_tree_def)
  show ?thesis
  proof (cases "T = Lf")
    case True
    let ?T = "Nd (brk h) False x (two True Lf Lf)"
    let ?h = "h\<lparr>nodes := (nodes h)(brk h := cell False x (two True 0 0)), brk := brk h + 1, room := room h - 1\<rparr>"
    have "jsw_rbinsert cmp t x h = Some ((1, t\<lparr>root := brk h, tsize := tsize t + 1\<rparr>), ?h)"
      using True T(1,7) assms(2) by (simp add: jsw_rbinsert_def new_node_def upd_def cell_def two_def Let_def)
    moreover have "rb_tree key ?h (t\<lparr>root := brk h, tsize := tsize t + 1\<rparr>) (added key x S)"
      using True T(6,7) unfolding rb_tree_def by (intro conjI exI [of _ ?T]) (simp_all add: valid_def added_def)
    ultimately show ?thesis by (intro exI [of _ "t\<lparr>root := brk h, tsize := tsize t + 1\<rparr>"] exI [of _ ?h]) simp
  next
    case False
    let ?b = "brk h"
    let ?h = "h\<lparr>nodes := (nodes h)(?b := \<lparr>red = 0, ndata = None, link0 = 0, link1 = root t\<rparr>), brk := brk h + 1\<rparr>"
    let ?v = "\<lparr>v_t = ?b, v_g = 0, v_p = 0, v_q = root t, v_dir = False, v_last = False\<rparr>"
    have nb: "?b \<notin> addrs T" using holds_bound [OF T(2)] by auto
    have "holds ?h T" by (rule holds_cong [OF T(2)]) (use nb in auto)
    then have "loop_inv key x PhN ?v ?h ?b [] T"
      using T False nb by (auto simp: loop_inv_def zholds_def zdist_def phase_ok_def at_path_def pred_def head_cell_def)
    from insert_loop [OF this] obtain h1 where h1: "rbinsert_loop cmp x ?v ?h = Some (False, h1)" "room h - 1 \<le> room h1"
        "rb_done key h1 ?b (added key x S)"
      using assms(2) T(6) by auto
    then obtain T1 where T1: "T1 \<noteq> Lf" "zholds h1 ?b [] T1" "valid key T1" "items T1 = added key x S" by (auto simp: rb_done_def)
    have hd1: "deref h1 ?b = Some (head_cell (ra T1))" and h1T: "holds h1 T1" "dist T1" "0 < brk h1"
      using T1(2) by (auto simp: zholds_def zdist_def deref_def)
    obtain h2 where h2: "upd (ra T1) (\<lambda>n. n\<lparr>red := 0\<rparr>) h1 = Some h2" "holds h2 (paint False T1)" "outside {ra T1} h1 h2"
      using paint_heap [OF h1T(1) T1(1) h1T(2), of False] by auto
    let ?t = "t\<lparr>root := ra T1, tsize := tsize t + 1\<rparr>"
    have "root t \<noteq> 0" using T(1) ra_zero [OF T(2)] False by simp
    then have "jsw_rbinsert cmp t x h = Some ((1, ?t), h2)"
      using h1(1) hd1 h2(1) by (simp add: jsw_rbinsert_def Let_def)
    moreover have "rb_tree key h2 ?t (added key x S)"
      using T1 h1T h2(2,3) invc_paint unfolding rb_tree_def
      by (intro conjI exI [of _ "paint False T1"]) (auto simp: valid_def outside_def)
    ultimately show ?thesis using h1(2) h2(3) by (intro exI [of _ ?t] exI [of _ h2]) (auto simp: outside_def)
  qed
qed

lemma find_loop:
  assumes "holds h T" and "bst key T"
  shows "\<exists>r. rbfind_loop cmp h x (ra T) = Some r \<and>
     (case r of None \<Rightarrow> key x \<notin> key ` items T | Some y \<Rightarrow> y \<in> items T \<and> key y = key x)"
  using assms
proof (induction T rule: rt_induct [where d = True])
  case Lf
  then show ?case by (simp add: rbfind_loop.simps)
next
  case (Nd a c y L R)
  have d: "deref h a = Some (cell c y (two True (ra L) (ra R)))" "a \<noteq> 0" using Nd.prems(1) by (auto simp: deref_def)
  have l: "rbfind_loop cmp h x a = (if key y = key x then Some (Some y)
      else rbfind_loop cmp h x (if key x < key y then ra L else ra R))"
    using d by (subst rbfind_loop.simps) (simp add: cmp_0 cmp_neg two_def)
  have side: "key z < key y" if "z \<in> items L" for z using Nd.prems(2) that by (simp add: before_def)
  have side': "key y < key z" if "z \<in> items R" for z using Nd.prems(2) that by (simp add: before_def)
  consider "key y = key x" | "key x < key y" | "key y < key x" by (meson linorder_less_linear)
  then show ?case
  proof cases
    case 1
    then show ?thesis using l by simp
  next
    case 2
    have n: "key x \<notin> key ` items R" using side' 2 by fastforce
    obtain r where r: "rbfind_loop cmp h x (ra L) = Some r"
      "case r of None \<Rightarrow> key x \<notin> key ` items L | Some y \<Rightarrow> y \<in> items L \<and> key y = key x"
      using Nd.IH(1) Nd.prems by auto
    show ?thesis using r n l 2 by (intro exI [of _ r]) (auto split: option.splits)
  next
    case 3
    have n: "key x \<notin> key ` items L" using side 3 by fastforce
    obtain r where r: "rbfind_loop cmp h x (ra R) = Some r"
      "case r of None \<Rightarrow> key x \<notin> key ` items R | Some y \<Rightarrow> y \<in> items R \<and> key y = key x"
      using Nd.IH(2) Nd.prems by auto
    show ?thesis using r n l 3 by (intro exI [of _ r]) (auto split: option.splits)
  qed
qed

lemma find_ok:
  assumes "rb_tree key h t S"
  shows "\<exists>r. jsw_rbfind cmp h t x = Some r \<and>
     (case r of None \<Rightarrow> key x \<notin> key ` S | Some y \<Rightarrow> y \<in> S \<and> key y = key x)"
  using assms find_loop by (fastforce simp: rb_tree_def jsw_rbfind_def valid_def)

end

end
