(* ===== verification/Blacklist_Set.thy ===== *)
theory Blacklist_Set
  imports Blacklist Rb_Correct
begin

text \<open>
  What the backup blacklist promises (first half of \<open>src/persistence_client_library_backup_filelist.c\<close> on top
  of \<open>src/rbtree.c\<close>): after the configuration file has been read, \<open>pclBackupNeeded\<close> refuses the backup of
  exactly those names whose checksum is that of an entry.

  \<open>keyed_set\<close> is what the blacklist needs of a container: insertion and search by key. The red-black tree
  with a comparison by key provides it.
\<close>

section \<open>The container\<close>

locale keyed_set =
  fixes repr :: "'h \<Rightarrow> 't \<Rightarrow> 'a set \<Rightarrow> bool" and ins :: "'t \<Rightarrow> 'a \<Rightarrow> 'h \<Rightarrow> ((int \<times> 't) \<times> 'h) option"
    and find :: "'h \<Rightarrow> 't \<Rightarrow> 'a \<Rightarrow> 'a option option" and key :: "'a \<Rightarrow> 'k" and space :: "'h \<Rightarrow> nat"
  assumes ins_repr: "repr h t S \<Longrightarrow> 0 < space h \<Longrightarrow>
      \<exists>t' h'. ins t x h = Some ((1, t'), h') \<and> repr h' t' (added key x S) \<and> space h - 1 \<le> space h'"
    and find_repr: "repr h t S \<Longrightarrow>
      \<exists>r. find h t x = Some r \<and> (case r of None \<Rightarrow> key x \<notin> key ` S | Some y \<Rightarrow> y \<in> S \<and> key y = key x)"
begin

primrec ins_all :: "'a list \<Rightarrow> 't \<Rightarrow> 'h \<Rightarrow> ('t \<times> 'h) option" where
  "ins_all [] t h = Some (t, h)"
| "ins_all (x # xs) t h = Option.bind (ins t x h) (\<lambda>((_, t), h). ins_all xs t h)"

lemma added_keys: "key ` added key x S = insert (key x) (key ` S)"
  by (auto simp: added_def)

lemma ins_all_repr:
  assumes "repr h t S" and "length xs \<le> space h"
  shows "\<exists>t' h' S'. ins_all xs t h = Some (t', h') \<and> repr h' t' S' \<and> key ` S' = key ` S \<union> key ` set xs"
  using assms
proof (induction xs arbitrary: t h S)
  case (Cons x xs)
  obtain t1 h1 where i: "ins t x h = Some ((1, t1), h1)" "repr h1 t1 (added key x S)" "space h - 1 \<le> space h1"
    using ins_repr [OF Cons.prems(1), of x] Cons.prems(2) by auto
  then have "length xs \<le> space h1" using Cons.prems(2) by simp
  then show ?case using Cons.IH [OF i(2)] i(1) by (auto simp: added_keys)
qed auto

lemma find_repr_key:
  assumes "repr h t S"
  shows "\<exists>r. find h t x = Some r \<and> (r \<noteq> None \<longleftrightarrow> key x \<in> key ` S)"
proof -
  obtain r where "find h t x = Some r" "case r of None \<Rightarrow> key x \<notin> key ` S | Some y \<Rightarrow> y \<in> S \<and> key y = key x"
    using find_repr [OF assms, of x] by blast
  then show ?thesis by (auto split: option.splits intro: rev_image_eqI)
qed

end

text \<open>The red-black tree provides the container.\<close>

sublocale rb_key \<subseteq> keyed_set "rb_tree key" "jsw_rbinsert cmp" "jsw_rbfind cmp" key room
proof unfold_locales
  fix h t S x
  assume "rb_tree key h t S" and "0 < room h"
  then show "\<exists>t' h'. jsw_rbinsert cmp t x h = Some ((1, t'), h') \<and> rb_tree key h' t' (added key x S) \<and> room h - 1 \<le> room h'"
    using insert_ok by blast
qed (rule find_ok)

text \<open>The items of the blacklist, compared by \<open>key_val_cmp\<close>.\<close>

interpretation bl: rb_key key_val_cmp kv_key
  by unfold_locales (auto simp: key_val_cmp_def)

section \<open>Reading the list\<close>

definition name_crc :: "string \<Rightarrow> u32" where
  "name_crc p = crc32_bytes 0 (bytes p)"

definition entry_of :: "string \<Rightarrow> key_value_s" where
  "entry_of name = \<lparr>kv_key = name_crc (take 127 name), kv_value = []\<rparr>"

lemma pclCrc32_name: "pclCrc32 0 (Some (bytes p)) (length p) = Some (name_crc p)"
  using pclCrc32_bytes [of 0 "bytes p"] by (simp add: name_crc_def)

lemma store_names_all:
  assumes "\<And>k. k < length ts \<Longrightarrow> token_string (tok (i + k)) = Some (ts ! k)"
    and "\<And>k. 0 < k \<Longrightarrow> k \<le> length ts \<Longrightarrow> tok (i + k) \<noteq> Tok_null" and "tok (i + length ts + 1) = Tok_null"
    and "i + length ts + 1 < TOKENARRAYSIZE"
  shows "store_names [i..<TOKENARRAYSIZE] tok t h = bl.ins_all (map entry_of ts) t h"
  using assms
proof (induction ts arbitrary: i t h)
  case Nil
  have "[i..<TOKENARRAYSIZE] = i # [i + 1..<TOKENARRAYSIZE]" using Nil.prems(4) by (simp add: upt_conv_Cons)
  then show ?case using Nil.prems(3,4) by (simp add: rd_def nat_add_distrib)
next
  case (Cons n ts)
  have e: "[i..<TOKENARRAYSIZE] = i # [i + 1..<TOKENARRAYSIZE]" using Cons.prems(4) by (simp add: upt_conv_Cons)
  have "rd TOKENARRAYSIZE tok (int i + 1) = Some (tok (i + 1))" using Cons.prems(4) by (simp add: rd_def nat_add_distrib)
  moreover have "tok (i + 1) \<noteq> Tok_null" using Cons.prems(2) [of 1] by simp
  moreover have "token_string (tok i) = Some n" using Cons.prems(1) [of 0] by simp
  moreover have "store_names [i + 1..<TOKENARRAYSIZE] tok t' h' = bl.ins_all (map entry_of ts) t' h'" for t' h'
  proof (rule Cons.IH)
    show "token_string (tok (i + 1 + k)) = Some (ts ! k)" if "k < length ts" for k
      using Cons.prems(1) [of "k + 1"] that by (simp add: add.commute add.left_commute)
    show "tok (i + 1 + k) \<noteq> Tok_null" if "0 < k" "k \<le> length ts" for k
      using Cons.prems(2) [of "k + 1"] that by (simp add: add.commute add.left_commute)
  qed (use Cons.prems(3,4) in simp_all)
  ultimately show ?case
    unfolding e by (cases "jsw_rbinsert key_val_cmp t (entry_of n) h")
      (auto simp: pclCrc32_name snprintf_def key_val_dup_def entry_of_def [symmetric] Let_def)
qed

lemma heap_empty_tree: "rb_tree k (heap_empty n) jsw_rbnew {}"
  by (auto simp: rb_tree_def heap_empty_def jsw_rbnew_def valid_def intro: exI [of _ Lf])

lemma need_backup:
  assumes "gRb_tree_bl s = Some (t, h)" and "rb_tree kv_key h t S"
  shows "pclBackupNeeded p s = Some (if name_crc p \<in> kv_key ` S then DONT_CREATE_BACKUP else CREATE_BACKUP)"
proof -
  obtain r where "jsw_rbfind key_val_cmp h t \<lparr>kv_key = name_crc p, kv_value = []\<rparr> = Some r"
      "r \<noteq> None \<longleftrightarrow> name_crc p \<in> kv_key ` S"
    using bl.find_repr_key [OF assms(2), of "\<lparr>kv_key = name_crc p, kv_value = []\<rparr>"] by auto
  then show ?thesis using assms(1) by (simp add: pclBackupNeeded_def pclCrc32_name need_backup_key_def)
qed

section \<open>Properties\<close>

text \<open>C18: the red-black tree is a set with keys. For any comparison that orders the items by a key, inserting
  into a tree of the items \<open>S\<close> (when memory is left for one node) ends and succeeds; the result is again a
  search tree with a black root, no red node below a red one and the same number of black nodes on every
  path, and its items are \<open>S\<close> and the new one, unless an item with this key was there. A search ends and
  finds an item iff one with its key is in the tree. (The counter of items also counts the duplicates.)\<close>

theorem rbtree_insert_find:
  assumes "\<And>y x. cmp y x = 0 \<longleftrightarrow> key y = (key x :: 'k::linorder)" and "\<And>y x. cmp y x < 0 \<longleftrightarrow> key x < key y"
    and "rb_tree key h t S" and "0 < room h"
  shows "\<exists>t' h'. jsw_rbinsert cmp t x h = Some ((1, t'), h') \<and> rb_tree key h' t' (added key x S) \<and> tsize t' = tsize t + 1 \<and>
     (\<forall>z. \<exists>r. jsw_rbfind cmp h' t' z = Some r \<and>
        (case r of None \<Rightarrow> key z \<notin> key ` added key x S | Some y \<Rightarrow> y \<in> added key x S \<and> key y = key z))"
proof -
  have k: "rb_key cmp key" using assms(1,2) by (rule rb_key.intro)
  obtain t' h' where "jsw_rbinsert cmp t x h = Some ((1, t'), h')" "rb_tree key h' t' (added key x S)" "tsize t' = tsize t + 1"
    using rb_key.insert_ok [OF k assms(3,4), of x] by blast
  then show ?thesis using rb_key.find_ok [OF k, of h' t'] by blast
qed

theorem rbtree_insert_find_witness:
  "\<exists>t' h'. jsw_rbinsert (\<lambda>y x. x - y) jsw_rbnew (7 :: int) (heap_empty 3) = Some ((1, t'), h') \<and>
     jsw_rbfind (\<lambda>y x. x - y) h' t' 7 = Some (Some 7) \<and> jsw_rbfind (\<lambda>y x. x - y) h' t' 8 = Some None"
proof -
  have "0 < room (heap_empty 3 :: int rbheap)" by (simp add: heap_empty_def)
  moreover have "added (\<lambda>z. z) (7 :: int) {} = {7}" by (simp add: added_def)
  moreover obtain t' h' where th: "jsw_rbinsert (\<lambda>y x. x - y) jsw_rbnew (7 :: int) (heap_empty 3) = Some ((1, t'), h')"
     "\<forall>z. \<exists>r. jsw_rbfind (\<lambda>y x. x - y) h' t' z = Some r \<and> (case r of None \<Rightarrow> z \<notin> (\<lambda>z. z) ` added (\<lambda>z. z) 7 {}
        | Some y \<Rightarrow> y \<in> added (\<lambda>z. z) 7 {} \<and> y = z)"
    using rbtree_insert_find [of "\<lambda>y x. x - y" "\<lambda>z. z" "heap_empty 3" jsw_rbnew "{}" "7 :: int"]
      heap_empty_tree [of "\<lambda>z. z :: int" 3] calculation(1) by auto
  obtain r1 where "jsw_rbfind (\<lambda>y x. x - y) h' t' 7 = Some r1" "case r1 of None \<Rightarrow> 7 \<notin> {7 :: int} | Some y \<Rightarrow> y = 7"
    using th(2) calculation(2) by (auto dest: spec [of _ 7] split: option.splits)
  moreover obtain r2 where "jsw_rbfind (\<lambda>y x. x - y) h' t' 8 = Some r2" "case r2 of None \<Rightarrow> True | Some y \<Rightarrow> y \<in> {7 :: int} \<and> y = 8"
    using th(2) calculation(2) by (auto dest: spec [of _ 8] split: option.splits)
  ultimately show ?thesis using th(1) by (auto split: option.splits)
qed

text \<open>C20: the blacklist does what it is for. When the configuration file consists of fewer than 254 names, each followed by
  a separator, and there is memory for the tree, reading it succeeds, and then for every path
  \<open>pclBackupNeeded\<close> answers that no backup is needed exactly when the checksum of the path is the checksum
  of one of the names (of its first 127 characters); no other path is excluded, and no name is forgotten.
  (The answer goes by checksum: a path whose checksum collides with that of a name is excluded as well.)\<close>

theorem blacklist_decides:
  assumes "file_content (fsys s) name = Some (bytes (config_text c ts))" and "ts \<noteq> []" and "length ts < 254"
    and "\<forall>t \<in> set ts. token_ok sep_backup t" and "sep_backup c = Some True"
    and "gpTokenArray s = (\<lambda>_. Tok_null)" and "length ts \<le> mem"
    and "\<not> fs_denied (fsys s) (resolve name) O_RDONLY" and "free_fd (fs_fds (fsys s)) < fs_maxfd (fsys s)"
  shows "\<exists>s'. readBlacklistConfigFile (Some name) True mem s = Some (0, s') \<and>
     get_fd (fsys s') = get_fd (fsys s) \<and> file_content (fsys s') = file_content (fsys s) \<and>
     (\<forall>p. pclBackupNeeded p s' = Some (if name_crc p \<in> (\<lambda>n. name_crc (take 127 n)) ` set ts
        then DONT_CREATE_BACKUP else CREATE_BACKUP))"
proof -
  let ?text = "config_text c ts"
  obtain n where n: "fs_names (fsys s) (resolve name) = Some (Reg n)" "fs_data (fsys s) n = bytes ?text"
    using assms(1) by (auto simp: file_content_reg)
  obtain i f where o: "fs_open name O_RDONLY False False (fsys s) = (int i, f)" "get_fd (fsys s) (int i) = None"
     "fs_names f = fs_names (fsys s)" "fs_data f = fs_data (fsys s)"
     "get_fd f = (get_fd (fsys s))(int i \<mapsto> \<lparr>of_ino = n, of_pos = 0, of_read = True, of_write = False\<rparr>)"
    using fs_open_reg_free [OF n(1) assms(8,9), of False False] by auto
  obtain tab where tab: "token_table sep_backup ?text (\<lambda>_. Tok_null) = Some tab"
      "\<forall>k < length ts. token_string (tab k) = Some (ts ! k)" "tab (length ts) \<noteq> Tok_null" "\<forall>k > length ts. tab k = Tok_null"
    using token_table_read [OF assms(4,5), of "\<lambda>_. Tok_null"] assms(3) by (auto simp: c_const)
  have ne: "tab k \<noteq> Tok_null" if "k \<le> length ts" for k
    using that tab(2,3) by (cases "k = length ts") (auto dest: le_neq_implies_less)
  have st: "store_names [0..<TOKENARRAYSIZE] tab t h = bl.ins_all (map entry_of ts) t h" for t h
    using store_names_all [of ts tab 0 t h] tab(2,4) ne assms(3) by (simp add: c_const)
  obtain t h S where th: "bl.ins_all (map entry_of ts) jsw_rbnew (heap_empty mem) = Some (t, h)" "rb_tree kv_key h t S"
      "kv_key ` S = kv_key ` set (map entry_of ts)"
    using bl.ins_all_repr [OF heap_empty_tree, of "map entry_of ts" mem] assms(7) by (auto simp: heap_empty_def)
  have content: "file_content f name = Some (bytes ?text)" using n o(3,4) by (simp add: file_content_def)
  have "bytes ?text \<noteq> []" using assms(2) by (cases ts) (auto simp: config_text_def bytes_def)
  then have nz: "file_content (fsys s) name \<noteq> Some []" using assms(1) by simp
  have mp: "map byte_char (bytes ?text) = ?text" by (simp add: bytes_def comp_def)
  let ?s = "s\<lparr>fsys := snd (fs_close (int i) f), gpTokenArray := unmap_token \<circ> tab, gRb_tree_bl := Some (t, h)\<rparr>"
  have "readBlacklistConfigFile (Some name) True mem s = Some (0, ?s)"
    using n(1) nz o(1) content mp tab(1) assms(6) st th(1)
    by (simp add: readBlacklistConfigFile_def fillFileBackupCharTokenArray_def createAndStoreFileNames_def Let_def)
  moreover have "get_fd (fsys ?s) = get_fd (fsys s)" using o(2,5) by (simp add: fun_upd_idem)
  moreover have "file_content (fsys ?s) = file_content (fsys s)" using o(3,4) by (intro ext) (simp add: file_content_def split: option.split fs_node.split)
  moreover have "kv_key ` S = (\<lambda>n. name_crc (take 127 n)) ` set ts" using th(3) by (simp add: entry_of_def image_image)
  ultimately show ?thesis using need_backup [OF _ th(2), of ?s] by (intro exI [of _ ?s]) simp
qed

definition list_state :: "mem_world pcl" where
  "list_state = (pcl_start mem_env mem_start)\<lparr>fsys := (fs_start [])\<lparr>fs_names := [[''list''] \<mapsto> Reg 1],
     fs_data := (\<lambda>n. bytes (config_text CHR '' '' [''/track'', ''/tone'']))\<rparr>\<rparr>"

theorem blacklist_decides_witness:
  "\<exists>s'. readBlacklistConfigFile (Some ''list'') True 5 list_state = Some (0, s') \<and>
     pclBackupNeeded ''/tone'' s' = Some DONT_CREATE_BACKUP"
proof -
  have n: "resolve ''list'' = [''list'']" by (simp add: resolve_def)
  then have "file_content (fsys list_state) ''list'' = Some (bytes (config_text CHR '' '' [''/track'', ''/tone'']))"
    by (simp add: list_state_def file_content_def)
  moreover have "\<forall>t \<in> set [''/track'', ''/tone'']. token_ok sep_backup t" by (simp add: token_ok_def sep_table NUL_def)
  moreover have "sep_backup CHR '' '' = Some True" by (simp add: sep_table)
  moreover have "gpTokenArray list_state = (\<lambda>_. Tok_null)" "\<not> fs_denied (fsys list_state) (resolve ''list'') O_RDONLY"
    "free_fd (fs_fds (fsys list_state)) < fs_maxfd (fsys list_state)"
    by (simp_all add: list_state_def pcl_start_def fs_start_def numeral_eq_Suc)
  ultimately show ?thesis
    using blacklist_decides [of list_state "''list''" "CHR '' ''" "[''/track'', ''/tone'']" 5] by fastforce
qed

end
