(* ===== verification/Backup.thy ===== *)
theory Backup
  imports Data_Organization Posix_Fs Crc32
begin

text \<open>
  Backup copies of files (second half of \<open>src/persistence_client_library_backup_filelist.c\<close>): creating a
  file with its folders, the checksum of a file, writing a backup with its checksum, and deciding at the
  next open whether the file, its backup or neither can be trusted.

  All functions work on the file system of \<open>Posix_Fs\<close>. A checksum buffer is the string it holds;
  \<open>None\<close> is undefined behaviour, as a string that is not terminated or an indeterminate value that is used.
\<close>

section \<open>Copying and creating\<close>

definition fs_size_or_0 :: "int \<Rightarrow> fs \<Rightarrow> nat" where
  "fs_size_or_0 fd f = (case fs_fstat fd f of Some n \<Rightarrow> n | None \<Rightarrow> 0)"

definition pclBackupDoFileCopy :: "int \<Rightarrow> int \<Rightarrow> fs \<Rightarrow> int \<times> fs" where
  "pclBackupDoFileCopy srcFd dstFd f =
     (let (r, f) = fs_sendfile dstFd srcFd (fs_size_or_0 srcFd f) f;
          (_, f) = fs_lseek dstFd 0 0 f
      in (r, f))"

definition strncpy_path :: "'c pers_consts_scheme \<Rightarrow> string \<Rightarrow> string option" where
  "strncpy_path c p = (if length p < DbPathMaxLen c then Some p else None)"

text \<open>The folders between the first component and the file are created one after the other.\<close>

fun create_folders :: "string \<Rightarrow> string list \<Rightarrow> fs \<Rightarrow> string \<times> fs" where
  "create_folders path [] f = (path, f)"
| "create_folders path (t # ts) f = (let path = path @ ''/'' @ t in create_folders path ts (fs_mkdir path f))"

definition max_tokens :: nat where [simp]: "max_tokens = 24"

definition pclCreateFile :: "'c pers_consts_scheme \<Rightarrow> string \<Rightarrow> fs \<Rightarrow> (int \<times> fs) option" where
  "pclCreateFile c path f = do {
     thePath \<leftarrow> strncpy_path c path;
     let tokenArray = strtok_all (\<lambda>ch. ch = CHR ''/'' \<or> ch = CHR 0x0A) [] thePath;
     if length tokenArray < max_tokens then
       if 2 \<le> length tokenArray then do {
         let (createPath, f) = create_folders (''/'' @ hd tokenArray) (butlast (tl tokenArray)) f;
         createPath \<leftarrow> strncpy_path c (createPath @ ''/'' @ last tokenArray);
         Some (fs_open createPath O_RDWR True True f)
       }
       else None
     else Some (- 1, f)
   }"

section \<open>The checksum of a file\<close>

text \<open>The reading loop: \<open>n\<close> is the size of the file and of the buffer \<open>buf\<close>.\<close>

partial_function (option) csum_loop :: "int \<Rightarrow> nat \<Rightarrow> u8 list \<Rightarrow> string \<Rightarrow> fs \<Rightarrow> (int \<times> string \<times> fs) option" where
  "csum_loop fd n buf crc32sum f =
     (let ((r, bs), f1) = fs_read fd n f in
      if 0 < r then
        Option.bind (pclCrc32 0 (Some (bs @ drop (length bs) buf)) n) (\<lambda>crc.
          csum_loop fd n (bs @ drop (length bs) buf) (snprintf (ChecksumBufSize - 1) (fmt_x crc)) f1)
      else Some (r, crc32sum, f1))"

declare csum_loop.simps [code]

text \<open>Before the first read the buffer is indeterminate: a crc over it would be undefined (an empty buffer).\<close>

definition pclCalcCrc32Csum :: "int \<Rightarrow> string \<Rightarrow> fs \<Rightarrow> (int \<times> string \<times> fs) option" where
  "pclCalcCrc32Csum fd crc32sum f = do {
     n \<leftarrow> fs_fstat fd f;
     let (curPos, f) = fs_lseek fd 0 1 f;
     let f = (if curPos \<noteq> 0 then snd (fs_lseek fd 0 0 f) else f);
     (rval, crc32sum, f) \<leftarrow> csum_loop fd n [] crc32sum f;
     let (_, f) = fs_lseek fd curPos 0 f;
     Some (rval, crc32sum, f)
   }"

section \<open>Recovery\<close>

definition pclRecoverFromBackup :: "int \<Rightarrow> string \<Rightarrow> fs \<Rightarrow> int \<times> fs" where
  "pclRecoverFromBackup backupFd original f =
     (let (h, f) = fs_open original O_RDWR False True f in
      if h \<noteq> - 1 then (h, snd (pclBackupDoFileCopy backupFd h f)) else (h, f))"

text \<open>Open the original and compare its checksum with \<open>csum\<close>: the part that the three cases share.\<close>

definition check_original :: "string \<Rightarrow> int \<Rightarrow> string \<Rightarrow> fs \<Rightarrow> (int \<times> fs) option" where
  "check_original origPath openFlags csum f = do {
     let (h, f) = fs_open origPath openFlags False False f;
     if h \<noteq> - 1 then do {
       (_, origCsum, f) \<leftarrow> pclCalcCrc32Csum h [] f;
       if csum \<noteq> origCsum then Some (- 1, snd (fs_close h f)) else Some (h, f)
     }
     else Some (- 1, snd (fs_close h f))
   }"

definition read_csum :: "int \<Rightarrow> fs \<Rightarrow> (int \<times> string) \<times> fs" where
  "read_csum fd f = (let ((r, bs), f) = fs_read fd ChecksumBufSize f in ((r, str_of_bytes bs), f))"

definition verify_both :: "string \<Rightarrow> string \<Rightarrow> string \<Rightarrow> int \<Rightarrow> fs \<Rightarrow> (int \<times> fs) option" where
  "verify_both origPath backPath sumPath openFlags f = do {
     let (fdBackup, f) = fs_open backPath O_RDONLY False False f;
     (h, f) \<leftarrow>
       (if fdBackup \<noteq> - 1 then do {
          (_, backCsum, f) \<leftarrow> pclCalcCrc32Csum fdBackup [] f;
          let (fdCsum, f) = fs_open sumPath O_RDONLY False False f;
          if fdCsum \<noteq> - 1 then do {
            let ((readSize, csum), f) = read_csum fdCsum f;
            (h, f) \<leftarrow>
              (if 0 < readSize then
                 if csum = backCsum then Some (pclRecoverFromBackup fdBackup origPath f)
                 else check_original origPath openFlags csum f
               else Some (0, f));
            Some (h, snd (fs_close fdCsum f))
          }
          else Some (- 1, snd (fs_close fdCsum f))
        }
        else Some (- 1, f));
     Some (h, snd (fs_close fdBackup f))
   }"

definition verify_csum_only :: "string \<Rightarrow> string \<Rightarrow> int \<Rightarrow> fs \<Rightarrow> (int \<times> fs) option" where
  "verify_csum_only origPath sumPath openFlags f = do {
     let (fdCsum, f) = fs_open sumPath O_RDONLY False False f;
     if fdCsum \<noteq> - 1 then do {
       let ((_, csum), f) = read_csum fdCsum f;
       let (_, f) = fs_close fdCsum f;
       check_original origPath openFlags csum f
     }
     else Some (- 1, snd (fs_close fdCsum f))
   }"

definition verify_backup_only :: "string \<Rightarrow> string \<Rightarrow> int \<Rightarrow> fs \<Rightarrow> (int \<times> fs) option" where
  "verify_backup_only origPath backPath openFlags f = do {
     let (fdBackup, f) = fs_open backPath O_RDONLY False False f;
     if fdBackup \<noteq> - 1 then do {
       (_, backCsum, f) \<leftarrow> pclCalcCrc32Csum fdBackup [] f;
       let (_, f) = fs_close fdBackup f;
       check_original origPath openFlags backCsum f
     }
     else Some (- 1, snd (fs_close fdBackup f))
   }"

definition pclVerifyConsistency :: "string \<Rightarrow> string \<Rightarrow> string \<Rightarrow> int \<Rightarrow> fs \<Rightarrow> (int \<times> fs) option" where
  "pclVerifyConsistency origPath backPath sumPath openFlags f = do {
     let backupAvail = fs_access backPath f;
     let csumAvail = fs_access sumPath f;
     (h, f) \<leftarrow>
       (if backupAvail = 0 \<and> csumAvail = 0 then verify_both origPath backPath sumPath openFlags f
        else if csumAvail = 0 then verify_csum_only origPath sumPath openFlags f
        else if backupAvail = 0 then verify_backup_only origPath backPath openFlags f
        else Some (0, f));
     Some (h, if h = - 1
              then snd (fs_remove sumPath (snd (fs_remove backPath (snd (fs_remove origPath f)))))
              else f)
   }"

section \<open>Creating a backup\<close>

definition pclCreateBackup ::
  "'c pers_consts_scheme \<Rightarrow> string \<Rightarrow> int \<Rightarrow> string \<Rightarrow> string \<Rightarrow> fs \<Rightarrow> (int \<times> fs) option" where
  "pclCreateBackup c dstPath srcfd sumPath csumBuf f = do {
     f \<leftarrow> (if fs_access dstPath f \<noteq> 0 then do {
              (h, f) \<leftarrow> pclCreateFile c dstPath f;
              Some (snd (fs_close h f))
            }
            else Some f);
     let (csfd, f) = fs_open sumPath O_WRONLY True True f;
     let f = (if csfd \<noteq> - 1 then snd (fs_close csfd (snd (fs_write csfd (bytes csumBuf) f))) else f);
     let (dstFd, f) = fs_open dstPath O_WRONLY True True f;
     if dstFd \<noteq> - 1 then do {
       let (curPos, f) = fs_lseek srcfd 0 1 f;
       let (_, f) = fs_lseek srcfd 0 0 f;
       let (readSize, f) = pclBackupDoFileCopy srcfd dstFd f;
       let (_, f) = fs_close dstFd f;
       Some (readSize, snd (fs_lseek srcfd curPos 0 f))
     }
     else Some (- 1, f)
   }"

definition pclGetPosixPermission :: "'c pers_consts_scheme \<Rightarrow> int \<Rightarrow> int" where
  "pclGetPosixPermission c perm =
     (if perm = PersistencePermission_ReadWrite c then O_RDWR
      else if perm = PersistencePermission_ReadOnly c then O_RDONLY
      else if perm = PersistencePermission_WriteOnly c then O_WRONLY
      else O_RDONLY)"

section \<open>Lemmas: the checksum\<close>

text \<open>The text that the checksum of a content is: nothing for an empty file.\<close>

definition csum_of :: "u8 list \<Rightarrow> string" where
  "csum_of xs = (if xs = [] then [] else fmt_x (crc32_bytes 0 xs))"

lemma csum_loop_read:
  assumes "get_fd f fd = Some d" and "of_read d" and "of_pos d = 0"
    and "fs_data f (of_ino d) = xs"
  shows "csum_loop fd (length xs) [] s f
    = Some (0, if xs = [] then s else csum_of xs, set_pos fd (length xs) f)"
proof (cases "xs = []")
  case True
  then show ?thesis using assms
    by (subst csum_loop.simps) (simp add: fs_read_open Let_def)
next
  case False
  let ?f = "set_pos fd (length xs) f" and ?d = "d\<lparr>of_pos := length xs\<rparr>"
  have d: "get_fd ?f fd = Some ?d" using assms by (simp add: get_fd_set_pos)
  have "fs_read fd (length xs) f = ((int (length xs), xs), ?f)"
    using assms by (simp add: fs_read_open Let_def)
  moreover have "fs_read fd (length xs) ?f = ((0, []), ?f)"
    using fs_read_open [OF d, of "length xs"] assms set_pos_same [OF d] by (simp add: Let_def)
  moreover have "snprintf (ChecksumBufSize - 1) (fmt_x w) = fmt_x w" for w
    using length_fmt_x [of w] by (simp add: snprintf_fits c_const)
  ultimately show ?thesis using False
    by (subst csum_loop.simps, simp add: pclCrc32_bytes, subst csum_loop.simps, simp add: csum_of_def)
qed

lemma csum_loop_unreadable: "get_fd f fd = Some d \<Longrightarrow> \<not> of_read d \<Longrightarrow> csum_loop fd n b s f = Some (- 1, s, f)"
  by (subst csum_loop.simps) (simp add: fs_read_def)

text \<open>The checksum of an open file; the position is restored.\<close>

lemma pclCalcCrc32Csum_open:
  assumes d: "get_fd f fd = Some d"
  shows "pclCalcCrc32Csum fd [] f
    = Some (if of_read d then 0 else - 1, if of_read d then csum_of (fs_data f (of_ino d)) else [], f)"
proof -
  let ?n = "length (fs_data f (of_ino d))" and ?d = "d\<lparr>of_pos := 0\<rparr>" and ?f = "set_pos fd 0 f"
  have start: "(if int (of_pos d) \<noteq> 0 then snd (fs_lseek fd 0 0 f) else f) = ?f"
    using d set_pos_same [OF d, of 0] by auto
  have d0: "get_fd ?f fd = Some ?d" using d by (simp add: get_fd_set_pos)
  have bk: "set_pos fd (of_pos d) ?f = f"
    using set_pos_set_pos [OF d] set_pos_same [OF d] by simp
  show ?thesis
  proof (cases "of_read d")
    case True
    let ?g = "set_pos fd ?n ?f"
    have "csum_loop fd ?n [] [] ?f = Some (0, csum_of (fs_data f (of_ino d)), ?g)"
      using csum_loop_read [OF d0, of "fs_data f (of_ino d)" "[]"] True by (auto simp: csum_of_def)
    moreover have "get_fd ?g fd = Some (?d\<lparr>of_pos := ?n\<rparr>)" using d0 by (simp add: get_fd_set_pos)
    moreover have "set_pos fd (of_pos d) ?g = f"
      using set_pos_set_pos [OF d0] bk by simp
    ultimately show ?thesis using d start True
      by (simp add: pclCalcCrc32Csum_def fs_fstat_open Let_def)
  next
    case False
    then show ?thesis using d start d0 bk csum_loop_unreadable [OF d0, of ?n "[]" "[]"]
      by (simp add: pclCalcCrc32Csum_def fs_fstat_open Let_def)
  qed
qed

section \<open>Lemmas: copying and opening\<close>

lemma get_fd_neg [simp]: "get_fd f (- 1) = None"
  by (simp add: get_fd_def)

lemma fs_close_neg [simp]: "fs_close (- 1) f = (- 1, f)"
  by (simp add: fs_close_def)

text \<open>Everything but the open descriptors and the contents; no more descriptors than allowed.\<close>

definition same_names :: "fs \<Rightarrow> fs \<Rightarrow> bool" where
  "same_names f g \<longleftrightarrow> fs_names g = fs_names f \<and> fs_denied g = fs_denied f \<and> fs_maxfd g = fs_maxfd f \<and>
     fs_next g = fs_next f \<and> (length (fs_fds f) \<le> fs_maxfd f \<longrightarrow> length (fs_fds g) \<le> fs_maxfd g)"

lemma copy_file:
  assumes i: "get_fd f src = Some i" "of_read i" "of_pos i = 0"
    and out: "get_fd f dst = Some d" "of_write d" "of_pos d = 0"
    and diff: "src \<noteq> dst" "of_ino i \<noteq> of_ino d" and empty: "fs_data f (of_ino d) = []"
  shows "\<exists>f'. pclBackupDoFileCopy src dst f = (int (length (fs_data f (of_ino i))), f') \<and> same_names f f' \<and>
     fs_data f' = (fs_data f)(of_ino d := fs_data f (of_ino i)) \<and>
     get_fd f' = (get_fd f)(src \<mapsto> i\<lparr>of_pos := length (fs_data f (of_ino i))\<rparr>) \<and>
     length (fs_fds f') = length (fs_fds f)"
proof -
  let ?x = "fs_data f (of_ino i)"
  let ?n = "length ?x"
  let ?f1 = "set_pos src ?n f"
  have r: "fs_read src ?n f = ((int ?n, ?x), ?f1)"
    using fs_read_open [OF i(1,2), of ?n] i(3) by (simp add: Let_def)
  have d1: "get_fd ?f1 dst = Some d" using i(1) out(1) diff(1) by (simp add: get_fd_set_pos)
  let ?g = "?f1\<lparr>fs_data := (fs_data ?f1)(of_ino d := ?x)\<rparr>"
  let ?f2 = "set_pos dst ?n ?g"
  have w: "fs_write dst ?x ?f1 = (int ?n, ?f2)"
    using d1 out(2,3) empty by (simp add: fs_write_def write_at_empty)
  have d2: "get_fd ?g dst = Some d" using d1 by simp
  have dz: "d\<lparr>of_pos := 0\<rparr> = d" using out(3) by simp
  have s: "pclBackupDoFileCopy src dst f = (int ?n, set_pos dst 0 ?f2)"
    using i out r w d2
    by (simp add: pclBackupDoFileCopy_def fs_size_or_0_def fs_fstat_open fs_sendfile_def get_fd_set_pos)
  have "get_fd (set_pos dst 0 ?f2) = (get_fd f)(src \<mapsto> i\<lparr>of_pos := ?n\<rparr>)"
    using i(1) d2 dz out(1) diff(1) by (simp add: set_pos_set_pos get_fd_set_pos fun_upd_twist fun_upd_idem)
  then show ?thesis using s by (simp add: same_names_def)
qed

text \<open>The file system is usable: nothing is denied, descriptors are left, standard input is open.\<close>

definition fs_usable :: "fs \<Rightarrow> bool" where
  "fs_usable f \<longleftrightarrow> fs_denied f = (\<lambda>_ _. False) \<and> length (fs_fds f) + 3 \<le> fs_maxfd f \<and> get_fd f 0 \<noteq> None"

definition desc :: "nat \<Rightarrow> int \<Rightarrow> ofd" where
  "desc n m = \<lparr>of_ino = n, of_pos = 0, of_read = (m \<noteq> 1), of_write = (m \<noteq> 0)\<rparr>"

lemma desc_sel [simp]:
  "of_ino (desc n m) = n" "of_pos (desc n m) = 0" "of_read (desc n m) = (m \<noteq> 1)" "of_write (desc n m) = (m \<noteq> 0)"
  by (simp_all add: desc_def)

lemma open_file:
  assumes "fs_names f (resolve p) = Some (Reg n)" and "fs_denied f = (\<lambda>_ _. False)"
    and "length (fs_fds f) < fs_maxfd f" and "get_fd f 0 \<noteq> None"
  shows "\<exists>h f'. fs_open p m False t f = (h, f') \<and> 0 < h \<and> get_fd f h = None \<and> same_names f f' \<and>
     fs_data f' = (if t then (fs_data f)(n := []) else fs_data f) \<and>
     get_fd f' = (get_fd f)(h \<mapsto> desc n m) \<and> length (fs_fds f') \<le> Suc (length (fs_fds f))"
proof -
  obtain i f' where o: "fs_open p m False t f = (int i, f')" "get_fd f (int i) = None"
     "fs_names f' = fs_names f" "fs_data f' = (if t then (fs_data f)(n := []) else fs_data f)"
     "fs_next f' = fs_next f" "fs_maxfd f' = fs_maxfd f" "fs_denied f' = fs_denied f"
     "get_fd f' = (get_fd f)(int i \<mapsto> desc n m)" "length (fs_fds f') \<le> Suc (length (fs_fds f))"
    using fs_open_reg [OF assms(1) _ assms(3), of m False t] assms(2) by (auto simp: desc_def)
  have "0 < int i" using o(2) assms(4) by (cases i) auto
  then show ?thesis using o assms(3) by (auto simp: same_names_def)
qed

lemma check_original_spec:
  assumes dir: "fs_names f (resolve p) \<noteq> Some Dir" and dn: "fs_denied f = (\<lambda>_ _. False)"
    and fds: "length (fs_fds f) < fs_maxfd f" "get_fd f 0 \<noteq> None"
  shows "\<exists>h f'. check_original p m c f = Some (h, f') \<and> same_names f f' \<and> fs_data f' = fs_data f \<and>
     length (fs_fds f') \<le> Suc (length (fs_fds f)) \<and>
     (if \<exists>n. fs_names f (resolve p) = Some (Reg n) \<and> c = (if m \<noteq> 1 then csum_of (fs_data f n) else [])
      then 0 < h \<and> get_fd f h = None \<and>
        (\<exists>n. fs_names f (resolve p) = Some (Reg n) \<and> get_fd f' = (get_fd f)(h \<mapsto> desc n m))
      else h = - 1 \<and> get_fd f' = get_fd f)"
proof (cases "fs_names f (resolve p)")
  case None
  then show ?thesis by (simp add: check_original_def fs_open_missing same_names_def)
next
  case (Some x)
  then obtain n where n: "fs_names f (resolve p) = Some (Reg n)" using dir by (cases x) auto
  obtain h f1 where o: "fs_open p m False False f = (h, f1)" "0 < h" "get_fd f h = None" "same_names f f1"
     "fs_data f1 = fs_data f" "get_fd f1 = (get_fd f)(h \<mapsto> desc n m)" "length (fs_fds f1) \<le> Suc (length (fs_fds f))"
    using open_file [OF n dn fds, of m False] by auto
  have d: "get_fd f1 h = Some (desc n m)" using o(6) by simp
  have e: "check_original p m c f =
     (if c \<noteq> (if m \<noteq> 1 then csum_of (fs_data f n) else []) then Some (- 1, snd (fs_close h f1)) else Some (h, f1))"
    using o(1,2,5) pclCalcCrc32Csum_open [OF d] by (simp add: check_original_def)
  show ?thesis
  proof (cases "c = (if m \<noteq> 1 then csum_of (fs_data f n) else [])")
    case True
    then show ?thesis using e o n by auto
  next
    case False
    have "get_fd (snd (fs_close h f1)) = get_fd f" using o(3,6) by (simp add: fun_upd_idem)
    then show ?thesis using e o n False by (auto simp: same_names_def)
  qed
qed

section \<open>Lemmas: the three cases\<close>

definition csum_text :: "u8 list \<Rightarrow> string" where
  "csum_text c = str_of_bytes (take ChecksumBufSize c)"

lemma read_csum_open:
  assumes "get_fd f fd = Some d" and "of_read d" and "of_pos d = 0"
  shows "read_csum fd f = ((int (min (length (fs_data f (of_ino d))) ChecksumBufSize), csum_text (fs_data f (of_ino d))),
     set_pos fd (min (length (fs_data f (of_ino d))) ChecksumBufSize) f)"
  using fs_read_open [OF assms(1,2)] assms(3) by (simp add: read_csum_def csum_text_def Let_def)

text \<open>The result of a check: \<open>n\<close> is the inode of the original.\<close>

definition kept :: "fs \<Rightarrow> nat \<Rightarrow> int \<Rightarrow> int \<Rightarrow> fs \<Rightarrow> bool" where
  "kept f n m h f' \<longleftrightarrow> 0 < h \<and> same_names f f' \<and> fs_data f' = fs_data f \<and> get_fd f h = None \<and>
     get_fd f' = (get_fd f)(h \<mapsto> desc n m)"

definition restored :: "fs \<Rightarrow> nat \<Rightarrow> u8 list \<Rightarrow> int \<Rightarrow> fs \<Rightarrow> bool" where
  "restored f n x h f' \<longleftrightarrow> 0 < h \<and> same_names f f' \<and> fs_data f' = (fs_data f)(n := x) \<and> get_fd f h = None \<and>
     get_fd f' = (get_fd f)(h \<mapsto> desc n O_RDWR)"

definition nothing :: "fs \<Rightarrow> fs \<Rightarrow> bool" where
  "nothing f f' \<longleftrightarrow> same_names f f' \<and> fs_data f' = fs_data f \<and> get_fd f' = get_fd f"

lemma same_names_trans: "same_names f g \<Longrightarrow> same_names g h \<Longrightarrow> same_names f h"
  by (auto simp: same_names_def)

lemma same_names_close [simp]: "same_names f (snd (fs_close k g)) = same_names f g"
  by (simp add: same_names_def)

lemma same_names_set_pos [simp]: "same_names f (set_pos k p g) = same_names f g"
  by (simp add: same_names_def)

definition matches :: "fs \<Rightarrow> string \<Rightarrow> int \<Rightarrow> string \<Rightarrow> bool" where
  "matches f p m c \<longleftrightarrow> (\<exists>n. fs_names f (resolve p) = Some (Reg n) \<and> c = (if m \<noteq> 1 then csum_of (fs_data f n) else []))"

definition checked :: "fs \<Rightarrow> string \<Rightarrow> int \<Rightarrow> string \<Rightarrow> int \<Rightarrow> fs \<Rightarrow> bool" where
  "checked f p m c h f' \<longleftrightarrow>
     (if matches f p m c then \<exists>n. fs_names f (resolve p) = Some (Reg n) \<and> kept f n m h f'
      else h = - 1 \<and> nothing f f')"

lemma check_original_result:
  assumes "fs_names g (resolve p) \<noteq> Some Dir" and "fs_denied g = (\<lambda>_ _. False)"
    and "length (fs_fds g) < fs_maxfd g" "get_fd g 0 \<noteq> None"
  shows "\<exists>h g'. check_original p m c g = Some (h, g') \<and> checked g p m c h g'"
  using check_original_spec [OF assms, of m c]
  by (auto simp: matches_def checked_def kept_def nothing_def split: if_splits)

lemma checked_same:
  assumes "fs_names g = fs_names f" "fs_data g = fs_data f" "get_fd g = get_fd f" "same_names f g"
    and "checked g p m c h g'"
  shows "checked f p m c h g'"
proof -
  have "matches g p m c = matches f p m c" using assms(1,2) by (simp add: matches_def)
  moreover have "kept g n m h g' \<Longrightarrow> kept f n m h g'" for n
    using assms same_names_trans [OF assms(4), of g'] by (auto simp: kept_def)
  moreover have "nothing g g' \<Longrightarrow> nothing f g'"
    using assms same_names_trans [OF assms(4), of g'] by (auto simp: nothing_def)
  ultimately show ?thesis using assms(1,5) by (auto simp: checked_def split: if_splits)
qed

text \<open>Closing the descriptors that were opened on the way.\<close>

lemma kept_close:
  assumes "same_names f g" and "fs_data g = fs_data f" and "get_fd g = (get_fd f)(k \<mapsto> d)" and "get_fd f k = None"
    and "kept g n m h g'"
  shows "kept f n m h (snd (fs_close k g'))"
  using assms by (auto simp: kept_def same_names_def fun_eq_iff split: if_splits)

lemma nothing_close:
  assumes "same_names f g" and "fs_data g = fs_data f" and "get_fd g = (get_fd f)(k \<mapsto> d)" and "get_fd f k = None"
    and "nothing g g'"
  shows "nothing f (snd (fs_close k g'))"
  using assms by (auto simp: nothing_def same_names_def fun_eq_iff split: if_splits)

text \<open>Restoring: the backup is open at its start.\<close>

lemma recover_result:
  assumes src: "get_fd f src = Some i" "of_read i" "of_pos i = 0" and dn: "fs_denied f = (\<lambda>_ _. False)"
    and fds: "length (fs_fds f) < fs_maxfd f" "get_fd f 0 \<noteq> None"
    and dir: "fs_names f (resolve p) \<noteq> Some Dir" and diff: "fs_names f (resolve p) \<noteq> Some (Reg (of_ino i))"
  shows "\<exists>h f'. pclRecoverFromBackup src p f = (h, f') \<and>
     (case fs_names f (resolve p) of
        Some (Reg n) \<Rightarrow> 0 < h \<and> same_names f f' \<and> fs_data f' = (fs_data f)(n := fs_data f (of_ino i)) \<and> get_fd f h = None \<and>
          get_fd f' = (get_fd f)(src \<mapsto> i\<lparr>of_pos := length (fs_data f (of_ino i))\<rparr>, h \<mapsto> desc n O_RDWR)
      | _ \<Rightarrow> h = - 1 \<and> nothing f f')"
proof (cases "fs_names f (resolve p)")
  case None
  then have "pclRecoverFromBackup src p f = (- 1, f\<lparr>fs_errno := ENOENT\<rparr>)"
    by (simp add: pclRecoverFromBackup_def fs_open_def fs_fail_def)
  then show ?thesis using None by (simp add: nothing_def same_names_def)
next
  case (Some x)
  then obtain n where n: "fs_names f (resolve p) = Some (Reg n)" using dir by (cases x) auto
  then have ni: "of_ino i \<noteq> n" using diff by auto
  obtain h f1 where o: "fs_open p O_RDWR False True f = (h, f1)" "0 < h" "get_fd f h = None" "same_names f f1"
     "fs_data f1 = (fs_data f)(n := [])" "get_fd f1 = (get_fd f)(h \<mapsto> desc n O_RDWR)"
    using open_file [OF n dn fds, of O_RDWR True] by auto
  have sh: "src \<noteq> h" using src(1) o(3) by auto
  obtain f2 where c: "pclBackupDoFileCopy src h f1 = (int (length (fs_data f1 (of_ino i))), f2)" "same_names f1 f2"
     "fs_data f2 = (fs_data f1)(n := fs_data f1 (of_ino i))"
     "get_fd f2 = (get_fd f1)(src \<mapsto> i\<lparr>of_pos := length (fs_data f1 (of_ino i))\<rparr>)"
    using copy_file [of f1 src i h "desc n O_RDWR"] src o(5,6) sh ni by auto
  have "pclRecoverFromBackup src p f = (h, f2)" using o(1,2) c(1) by (simp add: pclRecoverFromBackup_def)
  then show ?thesis using n o c sh ni by (auto simp: same_names_def fun_upd_twist)
qed

text \<open>The three files: none is a directory, and they are different files.\<close>

definition three_files :: "fs \<Rightarrow> string \<Rightarrow> string \<Rightarrow> string \<Rightarrow> bool" where
  "three_files f orig bak cs \<longleftrightarrow> fs_usable f \<and> fs_wf f \<and> distinct [resolve orig, resolve bak, resolve cs] \<and>
     fs_names f (resolve orig) \<noteq> Some Dir \<and> fs_names f (resolve bak) \<noteq> Some Dir \<and> fs_names f (resolve cs) \<noteq> Some Dir"

lemma three_files_inodes:
  assumes "three_files f orig bak cs" and "fs_names f (resolve bak) = Some (Reg nb)"
  shows "fs_names f (resolve orig) \<noteq> Some (Reg nb)"
  using assms unfolding three_files_def fs_wf_def by (metis distinct_length_2_or_more)

lemma verify_csum_only_result:
  assumes t: "three_files f orig bak cs" and nc: "fs_names f (resolve cs) = Some (Reg nc)"
  shows "\<exists>h f'. verify_csum_only orig cs m f = Some (h, f') \<and> checked f orig m (csum_text (fs_data f nc)) h f'"
proof -
  have u: "fs_denied f = (\<lambda>_ _. False)" "length (fs_fds f) < fs_maxfd f" "get_fd f 0 \<noteq> None"
    using t by (auto simp: three_files_def fs_usable_def)
  obtain k f1 where o: "fs_open cs O_RDONLY False False f = (k, f1)" "0 < k" "get_fd f k = None" "same_names f f1"
     "fs_data f1 = fs_data f" "get_fd f1 = (get_fd f)(k \<mapsto> desc nc O_RDONLY)" "length (fs_fds f1) \<le> Suc (length (fs_fds f))"
    using open_file [OF nc u, of O_RDONLY False] by auto
  let ?c = "fs_data f nc"
  let ?f2 = "set_pos k (min (length ?c) ChecksumBufSize) f1" and ?g = "snd (fs_close k (set_pos k (min (length ?c) ChecksumBufSize) f1))"
  have d: "get_fd f1 k = Some (desc nc O_RDONLY)" using o(6) by simp
  have r: "read_csum k f1 = ((int (min (length ?c) ChecksumBufSize), csum_text ?c), ?f2)"
    using read_csum_open [OF d] o(5) by simp
  have g: "get_fd ?g = get_fd f" "fs_names ?g = fs_names f" "fs_data ?g = fs_data f" "same_names f ?g"
    using o d by (auto simp: get_fd_set_pos same_names_def fun_eq_iff)
  have g0: "fs_denied ?g = (\<lambda>_ _. False)" "length (fs_fds ?g) < fs_maxfd ?g" "get_fd ?g 0 \<noteq> None"
    using u o(4,7) g(1,4) t by (simp_all add: same_names_def three_files_def fs_usable_def)
  obtain h f' where c: "check_original orig m (csum_text ?c) ?g = Some (h, f')" "checked ?g orig m (csum_text ?c) h f'"
    using check_original_result [OF _ g0, of orig m "(csum_text ?c)"] g(2) t by (auto simp: three_files_def)
  have "verify_csum_only orig cs m f = Some (h, f')"
    using o(1,2) r c(1) by (simp add: verify_csum_only_def split: prod.split) (metis snd_conv)
  then show ?thesis using checked_same [OF g(2,3,1,4) c(2)] by blast
qed

lemma verify_backup_only_result:
  assumes t: "three_files f orig bak cs" and nb: "fs_names f (resolve bak) = Some (Reg nb)"
  shows "\<exists>h f'. verify_backup_only orig bak m f = Some (h, f') \<and> checked f orig m (csum_of (fs_data f nb)) h f'"
proof -
  have u: "fs_denied f = (\<lambda>_ _. False)" "length (fs_fds f) < fs_maxfd f" "get_fd f 0 \<noteq> None"
    using t by (auto simp: three_files_def fs_usable_def)
  obtain k f1 where o: "fs_open bak O_RDONLY False False f = (k, f1)" "0 < k" "get_fd f k = None" "same_names f f1"
     "fs_data f1 = fs_data f" "get_fd f1 = (get_fd f)(k \<mapsto> desc nb O_RDONLY)" "length (fs_fds f1) \<le> Suc (length (fs_fds f))"
    using open_file [OF nb u, of O_RDONLY False] by auto
  let ?c = "csum_of (fs_data f nb)" and ?g = "snd (fs_close k f1)"
  have d: "get_fd f1 k = Some (desc nb O_RDONLY)" using o(6) by simp
  have r: "pclCalcCrc32Csum k [] f1 = Some (0, ?c, f1)"
    using pclCalcCrc32Csum_open [OF d] o(5) by simp
  have g: "get_fd ?g = get_fd f" "fs_names ?g = fs_names f" "fs_data ?g = fs_data f" "same_names f ?g"
    using o by (auto simp: same_names_def fun_eq_iff)
  have g0: "fs_denied ?g = (\<lambda>_ _. False)" "length (fs_fds ?g) < fs_maxfd ?g" "get_fd ?g 0 \<noteq> None"
    using u o(4,7) g(1,4) t by (simp_all add: same_names_def three_files_def fs_usable_def)
  obtain h f' where c: "check_original orig m ?c ?g = Some (h, f')" "checked ?g orig m ?c h f'"
    using check_original_result [OF _ g0, of orig m "?c"] g(2) t by (auto simp: three_files_def)
  have "verify_backup_only orig bak m f = Some (h, f')"
    using o(1,2) r c(1) by (simp add: verify_backup_only_def split: prod.split) (metis snd_conv)
  then show ?thesis using checked_same [OF g(2,3,1,4) c(2)] by blast
qed

lemma verify_both_result:
  assumes t: "three_files f orig bak cs" and nb: "fs_names f (resolve bak) = Some (Reg nb)"
    and nc: "fs_names f (resolve cs) = Some (Reg nc)"
  shows "\<exists>h f'. verify_both orig bak cs m f = Some (h, f') \<and>
     (if fs_data f nc = [] then h = 0 \<and> nothing f f'
      else if csum_text (fs_data f nc) = csum_of (fs_data f nb) then
        (case fs_names f (resolve orig) of
           Some (Reg n) \<Rightarrow> restored f n (fs_data f nb) h f'
         | _ \<Rightarrow> h = - 1 \<and> nothing f f')
      else checked f orig m (csum_text (fs_data f nc)) h f')"
proof -
  let ?b = "fs_data f nb" and ?c = "fs_data f nc"
  have u: "fs_denied f = (\<lambda>_ _. False)" "length (fs_fds f) + 3 \<le> fs_maxfd f" "get_fd f 0 \<noteq> None"
    using t by (auto simp: three_files_def fs_usable_def)
  have dirs: "fs_names f (resolve orig) \<noteq> Some Dir" using t by (simp add: three_files_def)
  have "length (fs_fds f) < fs_maxfd f" using u(2) by simp
  then obtain k f1 where o: "fs_open bak O_RDONLY False False f = (k, f1)" "0 < k" "get_fd f k = None" "same_names f f1"
     "fs_data f1 = fs_data f" "get_fd f1 = (get_fd f)(k \<mapsto> desc nb O_RDONLY)" "length (fs_fds f1) \<le> Suc (length (fs_fds f))"
    using open_file [OF nb u(1) _ u(3), of O_RDONLY False] by auto
  have dk: "get_fd f1 k = Some (desc nb O_RDONLY)" using o(6) by simp
  have r: "pclCalcCrc32Csum k [] f1 = Some (0, csum_of ?b, f1)"
    using pclCalcCrc32Csum_open [OF dk] o(5) by simp
  have "fs_names f1 (resolve cs) = Some (Reg nc)" "fs_denied f1 = (\<lambda>_ _. False)"
    "length (fs_fds f1) < fs_maxfd f1" "get_fd f1 0 \<noteq> None"
    using nc u o(4,6,7) by (auto simp: same_names_def)
  then obtain q f2 where p: "fs_open cs O_RDONLY False False f1 = (q, f2)" "0 < q" "get_fd f1 q = None" "same_names f1 f2"
     "fs_data f2 = fs_data f1" "get_fd f2 = (get_fd f1)(q \<mapsto> desc nc O_RDONLY)" "length (fs_fds f2) \<le> Suc (length (fs_fds f1))"
    using open_file [of f1 cs nc O_RDONLY False] by auto
  let ?f3 = "set_pos q (min (length ?c) ChecksumBufSize) f2"
  have dq: "get_fd f2 q = Some (desc nc O_RDONLY)" using p(6) by simp
  have kq: "k \<noteq> q" using o(6) p(3) by auto
  have s: "read_csum q f2 = ((int (min (length ?c) ChecksumBufSize), csum_text ?c), ?f3)"
    using read_csum_open [OF dq] p(5) o(5) by simp
  obtain dq' where f3: "get_fd ?f3 = (get_fd f1)(q \<mapsto> dq')" "same_names f1 ?f3" "fs_data ?f3 = fs_data f1"
      "length (fs_fds ?f3) < fs_maxfd ?f3" "get_fd ?f3 0 \<noteq> None" "fs_denied ?f3 = (\<lambda>_ _. False)"
      "fs_names ?f3 = fs_names f"
    using p(4-7) dq u o(4,6,7) by (auto simp: get_fd_set_pos same_names_def)
  have pos: "(0 < int (min (length ?c) ChecksumBufSize)) = (?c \<noteq> [])" by (simp add: c_const)
  let ?close = "\<lambda>g. snd (fs_close k (snd (fs_close q g)))"
  have v: "verify_both orig bak cs m f =
     Option.bind (if ?c \<noteq> [] then if csum_text ?c = csum_of ?b then Some (pclRecoverFromBackup k orig ?f3)
                  else check_original orig m (csum_text ?c) ?f3 else Some (0, ?f3))
       (\<lambda>(h, g). Some (h, ?close g))"
    using o(1,2) p(1,2) r s pos
    by (simp add: verify_both_def split: prod.split) (cases "check_original orig m (csum_text ?c) ?f3"; auto)
  have closed: "same_names f (?close g)" "fs_data (?close g) = fs_data g" "get_fd (?close g) = (get_fd g)(q := None, k := None)"
    if "same_names f1 g" for g
    using that o(4) by (auto simp: same_names_def)
  have fd: "(get_fd f1)(q := None, k := None) = get_fd f" using o(3,6) p(3) by (auto simp: fun_eq_iff)
  have none: "nothing f (?close g)" if "nothing ?f3 g" for g
  proof -
    have "same_names f1 g" "get_fd g = get_fd ?f3" "fs_data g = fs_data f"
      using that f3(2,3) o(5) by (auto simp: nothing_def same_names_def)
    then show ?thesis using closed [of g] f3(1) fd by (simp add: nothing_def)
  qed
  consider (empty) "?c = []" | (match) "?c \<noteq> []" "csum_text ?c = csum_of ?b" | (orig) "?c \<noteq> []" "csum_text ?c \<noteq> csum_of ?b"
    by blast
  then show ?thesis
  proof cases
    case empty
    have "nothing ?f3 ?f3" by (simp add: nothing_def same_names_def)
    then show ?thesis using v none empty by simp
  next
    case match
    have i: "get_fd ?f3 k = Some (desc nb O_RDONLY)" using f3(1) dk kq by simp
    have ne: "fs_names ?f3 (resolve orig) \<noteq> Some (Reg nb)" using three_files_inodes [OF t nb] f3(7) by simp
    have "of_read (desc nb O_RDONLY)" "of_pos (desc nb O_RDONLY) = 0" "fs_names ?f3 (resolve orig) \<noteq> Some Dir"
        "fs_names ?f3 (resolve orig) \<noteq> Some (Reg (of_ino (desc nb O_RDONLY)))"
      using dirs f3(7) ne by simp_all
    from recover_result [OF i this(1,2) f3(6,4,5) this(3,4)]
    obtain h g where rec: "pclRecoverFromBackup k orig ?f3 = (h, g)"
      "case fs_names ?f3 (resolve orig) of
        Some (Reg n) \<Rightarrow> 0 < h \<and> same_names ?f3 g \<and>
          fs_data g = (fs_data ?f3)(n := fs_data ?f3 (of_ino (desc nb O_RDONLY))) \<and> get_fd ?f3 h = None \<and>
          get_fd g = (get_fd ?f3)(k \<mapsto> desc nb O_RDONLY\<lparr>of_pos := length (fs_data ?f3 (of_ino (desc nb O_RDONLY)))\<rparr>,
                                  h \<mapsto> desc n O_RDWR)
      | _ \<Rightarrow> h = - 1 \<and> nothing ?f3 g"
      by blast
    have e: "verify_both orig bak cs m f = Some (h, ?close g)" using v match rec(1) by simp
    show ?thesis
    proof (cases "fs_names f (resolve orig)")
      case None
      then show ?thesis using e match rec(2) f3(7) none by simp
    next
      case (Some x)
      then obtain n where n: "fs_names f (resolve orig) = Some (Reg n)" using dirs by (cases x) auto
      then have g: "0 < h" "same_names ?f3 g" "fs_data g = (fs_data f)(n := ?b)" "get_fd ?f3 h = None"
          "get_fd g = (get_fd ?f3)(k \<mapsto> desc nb O_RDONLY\<lparr>of_pos := length ?b\<rparr>, h \<mapsto> desc n O_RDWR)"
        using rec(2) f3(3,7) o(5) desc_sel(1) [of nb O_RDONLY] by (simp_all del: desc_sel(1))
      have hk: "h \<noteq> k" "h \<noteq> q" using g(4) f3(1) dk kq by auto
      have "same_names f1 g" using f3(2) g(2) by (rule same_names_trans)
      then have "restored f n ?b h (?close g)"
        using closed [of g] g f3(1) o(3,6) p(3) hk kq by (auto simp: restored_def fun_eq_iff split: if_splits)
      then show ?thesis using e match n by simp
    qed
  next
    case orig
    obtain h g where c: "check_original orig m (csum_text ?c) ?f3 = Some (h, g)" "checked ?f3 orig m (csum_text ?c) h g"
      using check_original_result [OF _ f3(6,4,5), of orig m "csum_text ?c"] f3(7) dirs by auto
    have e: "verify_both orig bak cs m f = Some (h, ?close g)" using v orig c(1) by simp
    have m: "matches ?f3 orig m x = matches f orig m x" for x
      using f3(3,7) o(5) by (simp add: matches_def)
    have "kept f n m h (?close g)" if k: "kept ?f3 n m h g" for n
    proof -
      have hk: "h \<noteq> k" "h \<noteq> q" using k f3(1) dk kq by (auto simp: kept_def)
      have "same_names f1 g" using f3(2) k by (auto simp: kept_def same_names_def)
      then show ?thesis
        using closed [of g] k f3(1,3) o(3,5,6) p(3) hk kq by (auto simp: kept_def fun_eq_iff split: if_splits)
    qed
    then have "checked f orig m (csum_text ?c) h (?close g)"
      using c(2) m none f3(7) by (auto simp: checked_def split: if_splits)
    then show ?thesis using e orig by simp
  qed
qed

section \<open>What the check decides\<close>

text \<open>The specification, on the contents of the three files: \<open>readable\<close> tells whether the original is
  opened with read access, without which its checksum stays empty.\<close>

datatype verdict = Nothing_to_check | Keep_original | Restore_backup | Corrupt

definition orig_matches :: "bool \<Rightarrow> u8 list option \<Rightarrow> string \<Rightarrow> bool" where
  "orig_matches readable orig c =
     (case orig of None \<Rightarrow> False | Some x \<Rightarrow> c = (if readable then csum_of x else []))"

definition verdict_of :: "bool \<Rightarrow> u8 list option \<Rightarrow> u8 list option \<Rightarrow> u8 list option \<Rightarrow> verdict" where
  "verdict_of readable orig bak cs =
     (case (bak, cs) of
        (None, None) \<Rightarrow> Nothing_to_check
      | (Some b, Some c) \<Rightarrow>
          if c = [] then Nothing_to_check
          else if csum_text c = csum_of b then (if orig = None then Corrupt else Restore_backup)
          else if orig_matches readable orig (csum_text c) then Keep_original
          else Corrupt
      | (None, Some c) \<Rightarrow> if orig_matches readable orig (csum_text c) then Keep_original else Corrupt
      | (Some b, None) \<Rightarrow> if orig_matches readable orig (csum_of b) then Keep_original else Corrupt)"

definition opened_on :: "fs \<Rightarrow> string \<Rightarrow> int \<Rightarrow> int \<Rightarrow> fs \<Rightarrow> bool" where
  "opened_on f p m h f' \<longleftrightarrow> 0 < h \<and> h < int (fs_maxfd f) \<and> get_fd f h = None \<and>
     fs_wf f' \<and> fs_maxfd f' = fs_maxfd f \<and> fs_denied f' = fs_denied f \<and>
     (\<exists>n. fs_names f' (resolve p) = Some (Reg n) \<and> get_fd f' = (get_fd f)(h \<mapsto> desc n m))"

definition verdict_done :: "fs \<Rightarrow> string \<Rightarrow> string \<Rightarrow> string \<Rightarrow> int \<Rightarrow> verdict \<Rightarrow> int \<Rightarrow> fs \<Rightarrow> bool" where
  "verdict_done f orig bak cs m v h f' \<longleftrightarrow>
     (case v of
        Nothing_to_check \<Rightarrow> h = 0 \<and> nothing f f'
      | Keep_original \<Rightarrow> opened_on f orig m h f' \<and> file_content f' = file_content f
      | Restore_backup \<Rightarrow> opened_on f orig O_RDWR h f' \<and>
          file_content f' = (\<lambda>p. if resolve p = resolve orig then file_content f bak else file_content f p)
      | Corrupt \<Rightarrow> h = - 1 \<and> get_fd f' = get_fd f \<and>
          file_content f' = (\<lambda>p. if resolve p \<in> {resolve orig, resolve bak, resolve cs} then None else file_content f p))"

lemma opened_onI:
  assumes "three_files f orig bak cs" and "same_names f g" and "fs_names f (resolve orig) = Some (Reg n)"
    and "0 < h" and "get_fd f h = None" and "get_fd g = (get_fd f)(h \<mapsto> desc n m)"
  shows "opened_on f orig m h g"
proof -
  have "length (fs_fds g) \<le> fs_maxfd f" using assms(1,2) by (simp add: same_names_def three_files_def fs_wf_def)
  moreover have "h < int (length (fs_fds g))" using assms(6) get_fd_less [of g h "desc n m"] by simp
  moreover have "fs_wf g" unfolding fs_wf_def assms(6)
    using assms(1-3) by (auto simp: same_names_def three_files_def fs_wf_def split: if_splits)
  ultimately show ?thesis using assms by (auto simp: opened_on_def same_names_def)
qed

lemma content_same: "fs_names g = fs_names f \<Longrightarrow> fs_data g = fs_data f \<Longrightarrow> file_content g = file_content f"
  by (intro ext) (simp add: file_content_def split: option.split fs_node.split)

lemma content_restored:
  assumes "fs_wf f" and "fs_names f (resolve orig) = Some (Reg n)" and "restored f n x h g"
  shows "file_content g = (\<lambda>p. if resolve p = resolve orig then Some x else file_content f p)"
proof
  fix p
  have g: "fs_names g = fs_names f" "fs_data g = (fs_data f)(n := x)"
    using assms(3) by (simp_all add: restored_def same_names_def)
  show "file_content g p = (if resolve p = resolve orig then Some x else file_content f p)"
  proof (cases "resolve p = resolve orig")
    case True
    then show ?thesis using assms(2) g by (simp add: file_content_def)
  next
    case False
    then have "fs_names f (resolve p) \<noteq> Some (Reg n)" using assms(1,2) by (auto simp: fs_wf_def)
    then show ?thesis using False g by (simp add: file_content_def split: option.split fs_node.split)
  qed
qed

lemma content_removed:
  assumes "fs_denied g = (\<lambda>_ _. False)" and "fs_names g (resolve q) \<noteq> Some Dir"
  shows "file_content (snd (fs_remove q g)) = (\<lambda>p. if resolve p = resolve q then None else file_content g p)"
proof
  fix p
  show "file_content (snd (fs_remove q g)) p = (if resolve p = resolve q then None else file_content g p)"
    using assms by (auto simp: file_content_def fs_remove_names fun_upd_def split: option.split fs_node.split)
qed

lemma verdict_corrupt_done:
  assumes t: "three_files f orig bak cs" and n: "nothing f g"
  shows "verdict_done f orig bak cs m Corrupt (- 1)
    (snd (fs_remove cs (snd (fs_remove bak (snd (fs_remove orig g))))))"
proof -
  let ?g1 = "snd (fs_remove orig g)" let ?g2 = "snd (fs_remove bak ?g1)"
  have g: "fs_names g = fs_names f" "fs_data g = fs_data f" "get_fd g = get_fd f" "fs_denied g = (\<lambda>_ _. False)"
    using n t by (auto simp: nothing_def same_names_def three_files_def fs_usable_def)
  have d: "fs_names g (resolve orig) \<noteq> Some Dir" "fs_names ?g1 (resolve bak) \<noteq> Some Dir"
    "fs_names ?g2 (resolve cs) \<noteq> Some Dir"
    using t g(1) by (auto simp: three_files_def fs_remove_names)
  show ?thesis
    using content_removed [OF g(4) d(1)] content_removed [of ?g1 bak] content_removed [of ?g2 cs] d g content_same [OF g(1,2)]
    by (simp add: verdict_done_def fun_eq_iff)
qed

lemma checked_verdict:
  assumes t: "three_files f orig bak cs" and c: "checked f orig m c h g"
  shows "verdict_done f orig bak cs m
     (if orig_matches (m \<noteq> O_WRONLY) (file_content f orig) c then Keep_original else Corrupt) h
     (if h = - 1 then snd (fs_remove cs (snd (fs_remove bak (snd (fs_remove orig g))))) else g)"
proof -
  have m: "orig_matches (m \<noteq> O_WRONLY) (file_content f orig) c = matches f orig m c"
    by (auto simp: orig_matches_def matches_def file_content_def split: option.split fs_node.split)
  show ?thesis
  proof (cases "matches f orig m c")
    case True
    then obtain n where n: "fs_names f (resolve orig) = Some (Reg n)" "kept f n m h g"
      using c by (auto simp: checked_def)
    then have "opened_on f orig m h g" "h \<noteq> - 1" "file_content g = file_content f"
      using opened_onI [OF t _ n(1)] by (auto simp: kept_def same_names_def intro: content_same)
    then show ?thesis using True m by (simp add: verdict_done_def)
  next
    case False
    then have "h = - 1" "nothing f g" using c by (auto simp: checked_def)
    then show ?thesis using False m verdict_corrupt_done [OF t] by simp
  qed
qed

lemma fs_access_content:
  "fs_names f (resolve p) \<noteq> Some Dir \<Longrightarrow> fs_access p f = (if file_content f p = None then - 1 else 0)"
  by (auto simp: fs_access_def file_content_def split: option.split fs_node.split)

lemma verify_verdict:
  assumes t: "three_files f orig bak cs"
  shows "\<exists>h f'. pclVerifyConsistency orig bak cs m f = Some (h, f') \<and>
     verdict_done f orig bak cs m
       (verdict_of (m \<noteq> O_WRONLY) (file_content f orig) (file_content f bak) (file_content f cs)) h f'"
proof -
  have a: "fs_access bak f = (if file_content f bak = None then - 1 else 0)"
     "fs_access cs f = (if file_content f cs = None then - 1 else 0)"
    using t by (simp_all add: three_files_def fs_access_content)
  consider (none) "file_content f bak = None" "file_content f cs = None"
    | (csum) c where "file_content f bak = None" "file_content f cs = Some c"
    | (backup) b where "file_content f bak = Some b" "file_content f cs = None"
    | (both) b c where "file_content f bak = Some b" "file_content f cs = Some c" by fastforce
  then show ?thesis
  proof cases
    case none
    then show ?thesis using a by (simp add: pclVerifyConsistency_def verdict_of_def verdict_done_def nothing_def same_names_def)
  next
    case csum
    then obtain nc where nc: "fs_names f (resolve cs) = Some (Reg nc)" "fs_data f nc = c"
      by (auto simp: file_content_reg)
    obtain h g where g: "verify_csum_only orig cs m f = Some (h, g)" "checked f orig m (csum_text c) h g"
      using verify_csum_only_result [OF t nc(1), of m] nc(2) by auto
    then show ?thesis using a csum checked_verdict [OF t g(2)]
      by (simp add: pclVerifyConsistency_def verdict_of_def)
  next
    case backup
    then obtain nb where nb: "fs_names f (resolve bak) = Some (Reg nb)" "fs_data f nb = b"
      by (auto simp: file_content_reg)
    obtain h g where g: "verify_backup_only orig bak m f = Some (h, g)" "checked f orig m (csum_of b) h g"
      using verify_backup_only_result [OF t nb(1), of m] nb(2) by auto
    then show ?thesis using a backup checked_verdict [OF t g(2)]
      by (simp add: pclVerifyConsistency_def verdict_of_def)
  next
    case both
    then obtain nb nc where n: "fs_names f (resolve bak) = Some (Reg nb)" "fs_data f nb = b"
        "fs_names f (resolve cs) = Some (Reg nc)" "fs_data f nc = c"
      by (auto simp: file_content_reg)
    obtain h g where g: "verify_both orig bak cs m f = Some (h, g)"
     "(if c = [] then h = 0 \<and> nothing f g
      else if csum_text c = csum_of b then
        (case fs_names f (resolve orig) of
           Some (Reg n) \<Rightarrow> restored f n b h g
         | _ \<Rightarrow> h = - 1 \<and> nothing f g)
      else checked f orig m (csum_text c) h g)"
      using verify_both_result [OF t n(1,3), of m] n(2,4) by auto
    let ?g = "if h = - 1 then snd (fs_remove cs (snd (fs_remove bak (snd (fs_remove orig g))))) else g"
    have e: "pclVerifyConsistency orig bak cs m f = Some (h, ?g)"
      using a both g(1) by (simp add: pclVerifyConsistency_def)
    have "verdict_done f orig bak cs m (verdict_of (m \<noteq> O_WRONLY) (file_content f orig) (Some b) (Some c)) h ?g"
    proof (cases "c = []")
      case True
      then show ?thesis using g(2)
        by (auto simp: verdict_of_def verdict_done_def)
    next
      case c: False
      show ?thesis
      proof (cases "csum_text c = csum_of b")
        case False
        then have "checked f orig m (csum_text c) h g" using g(2) c by simp
        from checked_verdict [OF t this] show ?thesis using False c by (simp add: verdict_of_def)
      next
        case True
        show ?thesis
        proof (cases "\<exists>n. fs_names f (resolve orig) = Some (Reg n)")
          case True': True
          then obtain n where no: "fs_names f (resolve orig) = Some (Reg n)" by blast
          then have r: "restored f n b h g" using g(2) c True by simp
          then have "opened_on f orig O_RDWR h g" "h \<noteq> - 1"
            using opened_onI [OF t _ no] by (auto simp: restored_def)
          moreover have "file_content g = (\<lambda>p. if resolve p = resolve orig then file_content f bak else file_content f p)"
            unfolding both(1) using content_restored [OF _ no r] t by (simp add: three_files_def)
          moreover have "file_content f orig \<noteq> None" using no by (simp add: file_content_def)
          ultimately show ?thesis using c True both(1) by (simp add: verdict_of_def verdict_done_def)
        next
          case no: False
          then have f: "file_content f orig = None" "h = - 1" "nothing f g"
            using g(2) c True t
            by (auto simp: file_content_def three_files_def split: option.splits fs_node.splits)
          then show ?thesis using c True verdict_corrupt_done [OF t f(3)] by (simp add: verdict_of_def)
        qed
      qed
    qed
    then show ?thesis using e both by simp
  qed
qed


end
