(* ===== verification/File_Api.thy ===== *)
theory File_Api
  imports Key Blacklist Backup
begin

text \<open>
  The file API (\<open>src/persistence_client_library_file.c\<close>): opening, reading, writing, removing and
  closing file resources, the backup that is made before the first write and checked at the next open, and
  the paths that are handed out to clients that do their own I/O.

  A file handle is the POSIX file descriptor and the index into \<open>gFileHandleArray\<close> at once.
\<close>

section \<open>Helpers\<close>

text \<open>\<open>get_raw_string\<close> looks for the fifth slash among the first \<open>DbKeyMaxLen\<close> characters of a zeroed
  buffer of \<open>n\<close> bytes. Without one it returns the address behind them; that is a string only if it still
  lies in the buffer.\<close>

fun slash_pos :: "nat \<Rightarrow> nat \<Rightarrow> string \<Rightarrow> nat" where
  "slash_pos 0 cnt cs = 0"
| "slash_pos (Suc lim) cnt [] = Suc lim"
| "slash_pos (Suc lim) cnt (c # cs) =
     (let cnt = (if c = CHR ''/'' then cnt + 1 else cnt)
      in if 5 \<le> cnt then 0 else Suc (slash_pos lim cnt cs))"

definition get_raw_string :: "'c pers_consts_scheme \<Rightarrow> nat \<Rightarrow> string \<Rightarrow> string option" where
  "get_raw_string c n s = (let p = slash_pos (DbKeyMaxLen c) 0 s in if p < n then Some (drop p s) else None)"

definition file_context ::
  "('w, 'e) perscom_scheme \<Rightarrow> config_key \<Rightarrow> u32 \<Rightarrow> string \<Rightarrow> u32 \<Rightarrow> u32 \<Rightarrow> 'w pcl
     \<Rightarrow> ((int \<times> persistence_info \<times> string \<times> string) \<times> 'w pcl) option" where
  "file_context E junk lid rid user seat s =
     get_db_context E \<lparr>context_of = \<lparr>ldbid = lid, user_no = user, seat_no = seat\<rparr>, configKey = junk\<rparr>
       rid ResIsFile [] [] s"

definition is_file :: "'c pers_consts_scheme \<Rightarrow> persistence_info \<Rightarrow> bool" where
  "is_file c info \<longleftrightarrow> rtype (configKey info) = PersistenceResourceType_file c"

text \<open>\<open>__sync_fetch_and_add\<close> and \<open>__sync_fetch_and_sub\<close> on the two arrays of open flags.\<close>

definition add_open_fd :: "int \<Rightarrow> int \<Rightarrow> handle_state \<Rightarrow> handle_state option" where
  "add_open_fd fd d h = do {
     v \<leftarrow> rd MaxPersHandle (gOpenFdArray h) fd;
     a \<leftarrow> wr MaxPersHandle (gOpenFdArray h) fd (v + d);
     Some (h\<lparr>gOpenFdArray := a\<rparr>)
   }"

definition add_open_handle :: "int \<Rightarrow> int \<Rightarrow> handle_state \<Rightarrow> handle_state option" where
  "add_open_handle i d h = do {
     v \<leftarrow> rd MaxPersHandle (gOpenHandleArray h) i;
     a \<leftarrow> wr MaxPersHandle (gOpenHandleArray h) i (v + d);
     Some (h\<lparr>gOpenHandleArray := a\<rparr>)
   }"

definition on_fs :: "(fs \<Rightarrow> int \<times> fs) \<Rightarrow> 'w pcl \<Rightarrow> int \<times> 'w pcl" where
  "on_fs g s = (let (r, f) = g (fsys s) in (r, s\<lparr>fsys := f\<rparr>))"

definition write_through :: "'c pers_consts_scheme \<Rightarrow> string \<Rightarrow> bool" where
  "write_through c dbPath \<longleftrightarrow> strstr_found dbPath (WTPREFIX c)"

definition cache_status_of :: "'c pers_consts_scheme \<Rightarrow> string \<Rightarrow> int" where
  "cache_status_of c dbPath = (if write_through c dbPath then 0 else 1)"

section \<open>Simple operations\<close>

definition pclFileClose :: "('w, 'e) perscom_scheme \<Rightarrow> int \<Rightarrow> 'w pcl \<Rightarrow> (int \<times> 'w pcl) option" where
  "pclFileClose E fd s =
     (if initialized s then do {
        perm \<leftarrow> get_file_permission E fd (hnd s);
        if perm \<noteq> - 1 then do {
          s \<leftarrow> (if perm \<noteq> PersistencePermission_ReadOnly E \<or> perm \<noteq> PersistencePermission_LastEntry E then do {
                  b \<leftarrow> get_file_backup_path fd (hnd s);
                  k \<leftarrow> get_file_checksum_path fd (hnd s);
                  Some (snd (on_fs (fs_remove k) (snd (on_fs (fs_remove b) s))))
                }
                else Some s);
          h \<leftarrow> add_open_fd fd (- FileClosed) (hnd s);
          Some (on_fs (fs_close fd) (s\<lparr>hnd := h\<rparr>))
        }
        else Some (EPERS_MAXHANDLE, s)
      }
      else Some (EPERS_NOT_INITIALIZED, s))"

definition pclFileGetSize :: "int \<Rightarrow> 'w pcl \<Rightarrow> int" where
  "pclFileGetSize fd s =
     (if initialized s then
        case fs_fstat fd (fsys s) of Some n \<Rightarrow> int n | None \<Rightarrow> - 1
      else EPERS_NOT_INITIALIZED)"

text \<open>A mapped region is the inode, the offset and the size.\<close>

datatype map_ptr = Map_null | Map_lockfs | Map_failure | Mapping nat int int

definition fs_mmap :: "int \<Rightarrow> int \<Rightarrow> int \<Rightarrow> fs \<Rightarrow> map_ptr" where
  "fs_mmap sz offset fd f =
     (case get_fd f fd of
        Some d \<Rightarrow>
          if of_read d \<and> of_write d \<and> 0 < sz \<and> 0 \<le> offset \<and> offset mod 4096 = 0
          then Mapping (of_ino d) offset sz else Map_failure
      | None \<Rightarrow> Map_failure)"

definition pclFileMapData :: "int \<Rightarrow> int \<Rightarrow> int \<Rightarrow> 'w pcl \<Rightarrow> map_ptr" where
  "pclFileMapData sz offset fd s =
     (if initialized s then
        if access_permitted s then fs_mmap sz offset fd (fsys s) else Map_lockfs
      else Map_null)"

text \<open>\<open>rc\<close> is the result of \<open>munmap\<close>.\<close>

definition pclFileUnmapData :: "int \<Rightarrow> 'w pcl \<Rightarrow> int" where
  "pclFileUnmapData rc s =
     (if initialized s then if access_permitted s then rc else EPERS_LOCKFS else EPERS_NOT_INITIALIZED)"

text \<open>Returns the buffer as it is afterwards; the bytes read must fit. A count above \<open>SSIZE_MAX\<close>, to
  which a negative size is converted, is refused by the system.\<close>

definition pclFileReadData :: "int \<Rightarrow> u8 list \<Rightarrow> int \<Rightarrow> 'w pcl \<Rightarrow> ((int \<times> u8 list) \<times> 'w pcl) option" where
  "pclFileReadData fd buffer buffer_size s =
     (if initialized s then
        if buffer_size < 0 then Some ((- 1, buffer), s)
        else
          let ((r, bs), f) = fs_read fd (nat buffer_size) (fsys s)
          in if length bs \<le> length buffer
             then Some ((r, bs @ drop (length bs) buffer), s\<lparr>fsys := f\<rparr>) else None
      else Some ((EPERS_NOT_INITIALIZED, buffer), s))"

definition pclFileSeek :: "int \<Rightarrow> int \<Rightarrow> int \<Rightarrow> 'w pcl \<Rightarrow> int \<times> 'w pcl" where
  "pclFileSeek fd offset whence s =
     (if initialized s then
        if access_permitted s then on_fs (fs_lseek fd offset whence) s else (EPERS_LOCKFS, s)
      else (EPERS_NOT_INITIALIZED, s))"

definition pclFileRemove ::
  "('w, 'e) perscom_scheme \<Rightarrow> config_key \<Rightarrow> u32 \<Rightarrow> string \<Rightarrow> u32 \<Rightarrow> u32 \<Rightarrow> 'w pcl \<Rightarrow> (int \<times> 'w pcl) option" where
  "pclFileRemove E junk lid rid user seat s =
     (if initialized s then
        if access_permitted s then do {
          ((shared_DB, info, dbKey, dbPath), s) \<leftarrow> file_context E junk lid rid user seat s;
          if shared_DB \<ge> 0 \<and> is_file E info then Some (on_fs (fs_remove dbPath) s)
          else Some (shared_DB, s)
        }
        else Some (EPERS_LOCKFS, s)
      else Some (EPERS_NOT_INITIALIZED, s))"

section \<open>Writing\<close>

text \<open>The backup before the first write: checksum, copy, and the mark that it is done.\<close>

definition backup_before_write :: "('w, 'e) perscom_scheme \<Rightarrow> int \<Rightarrow> 'w pcl \<Rightarrow> 'w pcl option" where
  "backup_before_write E fd s = do {
     status \<leftarrow> get_file_backup_status fd (hnd s);
     if status = 0 then do {
       (_, csumBuf, f) \<leftarrow> pclCalcCrc32Csum fd [] (fsys s);
       b \<leftarrow> get_file_backup_path fd (hnd s);
       k \<leftarrow> get_file_checksum_path fd (hnd s);
       (_, f) \<leftarrow> pclCreateBackup E b fd k csumBuf f;
       h \<leftarrow> set_file_backup_status fd 1 (hnd s);
       Some (s\<lparr>fsys := f, hnd := h\<rparr>)
     }
     else Some s
   }"

definition sys_write :: "int \<Rightarrow> u8 list \<Rightarrow> int \<Rightarrow> fs \<Rightarrow> (int \<times> fs) option" where
  "sys_write fd buffer n f =
     (if n < 0 then Some (- 1, f)
      else if nat n \<le> length buffer then Some (fs_write fd (take (nat n) buffer) f) else None)"

definition pclFileWriteData ::
  "('w, 'e) perscom_scheme \<Rightarrow> int \<Rightarrow> u8 list \<Rightarrow> int \<Rightarrow> 'w pcl \<Rightarrow> (int \<times> 'w pcl) option" where
  "pclFileWriteData E fd buffer buffer_size s =
     (if initialized s then
        if access_permitted s then do {
          perm \<leftarrow> get_file_permission E fd (hnd s);
          if perm \<noteq> - 1 then
            if perm \<noteq> PersistencePermission_ReadOnly E then do {
              s \<leftarrow> backup_before_write E fd s;
              (n, f) \<leftarrow> sys_write fd buffer buffer_size (fsys s);
              cached \<leftarrow> get_file_cache_status fd (hnd s);
              let f = (if cached = 1 then snd (fs_fsync fd f) else f);
              Some (n, s\<lparr>fsys := f\<rparr>)
            }
            else Some (EPERS_RESOURCE_READ_ONLY, s)
          else Some (EPERS_MAXHANDLE, s)
        }
        else Some (EPERS_LOCKFS, s)
      else Some (EPERS_NOT_INITIALIZED, s))"

section \<open>Opening\<close>

definition default_data_path :: "'c pers_consts_scheme \<Rightarrow> string \<Rightarrow> string \<Rightarrow> int \<Rightarrow> string" where
  "default_data_path c app rid pol =
     (let pathPrefix = (if pol = PersistencePolicy_wc c then snprintf (DbPathMaxLen c) (gLocalCachePath c app)
                        else if pol = PersistencePolicy_wt c then snprintf (DbPathMaxLen c) (gLocalWtPath c app)
                        else [])
      in snprintf (DbPathMaxLen c) (pathPrefix @ PERS_ORG_DEFAULT_DATA_FOLDER_NAME c @ ''/'' @ rid))"

definition pclFileGetDefaultData ::
  "'c pers_consts_scheme \<Rightarrow> string \<Rightarrow> int \<Rightarrow> string \<Rightarrow> int \<Rightarrow> fs \<Rightarrow> int \<times> fs" where
  "pclFileGetDefaultData c app handle rid pol f =
     (let (defaultHandle, f) = fs_open (default_data_path c app rid pol) O_RDONLY False False f in
      if defaultHandle \<noteq> - 1 then
        let (r, f) = fs_sendfile handle defaultHandle (fs_size_or_0 defaultHandle f) f;
            (r, f) = (if r \<noteq> - 1 then fs_lseek handle 0 0 f else (r, f));
            (_, f) = fs_close defaultHandle f
        in (r, f)
      else (- 1, f))"

text \<open>Where the backup and the checksum of a file lie.\<close>

definition backup_names :: "'c pers_consts_scheme \<Rightarrow> config_key \<Rightarrow> string \<Rightarrow> (string \<times> string) option" where
  "backup_names c ck dbPath =
     (let len = (if policy ck = PersistencePolicy_wc c then gCPathPrefixSize c else gWTPathPrefixSize c) in
      if len < DbPathMaxLen c then
        Some (snprintf (DbPathMaxLen c - 1) (gBackupPrefix c @ drop len dbPath @ gBackupPostfix),
              snprintf (DbPathMaxLen c - 1) (gBackupPrefix c @ drop len dbPath @ gBackupCsPostfix))
      else None)"

text \<open>The path does not exist: create the file and copy the default data. Returns the handle.\<close>

definition create_with_defaults ::
  "('w, 'e) perscom_scheme \<Rightarrow> string \<Rightarrow> string \<Rightarrow> int \<Rightarrow> int \<Rightarrow> 'w pcl \<Rightarrow> (int \<times> 'w pcl) option" where
  "create_with_defaults E dbPath rid pol cStatus s = do {
     (h, f) \<leftarrow> pclCreateFile E dbPath (fsys s);
     let f = (if h = - 1 then f else snd (pclFileGetDefaultData E (gAppId s) h rid pol f));
     hs \<leftarrow> set_file_cache_status h cStatus (hnd s);
     Some (h, s\<lparr>fsys := f, hnd := hs\<rparr>)
   }"

text \<open>Enter an open descriptor in the table of file handles.\<close>

definition register_fd ::
  "('w, 'e) perscom_scheme \<Rightarrow> int \<Rightarrow> int \<Rightarrow> string \<Rightarrow> string \<Rightarrow> int \<Rightarrow> 'w pcl \<Rightarrow> (int \<times> 'w pcl) option" where
  "register_fd E handle perm backPath sumPath wantBackup s = do {
     (r, h) \<leftarrow> set_file_handle_data E handle perm backPath sumPath None (hnd s);
     if r \<noteq> - 1 then do {
       h \<leftarrow> set_file_backup_status handle wantBackup h;
       h \<leftarrow> add_open_fd handle FileOpen h;
       Some (handle, s\<lparr>hnd := h\<rparr>)
     }
     else Some (EPERS_MAXHANDLE, snd (on_fs (fs_close handle) (s\<lparr>hnd := h\<rparr>)))
   }"

text \<open>A writable file that is not on the blacklist is checked. The result is the handle (0: not opened
  yet) and the mark that no backup is wanted.\<close>

definition check_before_open ::
  "('w, 'e) perscom_scheme \<Rightarrow> config_key \<Rightarrow> string option \<Rightarrow> string \<Rightarrow> string \<Rightarrow> string \<Rightarrow> int \<Rightarrow> 'w pcl
     \<Rightarrow> ((int \<times> int) \<times> 'w pcl) option" where
  "check_before_open E ck raw dbPath backPath sumPath h0 s =
     (if permission ck \<noteq> PersistencePermission_ReadOnly E then do {
        name \<leftarrow> raw;
        needed \<leftarrow> pclBackupNeeded name s;
        if needed = CREATE_BACKUP then do {
          (h, f) \<leftarrow> pclVerifyConsistency dbPath backPath sumPath (pclGetPosixPermission E (permission ck)) (fsys s);
          Some ((h, 0), s\<lparr>fsys := f\<rparr>)
        }
        else Some ((h0, 1), s)
      }
      else Some ((h0, 1), s))"

definition open_configured ::
  "('w, 'e) perscom_scheme \<Rightarrow> persistence_info \<Rightarrow> string \<Rightarrow> string \<Rightarrow> string \<Rightarrow> string \<Rightarrow> string \<Rightarrow> 'w pcl
     \<Rightarrow> (int \<times> 'w pcl) option" where
  "open_configured E info rid dbKey dbPath backPath sumPath s = do {
     let ck = configKey info;
     ((handle, wantBackup), s) \<leftarrow>
       check_before_open E ck (get_raw_string E (DbKeyMaxLen E) dbKey) dbPath backPath sumPath
         EPERS_NOT_INITIALIZED s;
     if wantBackup = 0 \<and> handle = - 1 then Some (- 1, s)
     else do {
       let ((handle, cStatus), s) =
         (if handle \<le> 0 then
            let (h, s) = on_fs (fs_open dbPath (pclGetPosixPermission E (permission ck)) False False) s
            in ((h, cache_status_of E dbPath), s)
          else ((handle, - 1), s));
       (handle, s) \<leftarrow>
         (if handle = - 1 \<and> fs_errno (fsys s) = ENOENT
          then create_with_defaults E dbPath rid (policy ck) cStatus s else Some (handle, s));
       if permission ck \<noteq> PersistencePermission_ReadOnly E
       then register_fd E handle (permission ck) backPath sumPath wantBackup s
       else Some (handle, s)
     }
   }"

definition pclFileOpen ::
  "('w, 'e) perscom_scheme \<Rightarrow> config_key \<Rightarrow> u32 \<Rightarrow> string \<Rightarrow> u32 \<Rightarrow> u32 \<Rightarrow> 'w pcl \<Rightarrow> (int \<times> 'w pcl) option" where
  "pclFileOpen E junk lid rid user seat s =
     (if initialized s then do {
        ((shared_DB, info, dbKey, dbPath), s) \<leftarrow> file_context E junk lid rid user seat s;
        if is_file E info then do {
          (backPath, sumPath) \<leftarrow> backup_names E (configKey info) dbPath;
          if shared_DB \<ge> 0 then open_configured E info rid dbKey dbPath backPath sumPath s
          else do {
            let dbPath = snprintf (DbPathMaxLen E) (gLocalCacheFilePath E (gAppId s) user seat rid);
            (handle, f) \<leftarrow> pclCreateFile E dbPath (fsys s);
            h \<leftarrow> set_file_cache_status handle 1 (hnd s);
            let s = s\<lparr>fsys := f, hnd := h\<rparr>;
            if handle \<noteq> - 1
            then register_fd E handle (PersistencePermission_ReadWrite E) backPath sumPath 1 s
            else Some (handle, s)
          }
        }
        else Some (EPERS_RESOURCE_NO_FILE, s)
      }
      else Some (EPERS_NOT_INITIALIZED, s))"

section \<open>Handing out a path\<close>

text \<open>The result is the handle and, when the function stores it, the path.\<close>

definition create_path_file ::
  "('w, 'e) perscom_scheme \<Rightarrow> string \<Rightarrow> string \<Rightarrow> int \<Rightarrow> 'w pcl \<Rightarrow> 'w pcl option" where
  "create_path_file E dbPath rid pol s =
     (if fs_access dbPath (fsys s) = - 1 then do {
        (h, s) \<leftarrow> create_with_defaults E dbPath rid pol (cache_status_of E dbPath) s;
        Some (if h = - 1 then s else snd (on_fs (fs_close h) s))
      }
      else Some s)"

definition path_configured ::
  "('w, 'e) perscom_scheme \<Rightarrow> persistence_info \<Rightarrow> string \<Rightarrow> string \<Rightarrow> 'w pcl
     \<Rightarrow> ((int \<times> string option) \<times> 'w pcl) option" where
  "path_configured E info rid dbPath s = do {
     let ck = configKey info;
     let names = (snprintf (DbPathMaxLen E - 1) (dbPath @ gBackupPostfix),
                  snprintf (DbPathMaxLen E - 1) (dbPath @ gBackupCsPostfix));
     ((h, noBackup), s) \<leftarrow>
       check_before_open E ck (get_raw_string E (DbPathMaxLen E) dbPath) dbPath (fst names) (snd names) 0 s;
     if noBackup = 0 \<and> h = - 1 then Some ((- 1, None), s)
     else do {
       let s = (if noBackup = 0 \<and> 0 < h then snd (on_fs (fs_close h) s) else s);
       let (backPath, sumPath) = (if noBackup = 0 then names else ([], []));
       (handle, h) \<leftarrow> get_persistence_handle_idx (hnd s);
       let s = s\<lparr>hnd := h\<rparr>;
       if handle \<noteq> - 1 then
         if handle < int MaxPersHandle then do {
           s \<leftarrow> create_path_file E dbPath rid (policy ck) s;
           h \<leftarrow> add_open_handle handle FileOpen (hnd s);
           (_, h) \<leftarrow> set_ossfile_handle_data E handle (permission ck) 0 backPath sumPath (Some dbPath) h;
           Some ((handle, Some dbPath), s\<lparr>hnd := h\<rparr>)
         }
         else do {
           h \<leftarrow> set_persistence_handle_close_idx handle (hnd s);
           Some ((EPERS_MAXHANDLE, None), s\<lparr>hnd := h\<rparr>)
         }
       else Some ((handle, None), s)
     }
   }"

definition path_unconfigured ::
  "('w, 'e) perscom_scheme \<Rightarrow> string \<Rightarrow> u32 \<Rightarrow> u32 \<Rightarrow> 'w pcl \<Rightarrow> ((int \<times> string option) \<times> 'w pcl) option" where
  "path_unconfigured E rid user seat s = do {
     let dbPath = snprintf (DbPathMaxLen E) (gLocalCacheFilePath E (gAppId s) user seat rid);
     (handle, h) \<leftarrow> get_persistence_handle_idx (hnd s);
     if handle \<noteq> - 1 then
       if handle < int MaxPersHandle then do {
         h \<leftarrow> add_open_handle handle FileOpen h;
         (_, h) \<leftarrow> set_ossfile_handle_data E handle (PersistencePermission_ReadWrite E) 0
                    (snprintf (DbPathMaxLen E) (dbPath @ gBackupPostfix))
                    (snprintf (DbPathMaxLen E) (dbPath @ gBackupCsPostfix)) None h;
         Some ((handle, None), s\<lparr>hnd := h\<rparr>)
       }
       else do {
         h \<leftarrow> set_persistence_handle_close_idx handle h;
         Some ((EPERS_MAXHANDLE, None), s\<lparr>hnd := h\<rparr>)
       }
     else Some ((handle, None), s\<lparr>hnd := h\<rparr>)
   }"

definition pclFileCreatePath ::
  "('w, 'e) perscom_scheme \<Rightarrow> config_key \<Rightarrow> u32 \<Rightarrow> string \<Rightarrow> u32 \<Rightarrow> u32 \<Rightarrow> 'w pcl
     \<Rightarrow> ((int \<times> string option) \<times> 'w pcl) option" where
  "pclFileCreatePath E junk lid rid user seat s =
     (if initialized s then do {
        ((shared_DB, info, dbKey, dbPath), s) \<leftarrow> file_context E junk lid rid user seat s;
        if is_file E info then
          if shared_DB \<ge> 0 then path_configured E info rid dbPath s
          else path_unconfigured E rid user seat s
        else Some ((EPERS_RESOURCE_NO_FILE, None), s)
      }
      else Some ((EPERS_NOT_INITIALIZED, None), s))"

text \<open>The path itself is freed: afterwards the client must not use it.\<close>

definition pclFileReleasePath :: "('w, 'e) perscom_scheme \<Rightarrow> int \<Rightarrow> 'w pcl \<Rightarrow> (int \<times> 'w pcl) option" where
  "pclFileReleasePath E pathHandle s =
     (if initialized s then do {
        perm \<leftarrow> get_ossfile_permission E pathHandle (hnd s);
        if perm \<noteq> - 1 then do {
          s \<leftarrow> (if perm \<noteq> PersistencePermission_ReadOnly E then do {
                  b \<leftarrow> get_ossfile_backup_path pathHandle (hnd s);
                  k \<leftarrow> get_ossfile_checksum_path pathHandle (hnd s);
                  Some (snd (on_fs (fs_remove k) (snd (on_fs (fs_remove b) s))))
                }
                else Some s);
          _ \<leftarrow> get_ossfile_file_path pathHandle (hnd s);
          h \<leftarrow> add_open_handle pathHandle (- FileClosed) (hnd s);
          h \<leftarrow> set_persistence_handle_close_idx pathHandle h;
          h \<leftarrow> set_ossfile_file_path pathHandle None h;
          Some (1, s\<lparr>hnd := h\<rparr>)
        }
        else Some (EPERS_MAXHANDLE, s)
      }
      else Some (EPERS_NOT_INITIALIZED, s))"

end
