(* ===== verification/Dbus_Cmd.thy ===== *)
theory Dbus_Cmd
  imports Lc_Interface Pas_Interface Db_Access
begin

text \<open>
  The commands that the main loop carries out (\<open>src/persistence_client_library_dbus_cmd.c\<close>): match rules
  and signals for change notifications, the messages to the administration service and the node state
  manager, locking for a write-back, and the preparation of a shutdown.

  The connection is open and libdbus has memory; a message sent is an entry of \<open>bus\<close>. \<open>me\<close> is the unique
  name of the connection.
\<close>

definition DbusSubMatchSize :: nat where [c_const]: "DbusSubMatchSize = 12"
definition DbusMatchRuleSize :: nat where [c_const]: "DbusMatchRuleSize = 300"

definition gTimeoutMs :: int where [simp]: "gTimeoutMs = 5000"

definition gDbusLcConsDest :: string where "gDbusLcConsDest = ''org.genivi.NodeStateManager''"
definition gDbusLcConsPath :: string where "gDbusLcConsPath = ''/org/genivi/NodeStateManager/LifeCycleConsumer''"
definition gDbusLcInterface :: string where "gDbusLcInterface = ''org.genivi.NodeStateManager.Consumer''"
definition gDbusLcCons :: string where "gDbusLcCons = ''/org/genivi/NodeStateManager/Consumer''"
definition gPersAdminConsumerPath :: string where "gPersAdminConsumerPath = ''/org/genivi/persistence/adminconsumer''"
definition gDbusPersAdminPath :: string where "gDbusPersAdminPath = ''/org/genivi/persistence/admin''"
definition gDbusPersAdminInterface :: string where "gDbusPersAdminInterface = ''org.genivi.persistence.admin''"

definition gChangeSignal :: string where "gChangeSignal = ''PersistenceResChange''"
definition gDeleteSignal :: string where "gDeleteSignal = ''PersistenceResDelete''"
definition gCreateSignal :: string where "gCreateSignal = ''PersistenceResCreate''"

section \<open>Notifications\<close>

definition quoted :: "string \<Rightarrow> string" where
  "quoted s = CHR 0x27 # s @ [CHR 0x27]"

definition match_rule :: "string \<Rightarrow> string \<Rightarrow> u32 \<Rightarrow> u32 \<Rightarrow> u32 \<Rightarrow> string" where
  "match_rule member key lid user seat =
     snprintf DbusMatchRuleSize
       (''type='' @ quoted ''signal'' @ '',interface='' @ quoted ''org.genivi.persistence.adminconsumer'' @
        '',member='' @ quoted member @ '',path='' @ quoted ''/org/genivi/persistence/adminconsumer'' @
        '',arg0='' @ quoted key @ '',arg1='' @ quoted (fmt_u lid) @ '',arg2='' @ quoted (fmt_u user) @
        '',arg3='' @ quoted (fmt_u seat))"

definition process_reg_notification_signal ::
  "u32 \<Rightarrow> u32 \<Rightarrow> u32 \<Rightarrow> u32 \<Rightarrow> string \<Rightarrow> 'w pcl \<Rightarrow> 'w pcl" where
  "process_reg_notification_signal lid user seat notifyPolicy key s =
     (let ruleChanged = match_rule gChangeSignal key lid user seat;
          ruleDeleted = match_rule gDeleteSignal key lid user seat;
          ruleCreated = match_rule gCreateSignal key lid user seat
      in if notifyPolicy = notify_policy_val Notify_register then
           dbus_send (Add_match ruleCreated) (dbus_send (Add_match ruleDeleted) (dbus_send (Add_match ruleChanged) s))
         else if notifyPolicy = notify_policy_val Notify_unregister then
           dbus_send (Remove_match ruleCreated)
             (dbus_send (Remove_match ruleDeleted) (dbus_send (Remove_match ruleChanged) s))
         else s)"

definition notify_reason_string :: "u32 \<Rightarrow> string option" where
  "notify_reason_string notifyReason =
     (if notifyReason = word_of_int pclNotifyStatus_deleted then Some gDeleteSignal
      else if notifyReason = word_of_int pclNotifyStatus_created then Some gCreateSignal
      else if notifyReason = word_of_int pclNotifyStatus_changed then Some gChangeSignal
      else None)"

definition process_send_notification_signal ::
  "u32 \<Rightarrow> u32 \<Rightarrow> u32 \<Rightarrow> u32 \<Rightarrow> string \<Rightarrow> 'w pcl \<Rightarrow> 'w pcl" where
  "process_send_notification_signal lid user seat notifyReason key s =
     (case notify_reason_string notifyReason of
        Some name \<Rightarrow>
          dbus_send (Signal gPersAdminConsumerPath gDbusPersAdminConsInterface name
            [DBUS_STRING key, DBUS_STRING (snprintf DbusSubMatchSize (fmt_u lid)),
             DBUS_STRING (snprintf DbusSubMatchSize (fmt_u user)),
             DBUS_STRING (snprintf DbusSubMatchSize (fmt_u seat))]) s
      | None \<Rightarrow> s)"

section \<open>Locking and shutdown\<close>

definition process_block_and_write_data_back :: "u32 \<Rightarrow> u32 \<Rightarrow> 'w pcl \<Rightarrow> 'w pcl" where
  "process_block_and_write_data_back requestID status s = pers_lock_access s"

text \<open>One open file: closed on a full shutdown, synchronised on a partial one.\<close>

definition shutdown_fd :: "int \<Rightarrow> nat \<Rightarrow> 'w pcl \<Rightarrow> 'w pcl" where
  "shutdown_fd complete i s =
     (if gOpenFdArray (hnd s) i = FileOpen then
        s\<lparr>fsys := (if complete = Shutdown_Full then snd (fs_close (int i) (fsys s))
                   else if complete = Shutdown_Partial then snd (fs_fsync (int i) (fsys s))
                   else fsys s)\<rparr>
      else s)"

definition shutdown_files :: "int \<Rightarrow> 'w pcl \<Rightarrow> 'w pcl" where
  "shutdown_files complete s = fold (shutdown_fd complete) [0..<MaxPersHandle] s"

text \<open>Deinitialise, unload and forget a plugin that has a deinit function.\<close>

definition unload_plugin :: "('w, 'e) perscom_scheme \<Rightarrow> nat \<Rightarrow> 'w pcl \<Rightarrow> 'w pcl" where
  "unload_plugin E i s =
     (let f = gPersCustomFuncs s i in
      case custom_plugin_deinit f of
        None \<Rightarrow> s
      | Some g \<Rightarrow>
          let (_, w) = call_plugin_deinit E g (world s);
              (_, w) = dlclose E (cf_handle f) w
          in s\<lparr>world := w, gPersCustomFuncs := (gPersCustomFuncs s)(i := forget_plugin f)\<rparr>)"

definition unload_plugins :: "('w, 'e) perscom_scheme \<Rightarrow> 'w pcl \<Rightarrow> 'w pcl" where
  "unload_plugins E s = fold (unload_plugin E) [0..<PersCustomLib_LastEntry] s"

definition process_prepare_shutdown :: "('w, 'e) perscom_scheme \<Rightarrow> int \<Rightarrow> 'w pcl \<Rightarrow> 'w pcl" where
  "process_prepare_shutdown E complete s =
     (let s = pers_lock_access s;
          s = shutdown_files complete s;
          s = pers_rct_close_all E s;
          s = database_close_all E s
      in if complete > 0
         then unload_plugins E (s\<lparr>hnd := close_all_persistence_handle (hnd s)\<rparr>)
         else s)"

section \<open>Messages to the services\<close>

definition process_send_pas_request :: "u32 \<Rightarrow> u32 \<Rightarrow> 'w pcl \<Rightarrow> 'w pcl" where
  "process_send_pas_request requestID status s =
     dbus_send (Method_call gDbusPersAdminInterface gDbusPersAdminPath gDbusPersAdminInterface
       ''PersistenceAdminRequestCompleted'' [DBUS_UINT32 requestID, DBUS_INT32 (sint status)]) s"

text \<open>Any other registration type leaves the method name NULL, which is undefined.\<close>

definition process_send_pas_register :: "string \<Rightarrow> u32 \<Rightarrow> u32 \<Rightarrow> 'w pcl \<Rightarrow> 'w pcl option" where
  "process_send_pas_register me regType notificationFlag s =
     map_option (\<lambda>method.
       dbus_send (Method_call gDbusPersAdminInterface gDbusPersAdminPath gDbusPersAdminInterface method
         [DBUS_STRING me, DBUS_STRING gPersAdminConsumerPath, DBUS_INT32 (sint notificationFlag),
          DBUS_UINT32 (word_of_int gTimeoutMs)]) s)
       (if regType = 0 then Some ''UnRegisterPersAdminNotification''
        else if regType = 1 then Some ''RegisterPersAdminNotification'' else None)"

definition process_send_lifecycle_register :: "string \<Rightarrow> u32 \<Rightarrow> u32 \<Rightarrow> 'w pcl \<Rightarrow> 'w pcl option" where
  "process_send_lifecycle_register me regType shutdownMode s =
     map_option (\<lambda>method.
       dbus_send (Method_call gDbusLcConsDest gDbusLcCons gDbusLcInterface method
         ([DBUS_STRING me, DBUS_STRING gDbusLcConsPath, DBUS_UINT32 shutdownMode] @
          (if regType = 1 then [DBUS_UINT32 (word_of_int gTimeoutMs)] else []))) s)
       (if regType = 1 then Some ''RegisterShutdownClient''
        else if regType = 0 then Some ''UnRegisterShutdownClient'' else None)"

definition process_send_lifecycle_request :: "u32 \<Rightarrow> u32 \<Rightarrow> 'w pcl \<Rightarrow> 'w pcl" where
  "process_send_lifecycle_request requestId status s =
     dbus_send (Method_call gDbusLcConsDest gDbusLcCons gDbusLcInterface ''LifecycleRequestComplete''
       [DBUS_INT32 (sint requestId), DBUS_INT32 (sint status)]) s"

text \<open>The reply to a registration: an error leaves -1.\<close>

definition msg_pending_func :: "dbus_arg list option \<Rightarrow> 'w pcl \<Rightarrow> 'w pcl" where
  "msg_pending_func reply s =
     s\<lparr>gDbusPendingRvalue := (case reply of Some (DBUS_INT32 v # _) \<Rightarrow> v | _ \<Rightarrow> - 1)\<rparr>"

end
