(* ===== verification/Dbus_Service.thy ===== *)
theory Dbus_Service
  imports Dbus_Cmd
begin

text \<open>
  The D-Bus main loop (\<open>src/persistence_client_library_dbus_service.c\<close>): dispatching received messages to
  the registered handlers, the fallback handler that delivers change notifications to the client, and
  reading and carrying out the commands from the pipe. (The poll table is in \<open>Poll_Table\<close>, sending in
  \<open>Pcl_State\<close>.)

  One event of the loop is one step: a received message, a command, or anything else. A command is read
  from the front of \<open>pipe\<close>. Locks and condition variables, which make the blocking senders wait, are not
  modelled.
\<close>

section \<open>The fallback handler\<close>

text \<open>\<open>atoi\<close>: an optional sign and the leading decimal digits, as \<open>int\<close> assigned to \<open>unsigned int\<close>.\<close>

definition is_digit :: "char \<Rightarrow> bool" where
  "is_digit c \<longleftrightarrow> (48::nat) \<le> of_char c \<and> (of_char c :: nat) \<le> 57"

definition atoi :: "string \<Rightarrow> int" where
  "atoi s =
     (case s of
        [] \<Rightarrow> 0
      | c # cs \<Rightarrow> if c = CHR ''-'' then - int (undigits 10 (takeWhile is_digit cs))
                 else int (undigits 10 (takeWhile is_digit s)))"

definition notify_status_of :: "string \<Rightarrow> int option" where
  "notify_status_of member =
     (if member = ''PersistenceResChange'' then Some pclNotifyStatus_changed
      else if member = ''PersistenceResDelete'' then Some pclNotifyStatus_deleted
      else if member = ''PersistenceRes'' then Some pclNotifyStatus_created
      else None)"

definition call_notify :: "pclNotification_s \<Rightarrow> 'w pcl \<Rightarrow> 'w pcl" where
  "call_notify n s =
     (case gChangeNotifyCallback s of
        Some f \<Rightarrow> s\<lparr>callbacks := callbacks s @ [(f, n)]\<rparr>
      | None \<Rightarrow> s)"

definition deliver_notification :: "dbus_msg \<Rightarrow> 'w pcl \<Rightarrow> DBusHandlerResult \<times> 'w pcl" where
  "deliver_notification m s =
     (case notify_status_of (dm_member m) of
        None \<Rightarrow> (DBUS_HANDLER_RESULT_HANDLED, s)
      | Some status \<Rightarrow>
          (case dm_args m of
             DBUS_STRING rid # DBUS_STRING lid # DBUS_STRING user # DBUS_STRING seat # _ \<Rightarrow>
               (DBUS_HANDLER_RESULT_HANDLED,
                call_notify \<lparr>pclKeyNotify_Status = status, n_ldbid = word_of_int (atoi lid), n_resource_id = rid,
                  n_user_no = word_of_int (atoi user), n_seat_no = word_of_int (atoi seat)\<rparr> s)
           | _ \<Rightarrow> (DBUS_HANDLER_RESULT_NOT_YET_HANDLED, dbus_send Reply_error s)))"

text \<open>Every other message is taken and ignored. (For \<open>EggDBusChanged\<close> the source opens iterators that it
  has not initialised: undefined.)\<close>

definition handleObjectPathMessageFallback :: "dbus_msg \<Rightarrow> 'w pcl \<Rightarrow> (DBusHandlerResult \<times> 'w pcl) option" where
  "handleObjectPathMessageFallback m s =
     (if dm_interface m = gDbusPersAdminInterface then
        if dm_is_signal m \<and> dm_member m = ''PersistenceModeChanged'' then Some (signal_persModeChange m s)
        else Some (DBUS_HANDLER_RESULT_HANDLED, s)
      else if dm_interface m = gDbusPersAdminConsInterface then
        if dm_is_signal m then Some (deliver_notification m s)
        else Some (DBUS_HANDLER_RESULT_HANDLED, s)
      else if dm_interface m = ''org.freedesktop.DBus.Properties'' then
        if dm_is_signal m \<and> dm_member m = ''EggDBusChanged'' then None
        else Some (DBUS_HANDLER_RESULT_HANDLED, s)
      else Some (DBUS_HANDLER_RESULT_HANDLED, s))"

text \<open>The handlers are tried from the registered path up to the fallback at \<open>/\<close>. \<open>usePas\<close>: the library is
  built with the administration service interface.\<close>

definition dispatch_message :: "bool \<Rightarrow> string \<Rightarrow> dbus_msg \<Rightarrow> 'w pcl \<Rightarrow> (DBusHandlerResult \<times> 'w pcl) option" where
  "dispatch_message usePas path m s =
     (let (r, s) = (if path = gDbusLcConsPath then checkLifecycleMsg m s
                    else if usePas \<and> path = gPersAdminConsumerPath then checkPersAdminMsg m s
                    else (DBUS_HANDLER_RESULT_NOT_YET_HANDLED, s))
      in if r = DBUS_HANDLER_RESULT_HANDLED then Some (r, s) else handleObjectPathMessageFallback m s)"

section \<open>Commands\<close>

text \<open>Reading a parameter that the sender has not set is undefined, as is a string that fills all the bytes
  that were read.\<close>

definition param :: "MainLoopData \<Rightarrow> nat \<Rightarrow> u32 option" where
  "param d i = (if i < length (params d) then Some (params d ! i) else None)"

definition pipe_string :: "MainLoopData \<Rightarrow> string option" where
  "pipe_string d = (if length (mstring d) < wire_string_size then Some (mstring d) else None)"

definition four_params :: "MainLoopData \<Rightarrow> (u32 \<times> u32 \<times> u32 \<times> u32) option" where
  "four_params d = do {
     a \<leftarrow> param d 0; b \<leftarrow> param d 1; c \<leftarrow> param d 2; e \<leftarrow> param d 3;
     Some (a, b, c, e)
   }"

text \<open>The switch of the main loop. The result tells whether the loop goes on.\<close>

definition process_command ::
  "('w, 'e) perscom_scheme \<Rightarrow> string \<Rightarrow> MainLoopData \<Rightarrow> 'w pcl \<Rightarrow> (bool \<times> 'w pcl) option" where
  "process_command E me d s =
     (case cmd d of
        CMD_PAS_BLOCK_AND_WRITE_BACK \<Rightarrow> do {
          p0 \<leftarrow> param d 0; p1 \<leftarrow> param d 1;
          Some (True, process_send_pas_request p1 p0 (process_block_and_write_data_back p1 p0 s))
        }
      | CMD_LC_PREPARE_SHUTDOWN \<Rightarrow> do {
          p0 \<leftarrow> param d 0; p1 \<leftarrow> param d 1;
          Some (True, process_send_lifecycle_request p1 p0 (process_prepare_shutdown E Shutdown_Full s))
        }
      | CMD_SEND_NOTIFY_SIGNAL \<Rightarrow> do {
          (lid, user, seat, reason) \<leftarrow> four_params d;
          key \<leftarrow> pipe_string d;
          Some (True, process_send_notification_signal lid user seat reason key s)
        }
      | CMD_REG_NOTIFY_SIGNAL \<Rightarrow> do {
          (lid, user, seat, pol) \<leftarrow> four_params d;
          key \<leftarrow> pipe_string d;
          Some (True, process_reg_notification_signal lid user seat pol key s)
        }
      | CMD_SEND_PAS_REGISTER \<Rightarrow> do {
          p0 \<leftarrow> param d 0; p1 \<leftarrow> param d 1;
          s \<leftarrow> process_send_pas_register me p0 p1 s;
          Some (True, s)
        }
      | CMD_SEND_LC_REGISTER \<Rightarrow> do {
          p0 \<leftarrow> param d 0; p1 \<leftarrow> param d 1;
          s \<leftarrow> process_send_lifecycle_register me p0 p1 s;
          Some (True, s)
        }
      | CMD_QUIT \<Rightarrow> Some (False, s)
      | CMD_NONE \<Rightarrow> Some (True, s))"

text \<open>Reading one command and carrying it out; with an empty pipe the read blocks and nothing happens.\<close>

definition mainloop_command ::
  "('w, 'e) perscom_scheme \<Rightarrow> string \<Rightarrow> 'w pcl \<Rightarrow> (bool \<times> 'w pcl) option" where
  "mainloop_command E me s =
     (case pipe s of
        [] \<Rightarrow> Some (True, s)
      | d # ds \<Rightarrow> process_command E me d (s\<lparr>pipe := ds\<rparr>))"

text \<open>Carrying out commands until the loop quits or \<open>n\<close> of them are done.\<close>

fun mainloop_run :: "('w, 'e) perscom_scheme \<Rightarrow> string \<Rightarrow> nat \<Rightarrow> 'w pcl \<Rightarrow> (bool \<times> 'w pcl) option" where
  "mainloop_run E me 0 s = Some (True, s)"
| "mainloop_run E me (Suc n) s = do {
     (goes_on, s) \<leftarrow> mainloop_command E me s;
     if goes_on then mainloop_run E me n s else Some (False, s)
   }"

section \<open>Setting up\<close>

text \<open>What the system answers: \<open>bus_ok\<close> for opening and registering the connection (only asked with an
  address from the environment), \<open>thread_rc\<close> for creating the thread.\<close>

definition setup_dbus_mainloop :: "bool \<Rightarrow> bool \<Rightarrow> int \<Rightarrow> int \<Rightarrow> 'w pcl \<Rightarrow> int \<times> 'w pcl" where
  "setup_dbus_mainloop has_address bus_ok thread_rc pipefd s =
     (if has_address \<and> \<not> bus_ok then (- 1, s)
      else if thread_rc \<noteq> 0 then (- 1, s)
      else (0, s\<lparr>gPollInfo := poll_init pipefd, pipe := [],
             bus := bus s @ [Add_match (''type='' @ quoted ''signal'' @ '',interface='' @ quoted ''org.genivi.persistence.admin'' @
               '',member='' @ quoted ''PersistenceModeChanged'' @ '',path='' @ quoted ''/org/genivi/persistence/admin'')]\<rparr>))"

end
