(* ===== verification/Lifecycle.thy ===== *)
theory Lifecycle
  imports File_Api Dbus_Service
begin

text \<open>
  Initialisation, deinitialisation and the shutdown states of the library
  (\<open>src/persistence_client_library.c\<close>).

  What the environment decides is the record \<open>init_env\<close>: the environment variable with the data size, the
  configuration file of the plugins, whether the blacklist can be mapped and the memory for it, the answers
  of the bus and the replies of the administration service.
\<close>

definition PCL_SHUTDOWN_TYPE_NONE :: int where [simp]: "PCL_SHUTDOWN_TYPE_NONE = 0"
definition PCL_SHUTDOWN_CANCEL :: int where [simp]: "PCL_SHUTDOWN_CANCEL = 0"
definition PCL_SHUTDOWN :: int where [simp]: "PCL_SHUTDOWN = 1"

record init_env =
  ie_usePas :: bool
  ie_dataSize :: "string option"
  ie_mapped :: bool
  ie_mem :: nat
  ie_address :: bool
  ie_bus :: bool
  ie_thread :: int
  ie_pipefd :: int
  ie_plugins :: mapped_file
  ie_reply :: int

text \<open>The callback that is passed to the plugins.\<close>

definition customAsyncInitClbk :: nat where
  "customAsyncInitClbk = 1"

text \<open>\<open>sprintf\<close> does not check the size of the buffer.\<close>

definition blacklist_path :: "'c pers_consts_scheme \<Rightarrow> string \<Rightarrow> string option" where
  "blacklist_path c appName = strncpy_path c (CACHEPREFIX c @ appName @ ''/'' @ gBackupFilename)"

definition init_services :: "init_env \<Rightarrow> int \<Rightarrow> 'w pcl \<Rightarrow> int \<times> 'w pcl" where
  "init_services V shutdownMode s =
     (let (r, s) = (if gShutdownMode s \<noteq> PCL_SHUTDOWN_TYPE_NONE then register_lifecycle shutdownMode s else (0, s))
      in if r = - 1 then (EPERS_REGISTER_LIFECYCLE, s)
         else if ie_usePas V then
           let (r, s) = register_pers_admin_service (ie_reply V) s
           in if r = - 1 then (EPERS_REGISTER_ADMIN, s) else (1, s)
         else (1, s))"

definition init_finish ::
  "('w, 'e) perscom_scheme \<Rightarrow> init_env \<Rightarrow> string \<Rightarrow> 'w pcl \<Rightarrow> (int \<times> 'w pcl) option" where
  "init_finish E V appName s = do {
     (_, s) \<leftarrow> load_custom_plugins E (ie_plugins V) (Some customAsyncInitClbk) s;
     let s = pers_unlock_access (s\<lparr>hnd := init_key_handle_array (hnd s)\<rparr>);
     Some (1, s\<lparr>gAppId := take (MaxAppNameLen E - 1) appName, gPclInitialized := gPclInitialized s + 1\<rparr>)
   }"

definition pclInitLibrary ::
  "('w, 'e) perscom_scheme \<Rightarrow> init_env \<Rightarrow> string \<Rightarrow> int \<Rightarrow> 'w pcl \<Rightarrow> (int \<times> 'w pcl) option" where
  "pclInitLibrary E V appName shutdownMode s =
     (if gPclInitialized s = word_of_int PCLnotInitialized then do {
        let s = s\<lparr>gShutdownMode := shutdownMode\<rparr>;
        let s = (case ie_dataSize V of Some v \<Rightarrow> s\<lparr>gMaxKeyValDataSize := atoi v\<rparr> | None \<Rightarrow> s);
        bl \<leftarrow> blacklist_path E appName;
        (_, s) \<leftarrow> readBlacklistConfigFile (Some bl) (ie_mapped V) (ie_mem V) s;
        let (r, s) = setup_dbus_mainloop (ie_address V) (ie_bus V) (ie_thread V) (ie_pipefd V) s;
        if r = - 1 then Some (EPERS_DBUS_MAINLOOP, s)
        else do {
          let (r, s) = init_services V shutdownMode s;
          if r < 0 then Some (r, s) else init_finish E V appName s
        }
      }
      else Some (1, s\<lparr>gPclInitialized := gPclInitialized s + 1\<rparr>))"

text \<open>The last deinitialisation waits for the main loop to end; what is in the pipe by then is carried out
  by \<open>mainloop_run\<close>.\<close>

definition pclDeinitLibrary ::
  "('w, 'e) perscom_scheme \<Rightarrow> init_env \<Rightarrow> 'w pcl \<Rightarrow> int \<times> 'w pcl" where
  "pclDeinitLibrary E V s =
     (if gPclInitialized s = word_of_int PCLinitialized then
        let (rval, s) = (if gShutdownMode s \<noteq> PCL_SHUTDOWN_TYPE_NONE
                         then unregister_lifecycle (gShutdownMode s) s else (1, s));
            (rval, s) = (if ie_usePas V then unregister_pers_admin_service (ie_reply V) s else (rval, s));
            s = unload_plugins E s;
            s = process_prepare_shutdown E Shutdown_Full s;
            (_, s) = deliverToMainloop_NM \<lparr>cmd = CMD_QUIT, params = [], mstring = []\<rparr> s
        in (rval, s\<lparr>gPclInitialized := word_of_int PCLnotInitialized\<rparr>)
      else if gPclInitialized s > word_of_int PCLinitialized then
        (1, s\<lparr>gPclInitialized := gPclInitialized s - 1\<rparr>)
      else (EPERS_NOT_INITIALIZED, s))"

definition pclLifecycleSet :: "('w, 'e) perscom_scheme \<Rightarrow> int \<Rightarrow> 'w pcl \<Rightarrow> int \<times> 'w pcl" where
  "pclLifecycleSet E shutdown s =
     (if gShutdownMode s = PCL_SHUTDOWN_TYPE_NONE then
        if shutdown = PCL_SHUTDOWN then (0, process_prepare_shutdown E Shutdown_Partial s)
        else if shutdown = PCL_SHUTDOWN_CANCEL then
          if gCancelCounter s < Shutdown_MaxCount then (0, pers_unlock_access s)
          else (EPERS_SHUTDOWN_MAX_CANCEL, s)
        else (EPERS_COMMON, s)
      else (EPERS_SHUTDOWN_NO_PERMIT, s))"

end
