(* ===== verification/Main_Loop.thy ===== *)
theory Main_Loop
  imports Dbus_Service
begin

text \<open>
  The loop of the D-Bus thread (\<open>mainLoop\<close> in \<open>src/persistence_client_library_dbus_service.c\<close>) and what it
  promises: the commands written to the pipe are carried out in order, \<open>CMD_QUIT\<close> ends the loop, and a
  notification that one process sends arrives at the callback of another.

  A round of the loop is what the system answers in it: the messages that libdbus dispatches, the result
  of \<open>poll\<close>, the events of the entries of the poll table, and what handling a watch or timeout does to the
  table.
\<close>

section \<open>One round\<close>

record loop_round =
  lr_messages :: "(string \<times> dbus_msg) list"
  lr_poll :: int
  lr_revents :: "nat \<Rightarrow> u32"
  lr_watch :: "nat \<Rightarrow> tPollInfo \<Rightarrow> bool \<times> tPollInfo"
  lr_timeout :: "nat \<Rightarrow> tPollInfo \<Rightarrow> tPollInfo"

fun dispatch_all :: "bool \<Rightarrow> (string \<times> dbus_msg) list \<Rightarrow> 'w pcl \<Rightarrow> 'w pcl option" where
  "dispatch_all usePas [] s = Some s"
| "dispatch_all usePas ((path, m) # ms) s = do {
     (_, s) \<leftarrow> dispatch_message usePas path m s;
     dispatch_all usePas ms s
   }"

text \<open>One entry of the table; the result is \<open>bContinue\<close> and \<open>bQuit\<close> after it.\<close>

definition loop_entry ::
  "('w, 'e) perscom_scheme \<Rightarrow> string \<Rightarrow> int \<Rightarrow> loop_round \<Rightarrow> nat \<Rightarrow> bool \<Rightarrow> 'w pcl \<Rightarrow> ((bool \<times> bool) \<times> 'w pcl) option" where
  "loop_entry E me pipefd r i bContinue s =
     (if lr_revents r i \<noteq> 0 then do {
        ob \<leftarrow> rd poll_size (objects (gPollInfo s)) (int i);
        q \<leftarrow> rd poll_size (pfds (gPollInfo s)) (int i);
        if objtype ob = OT_TIMEOUT then Some ((True, False), s\<lparr>gPollInfo := lr_timeout r i (gPollInfo s)\<rparr>)
        else if pfd q = pipefd then
          if lr_revents r i AND POLLIN \<noteq> 0 then do {
            (goes_on, s) \<leftarrow> mainloop_command E me s;
            Some ((goes_on, \<not> goes_on), s)
          }
          else Some ((bContinue, False), s)
        else let (c, p) = lr_watch r i (gPollInfo s) in Some ((c, False), s\<lparr>gPollInfo := p\<rparr>)
      }
      else Some ((bContinue, False), s))"

text \<open>The loop over the entries in use. The table has ten: with eleven steps the loop has either ended or
  left the table, which is undefined.\<close>

fun loop_entries ::
  "nat \<Rightarrow> ('w, 'e) perscom_scheme \<Rightarrow> string \<Rightarrow> int \<Rightarrow> loop_round \<Rightarrow> nat \<Rightarrow> bool \<Rightarrow> 'w pcl \<Rightarrow> (bool \<times> 'w pcl) option" where
  "loop_entries 0 E me pipefd r i bContinue s = None"
| "loop_entries (Suc k) E me pipefd r i bContinue s =
     (if nfds (gPollInfo s) > int i then do {
        ((bContinue, bQuit), s) \<leftarrow> loop_entry E me pipefd r i bContinue s;
        if bQuit then Some (bContinue, s) else loop_entries k E me pipefd r (i + 1) bContinue s
      }
      else Some (bContinue, s))"

definition loop_round_step ::
  "('w, 'e) perscom_scheme \<Rightarrow> bool \<Rightarrow> string \<Rightarrow> int \<Rightarrow> loop_round \<Rightarrow> 'w pcl \<Rightarrow> (bool \<times> 'w pcl) option" where
  "loop_round_step E usePas me pipefd r s = do {
     s \<leftarrow> dispatch_all usePas (lr_messages r) s;
     if lr_poll r \<le> 0 then Some (False, s)
     else loop_entries (poll_size + 1) E me pipefd r 0 False s
   }"

text \<open>The loop: it ends with the first round that leaves \<open>bContinue\<close> at 0. With no more answers from the
  system it still runs.\<close>

fun mainLoop ::
  "('w, 'e) perscom_scheme \<Rightarrow> bool \<Rightarrow> string \<Rightarrow> int \<Rightarrow> loop_round list \<Rightarrow> 'w pcl \<Rightarrow> (bool \<times> 'w pcl) option" where
  "mainLoop E usePas me pipefd [] s = Some (True, s)"
| "mainLoop E usePas me pipefd (r # rs) s = do {
     (bContinue, s) \<leftarrow> loop_round_step E usePas me pipefd r s;
     if bContinue then mainLoop E usePas me pipefd rs s else Some (False, s)
   }"

section \<open>Rounds in which only the pipe matters\<close>

text \<open>The pipe is readable; of the other entries some may have events, which libdbus handles without
  touching the table.\<close>

definition pipe_round :: "loop_round \<Rightarrow> bool" where
  "pipe_round r \<longleftrightarrow> lr_messages r = [] \<and> 0 < lr_poll r \<and> lr_revents r 0 AND POLLIN \<noteq> 0 \<and>
     (\<forall>i p. lr_watch r i p = (True, p)) \<and> (\<forall>i p. lr_timeout r i p = p)"

definition table_ok :: "int \<Rightarrow> tPollInfo \<Rightarrow> bool" where
  "table_ok pipefd p \<longleftrightarrow> poll_inv pipefd p \<and> (\<forall>i. 0 < i \<longrightarrow> int i < nfds p \<longrightarrow> pfd (pfds p i) \<noteq> pipefd)"

lemma process_command_poll:
  "process_command E me d s = Some (g, s') \<Longrightarrow> gPollInfo s' = gPollInfo s"
proof -
  have sh: "gPollInfo (process_prepare_shutdown E c s) = gPollInfo s" for c s
  proof -
    have f1: "gPollInfo (shutdown_files c s) = gPollInfo s" for s
      unfolding shutdown_files_def by (rule fold_keeps) (simp_all add: shutdown_fd_def)
    have f2: "gPollInfo (pers_rct_close_all E s) = gPollInfo s" for s
      unfolding pers_rct_close_all_def
      by (rule fold_keeps) (auto simp: close_rct_def invalidate_resource_cfg_table_def split: option.splits Option.bind_splits)
    have f3: "gPollInfo (database_close_all E s) = gPollInfo s" for s
      unfolding database_close_all_def
      by (rule fold_keeps, rule fold_keeps) (auto simp: close_database_def Let_def split: prod.splits)
    have f4: "gPollInfo (unload_plugins E s) = gPollInfo s" for s
      unfolding unload_plugins_def
      by (rule fold_keeps) (auto simp: unload_plugin_def Let_def split: option.splits prod.splits)
    show ?thesis by (simp add: process_prepare_shutdown_def Let_def f1 f2 f3 f4 pers_lock_access_def)
  qed
  assume "process_command E me d s = Some (g, s')"
  then show ?thesis
    by (cases "cmd d")
      (auto simp: process_command_def process_send_pas_request_def process_block_and_write_data_back_def pers_lock_access_def
        process_send_lifecycle_request_def sh process_send_notification_signal_def process_reg_notification_signal_def
        process_send_pas_register_def process_send_lifecycle_register_def dbus_send_def Let_def
        split: Option.bind_splits option.splits if_splits)
qed

lemma mainloop_command_poll: "mainloop_command E me s = Some (g, s') \<Longrightarrow> gPollInfo s' = gPollInfo s"
  by (cases "pipe s") (auto simp: mainloop_command_def dest: process_command_poll)

text \<open>Behind the pipe's entry nothing happens that matters.\<close>

lemma loop_entries_rest:
  assumes "pipe_round r" and "table_ok pipefd (gPollInfo s)" and "0 < i" and "nat (nfds (gPollInfo s)) < i + k" and "0 < k"
  shows "loop_entries k E me pipefd r i True s = Some (True, s)"
  using assms(3-5)
proof (induction k arbitrary: i)
  case 0
  then show ?case by simp
next
  case (Suc k)
  show ?case
  proof (cases "nfds (gPollInfo s) > int i")
    case True
    then have k: "0 < k" using Suc.prems(2) by (cases k) auto
    have "i < poll_size" using True assms(2) by (simp add: table_ok_def poll_inv_def)
    then have "loop_entry E me pipefd r i True s = Some ((True, False), s)"
      using assms(1,2) Suc.prems(1) True by (simp add: loop_entry_def pipe_round_def table_ok_def rd_in)
    then show ?thesis using True Suc.IH [of "i + 1"] Suc.prems k by simp
  qed simp
qed

lemma pipe_round_step:
  assumes r: "pipe_round r" and t: "table_ok pipefd (gPollInfo s)"
  shows "loop_round_step E usePas me pipefd r s = mainloop_command E me s"
proof -
  have n: "1 \<le> nfds (gPollInfo s)" "nfds (gPollInfo s) \<le> 10" "objtype (objects (gPollInfo s) 0) = OT_NONE"
      "pfd (pfds (gPollInfo s) 0) = pipefd"
    using t by (simp_all add: table_ok_def poll_inv_def poll_entry_def)
  have "lr_revents r 0 \<noteq> 0" using r by (auto simp: pipe_round_def)
  then have e: "loop_entry E me pipefd r 0 False s =
      Option.bind (mainloop_command E me s) (\<lambda>(g, s). Some ((g, \<not> g), s))"
    using r n(3,4) by (simp add: loop_entry_def pipe_round_def rd_def)
  have eleven: "poll_size + 1 = Suc 10" by simp
  have "loop_entries (poll_size + 1) E me pipefd r 0 False s = mainloop_command E me s"
  proof (cases "mainloop_command E me s")
    case None
    then show ?thesis using e n(1) unfolding eleven loop_entries.simps by simp
  next
    case (Some gs)
    obtain g s1 where gs: "gs = (g, s1)" by (cases gs)
    have p1: "gPollInfo s1 = gPollInfo s" using Some gs mainloop_command_poll by blast
    have "loop_entries 10 E me pipefd r 1 True s1 = Some (True, s1)"
      by (rule loop_entries_rest) (use r t p1 n in simp_all)
    moreover have "loop_entries (poll_size + 1) E me pipefd r 0 False s
       = (if g then loop_entries 10 E me pipefd r 1 g s1 else Some (g, s1))"
      unfolding eleven loop_entries.simps using Some gs n(1) e by simp
    ultimately show ?thesis using Some gs by (cases g) simp_all
  qed
  then show ?thesis using r by (simp add: loop_round_step_def pipe_round_def)
qed

section \<open>Commands in order\<close>

text \<open>A command as the senders build it: the parameters are set, the string is shorter than what the pipe carries.\<close>

definition command_ok :: "MainLoopData \<Rightarrow> bool" where
  "command_ok d \<longleftrightarrow>
     (case cmd d of
        CMD_NONE \<Rightarrow> True
      | CMD_QUIT \<Rightarrow> True
      | CMD_SEND_NOTIFY_SIGNAL \<Rightarrow> 4 \<le> length (params d) \<and> length (mstring d) < wire_string_size
      | CMD_REG_NOTIFY_SIGNAL \<Rightarrow> 4 \<le> length (params d) \<and> length (mstring d) < wire_string_size
      | CMD_SEND_PAS_REGISTER \<Rightarrow> 2 \<le> length (params d) \<and> params d ! 0 \<in> {0, 1}
      | CMD_SEND_LC_REGISTER \<Rightarrow> 2 \<le> length (params d) \<and> params d ! 0 \<in> {0, 1}
      | _ \<Rightarrow> 2 \<le> length (params d))"

lemma process_command_ok:
  "command_ok d \<Longrightarrow> \<exists>s'. process_command E me d s = Some (cmd d \<noteq> CMD_QUIT, s')"
  by (cases "cmd d")
    (auto simp: command_ok_def process_command_def param_def four_params_def pipe_string_def
      process_send_pas_register_def process_send_lifecycle_register_def)

text \<open>The commands neither read nor write the pipe.\<close>

lemma fold_commute: "(\<And>y s. f y (u s) = u (f y s)) \<Longrightarrow> fold f ys (u s) = u (fold f ys s)"
  by (induction ys arbitrary: s) simp_all

lemma prepare_shutdown_pipe:
  "process_prepare_shutdown E c (s\<lparr>pipe := x\<rparr>) = process_prepare_shutdown E c s\<lparr>pipe := x\<rparr>"
proof -
  have f1: "shutdown_files c (s\<lparr>pipe := x\<rparr>) = shutdown_files c s\<lparr>pipe := x\<rparr>" for s
    unfolding shutdown_files_def by (rule fold_commute) (simp add: shutdown_fd_def)
  have f2: "pers_rct_close_all E (s\<lparr>pipe := x\<rparr>) = pers_rct_close_all E s\<lparr>pipe := x\<rparr>" for s
    unfolding pers_rct_close_all_def
    by (rule fold_commute) (auto simp: close_rct_def get_resource_cfg_table_by_idx_def invalidate_resource_cfg_table_def
      split: option.split Option.bind_split)
  have f3: "database_close_all E (s\<lparr>pipe := x\<rparr>) = database_close_all E s\<lparr>pipe := x\<rparr>" for s
    unfolding database_close_all_def
    by (rule fold_commute, rule fold_commute) (auto simp: close_database_def Let_def split: prod.splits)
  have f4: "unload_plugins E (s\<lparr>pipe := x\<rparr>) = unload_plugins E s\<lparr>pipe := x\<rparr>" for s
    unfolding unload_plugins_def
    by (rule fold_commute) (auto simp: unload_plugin_def Let_def split: option.split prod.split)
  have "pers_lock_access (s\<lparr>pipe := x\<rparr>) = pers_lock_access s\<lparr>pipe := x\<rparr>" for s :: "'a pcl"
    by (simp add: pers_lock_access_def)
  moreover have "unload_plugins E (t\<lparr>pipe := x, hnd := h\<rparr>) = unload_plugins E (t\<lparr>hnd := h\<rparr>)\<lparr>pipe := x\<rparr>" for t h
  proof -
    have "t\<lparr>pipe := x, hnd := h\<rparr> = t\<lparr>hnd := h\<rparr>\<lparr>pipe := x\<rparr>" by simp
    then show ?thesis using f4 [of "t\<lparr>hnd := h\<rparr>"] by (simp only:)
  qed
  ultimately show ?thesis by (simp add: process_prepare_shutdown_def Let_def f1 f2 f3)
qed

lemma process_command_pipe:
  "process_command E me d (s\<lparr>pipe := x\<rparr>) = map_option (\<lambda>(g, t). (g, t\<lparr>pipe := x\<rparr>)) (process_command E me d s)"
  by (cases "cmd d")
    (auto simp: process_command_def process_send_pas_request_def process_block_and_write_data_back_def pers_lock_access_def
      process_send_lifecycle_request_def prepare_shutdown_pipe process_send_notification_signal_def
      process_reg_notification_signal_def process_send_pas_register_def process_send_lifecycle_register_def
      dbus_send_def Let_def split: Option.bind_split option.split)

text \<open>The specification: the commands one after the other, without pipe or loop.\<close>

fun carry_out :: "('w, 'e) perscom_scheme \<Rightarrow> string \<Rightarrow> MainLoopData list \<Rightarrow> 'w pcl \<Rightarrow> 'w pcl option" where
  "carry_out E me [] s = Some s"
| "carry_out E me (d # ds) s = Option.bind (process_command E me d s) (\<lambda>(_, s). carry_out E me ds s)"

lemma carry_out_pipe:
  "carry_out E me ds (s\<lparr>pipe := x\<rparr>) = map_option (\<lambda>t. t\<lparr>pipe := x\<rparr>) (carry_out E me ds s)"
proof (induction ds arbitrary: s)
  case Nil
  then show ?case by simp
next
  case (Cons d ds)
  then show ?case by (cases "process_command E me d s") (auto simp: process_command_pipe)
qed

lemma mainLoop_pipe:
  assumes "\<forall>r \<in> set rs. pipe_round r" and "table_ok pipefd (gPollInfo s)" and "pipe s = ds @ q # rest"
    and "\<forall>d \<in> set ds. command_ok d \<and> cmd d \<noteq> CMD_QUIT" and "cmd q = CMD_QUIT" and "length ds < length rs"
  shows "\<exists>t. carry_out E me ds s = Some t \<and> mainLoop E usePas me pipefd rs s = Some (False, t\<lparr>pipe := rest\<rparr>)"
  using assms
proof (induction ds arbitrary: rs s)
  case Nil
  then obtain r rs' where rs: "rs = r # rs'" by (cases rs) auto
  have "loop_round_step E usePas me pipefd r s = Some (False, s\<lparr>pipe := rest\<rparr>)"
    using pipe_round_step [of r pipefd s E usePas me] Nil.prems rs
    by (simp add: mainloop_command_def process_command_def)
  then show ?case using rs by simp
next
  case (Cons d ds)
  obtain r rs' where rs: "rs = r # rs'" "length ds < length rs'" using Cons.prems(6) by (cases rs) auto
  obtain t1 where t1: "process_command E me d s = Some (True, t1)"
    using process_command_ok [of d E me s] Cons.prems(4) by auto
  let ?s = "t1\<lparr>pipe := ds @ q # rest\<rparr>"
  have "loop_round_step E usePas me pipefd r s = Some (True, ?s)"
    using pipe_round_step [of r pipefd s E usePas me] Cons.prems(1-3) rs(1) t1
    by (simp add: mainloop_command_def process_command_pipe)
  moreover have "table_ok pipefd (gPollInfo ?s)"
    using process_command_poll [OF t1] Cons.prems(2) by simp
  then obtain u where u: "carry_out E me ds ?s = Some u" "mainLoop E usePas me pipefd rs' ?s = Some (False, u\<lparr>pipe := rest\<rparr>)"
    using Cons.IH [of rs' ?s] Cons.prems rs by auto
  moreover obtain t where "carry_out E me ds t1 = Some t" "u = t\<lparr>pipe := ds @ q # rest\<rparr>"
    using u(1) carry_out_pipe [where s = t1 and ds = ds and E = E and me = me]
    by (auto split: option.splits)
  ultimately show ?case using rs(1) t1 by simp
qed

section \<open>Properties\<close>

text \<open>C6: the main loop ends. When the pipe holds commands as the senders build them, then \<open>CMD_QUIT\<close>, then
  anything, and in every round the pipe is reported readable and libdbus handles its own events, the
  loop has ended after as many rounds as there are commands before the quit, plus one; it has carried
  out exactly those commands, in the order in which they were written, and has left what follows the
  quit in the pipe.\<close>

theorem main_loop_ends:
  assumes "\<forall>r \<in> set rs. pipe_round r" and "table_ok pipefd (gPollInfo s)" and "pipe s = ds @ q # rest"
    and "\<forall>d \<in> set ds. command_ok d \<and> cmd d \<noteq> CMD_QUIT" and "cmd q = CMD_QUIT" and "length ds < length rs"
  shows "\<exists>t. carry_out E me ds s = Some t \<and> mainLoop E usePas me pipefd rs s = Some (False, t\<lparr>pipe := rest\<rparr>)"
  using assms by (rule mainLoop_pipe)

definition quiet_round :: loop_round where
  "quiet_round = \<lparr>lr_messages = [], lr_poll = 1, lr_revents = (\<lambda>_. 1), lr_watch = (\<lambda>_ p. (True, p)), lr_timeout = (\<lambda>_ p. p)\<rparr>"

definition loop_start :: "mem_world pcl" where
  "loop_start = (pcl_start mem_env mem_start)\<lparr>gPollInfo := poll_init 7,
     pipe := [\<lparr>cmd = CMD_SEND_LC_REGISTER, params = [1, 1], mstring = []\<rparr>, \<lparr>cmd = CMD_QUIT, params = [], mstring = []\<rparr>]\<rparr>"

theorem main_loop_ends_witness:
  "\<exists>t. mainLoop mem_env True ''1.7'' 7 [quiet_round, quiet_round] loop_start = Some (False, t) \<and> pipe t = []"
proof -
  have "\<forall>r \<in> set [quiet_round, quiet_round]. pipe_round r" by (simp add: quiet_round_def pipe_round_def)
  moreover have "table_ok 7 (gPollInfo loop_start)"
    by (simp add: loop_start_def table_ok_def poll_inv_def poll_init_def poll_zero_def poll_entry_def)
  moreover have "pipe loop_start = [\<lparr>cmd = CMD_SEND_LC_REGISTER, params = [1, 1], mstring = []\<rparr>] @
      \<lparr>cmd = CMD_QUIT, params = [], mstring = []\<rparr> # []" by (simp add: loop_start_def)
  ultimately show ?thesis
    using main_loop_ends [of "[quiet_round, quiet_round]" 7 loop_start _ _ "[]" mem_env "''1.7''" True] 
    by (fastforce simp: command_ok_def)
qed

end
