(* ===== verification/Backup_Create.thy ===== *)
theory Backup_Create
  imports Backup Pers_Common
begin

text \<open>
  What \<open>pclCreateBackup\<close> leaves behind, and that the check at the next open brings a damaged file back:
  lemmas on the folders and files that \<open>pclCreateFile\<close> creates, on writing a whole file, and the properties
  of the backup component.
\<close>

section \<open>Paths and their components\<close>

definition comp_ok :: "string \<Rightarrow> bool" where
  "comp_ok t \<longleftrightarrow> t \<noteq> [] \<and> CHR ''/'' \<notin> set t"

lemma strtok_comp:
  "\<forall>c \<in> set t. \<not> sep c \<Longrightarrow>
   strtok_all sep cur (t @ s) = strtok_all sep (cur @ t) s"
  by (induction t arbitrary: cur) auto

lemma strtok_path_of:
  assumes "\<forall>t \<in> set ts. comp_ok t" and "cur = [] \<or> comp_ok cur"
  shows "strtok_all (\<lambda>c. c = CHR ''/'') cur (path_of ts) = (if cur = [] then ts else cur # ts)"
  using assms
proof (induction ts arbitrary: cur)
  case Nil
  then show ?case by (simp add: path_of_def)
next
  case (Cons t ts)
  have t: "comp_ok t" "\<forall>c \<in> set t. c \<noteq> CHR ''/''" using Cons.prems by (auto simp: comp_ok_def)
  have "path_of (t # ts) = CHR ''/'' # t @ path_of ts" by (simp add: path_of_def)
  moreover have "strtok_all (\<lambda>c. c = CHR ''/'') [] (t @ path_of ts) = strtok_all (\<lambda>c. c = CHR ''/'') t (path_of ts)"
    using strtok_comp [of t "\<lambda>c. c = CHR ''/''" "[]"] t by (simp add: comp_ok_def)
  moreover have "strtok_all (\<lambda>c. c = CHR ''/'') t (path_of ts) = t # ts"
    using Cons.IH [of t] Cons.prems t(1) by (simp add: comp_ok_def)
  ultimately show ?case by simp
qed

lemma resolve_path_of: "\<forall>t \<in> set ts. comp_ok t \<Longrightarrow> resolve (path_of ts) = ts"
  using strtok_path_of [of ts "[]"] by (simp add: resolve_def)

lemma strtok_comp_ok:
  "CHR ''/'' \<notin> set cur \<Longrightarrow> t \<in> set (strtok_all (\<lambda>c. c = CHR ''/'') cur s) \<Longrightarrow> comp_ok t"
  by (induction "\<lambda>c. c = CHR ''/''" cur s rule: strtok_all.induct) (auto simp: comp_ok_def split: if_splits)

lemma resolve_comp_ok: "t \<in> set (resolve p) \<Longrightarrow> comp_ok t"
  by (rule strtok_comp_ok [of "[]" t p]) (simp_all add: resolve_def)

lemma strtok_cong:
  "\<forall>c \<in> set s. sep c = sep' c \<Longrightarrow> strtok_all sep cur s = strtok_all sep' cur s"
  by (induction sep cur s rule: strtok_all.induct) auto

lemma strtok_newline:
  "CHR 0x0A \<notin> set p \<Longrightarrow> strtok_all (\<lambda>ch. ch = CHR ''/'' \<or> ch = CHR 0x0A) [] p = resolve p"
  unfolding resolve_def by (rule strtok_cong) auto

lemma length_path_of: "length (path_of ts) = sum_list (map (\<lambda>t. Suc (length t)) ts)"
  by (simp add: path_of_def length_concat comp_def)

lemma strtok_length:
  "sum_list (map (\<lambda>t. Suc (length t)) (strtok_all sep cur s)) \<le> length s + Suc (length cur)"
  by (induction sep cur s rule: strtok_all.induct) auto

section \<open>Creating a file with its folders\<close>

text \<open>The names after the folders \<open>pre @ take k ts\<close> have been created.\<close>

definition with_folders :: "string list \<Rightarrow> string list \<Rightarrow> (string list \<Rightarrow> fs_node option) \<Rightarrow> string list \<Rightarrow> fs_node option" where
  "with_folders pre ts names r = (if \<exists>k. k \<le> length ts \<and> r = pre @ take k ts then Some Dir else names r)"

lemma create_folders_spec:
  assumes "\<forall>t \<in> set (pre @ ts). comp_ok t" and "fs_names f pre = Some Dir" and "fs_denied f = (\<lambda>_ _. False)"
    and "\<forall>k n. k \<le> length ts \<longrightarrow> fs_names f (pre @ take k ts) \<noteq> Some (Reg n)"
  shows "create_folders (path_of pre) ts f
    = (path_of (pre @ ts), f\<lparr>fs_names := with_folders pre ts (fs_names f)\<rparr>)"
  using assms
proof (induction ts arbitrary: pre f)
  case Nil
  have "with_folders pre [] (fs_names f) = fs_names f"
    using Nil.prems(2) by (auto simp: with_folders_def fun_eq_iff)
  then show ?case by simp
next
  case (Cons t ts)
  let ?p = "path_of pre @ ''/'' @ t"
  let ?g = "f\<lparr>fs_names := (fs_names f)(pre @ [t] \<mapsto> Dir)\<rparr>"
  have p: "?p = path_of (pre @ [t])" by (simp add: path_of_def)
  have r: "resolve ?p = pre @ [t]" unfolding p by (rule resolve_path_of) (use Cons.prems(1) in auto)
  have nr: "\<forall>n. fs_names f (pre @ [t]) \<noteq> Some (Reg n)"
    using spec [OF Cons.prems(4), of 1] by simp
  have m: "fs_mkdir ?p f = ?g"
  proof (cases "fs_names f (pre @ [t])")
    case None
    then show ?thesis using r Cons.prems(2,3) by (simp add: fs_mkdir_def may_add_def)
  next
    case (Some x)
    then have "x = Dir" using nr by (cases x) auto
    then have "(fs_names f)(pre @ [t] \<mapsto> Dir) = fs_names f" using Some by (simp add: fun_upd_idem)
    then show ?thesis using r Some by (simp add: fs_mkdir_def)
  qed
  have "create_folders (path_of (pre @ [t])) ts ?g
      = (path_of ((pre @ [t]) @ ts), ?g\<lparr>fs_names := with_folders (pre @ [t]) ts (fs_names ?g)\<rparr>)"
  proof (rule Cons.IH)
    show "\<forall>k n. k \<le> length ts \<longrightarrow> fs_names ?g ((pre @ [t]) @ take k ts) \<noteq> Some (Reg n)"
    proof (intro allI impI)
      fix k n
      assume "k \<le> length ts"
      then show "fs_names ?g ((pre @ [t]) @ take k ts) \<noteq> Some (Reg n)"
        using spec [OF Cons.prems(4), of "Suc k"] by auto
    qed
  qed (use Cons.prems in auto)
  moreover have "with_folders (pre @ [t]) ts (fs_names ?g) = with_folders pre (t # ts) (fs_names f)"
  proof
    fix r
    have "(\<exists>k. k \<le> length (t # ts) \<and> r = pre @ take k (t # ts)) \<longleftrightarrow>
        r = pre \<or> (\<exists>k. k \<le> length ts \<and> r = (pre @ [t]) @ take k ts)"
    proof
      assume "\<exists>k. k \<le> length (t # ts) \<and> r = pre @ take k (t # ts)"
      then obtain k where "k \<le> length (t # ts)" "r = pre @ take k (t # ts)" by blast
      then show "r = pre \<or> (\<exists>k. k \<le> length ts \<and> r = (pre @ [t]) @ take k ts)" by (cases k) auto
    next
      assume "r = pre \<or> (\<exists>k. k \<le> length ts \<and> r = (pre @ [t]) @ take k ts)"
      then show "\<exists>k. k \<le> length (t # ts) \<and> r = pre @ take k (t # ts)"
      proof
        assume "r = pre"
        then show ?thesis by (intro exI [of _ 0]) simp
      next
        assume "\<exists>k. k \<le> length ts \<and> r = (pre @ [t]) @ take k ts"
        then obtain k where "k \<le> length ts" "r = (pre @ [t]) @ take k ts" by blast
        then show ?thesis by (intro exI [of _ "Suc k"]) simp
      qed
    qed
    moreover have "r = pre @ [t] \<Longrightarrow> \<exists>k. k \<le> length ts \<and> r = (pre @ [t]) @ take k ts"
      by (intro exI [of _ 0]) simp
    ultimately show "with_folders (pre @ [t]) ts (fs_names ?g) r = with_folders pre (t # ts) (fs_names f) r"
      using Cons.prems(2) by (auto simp: with_folders_def)
  qed
  ultimately show ?case using m p by (simp add: Let_def)
qed

definition path_ready :: "'c pers_consts_scheme \<Rightarrow> fs \<Rightarrow> string \<Rightarrow> bool" where
  "path_ready c f p \<longleftrightarrow> CHR 0x0A \<notin> set p \<and> length p + 1 < DbPathMaxLen c \<and>
     2 \<le> length (resolve p) \<and> length (resolve p) < max_tokens \<and> fs_names f [hd (resolve p)] = Some Dir \<and>
     (\<forall>k n. k < length (resolve p) \<longrightarrow> fs_names f (take k (resolve p)) \<noteq> Some (Reg n))"

definition folders_of :: "fs \<Rightarrow> string list \<Rightarrow> string list \<Rightarrow> fs_node option" where
  "folders_of f r = with_folders [hd r] (butlast (tl r)) (fs_names f)"

lemma butlast_hd_tl: "2 \<le> length r \<Longrightarrow> butlast r = hd r # butlast (tl r)"
  by (cases r) auto

lemma folders_of_at:
  assumes "2 \<le> length r"
  shows "folders_of f r (butlast r) = Some Dir" and "folders_of f r r = fs_names f r"
    and "fs_names f q = Some x \<Longrightarrow> (\<forall>k n. k < length r \<longrightarrow> fs_names f (take k r) \<noteq> Some (Reg n)) \<Longrightarrow> folders_of f r q = Some x"
    and "folders_of f r q = Some (Reg n) \<Longrightarrow> fs_names f q = Some (Reg n)"
proof -
  have b: "[hd r] @ butlast (tl r) = butlast r" using butlast_hd_tl [OF assms] by simp
  show "folders_of f r (butlast r) = Some Dir"
    using b by (auto simp: folders_of_def with_folders_def intro!: exI [of _ "length (butlast (tl r))"])
  have pre: "[hd r] @ take k (butlast (tl r)) = take (Suc k) r" if "k \<le> length (butlast (tl r))" for k
  proof -
    have "[hd r] @ take k (butlast (tl r)) = take (Suc k) ([hd r] @ butlast (tl r))" by simp
    also have "\<dots> = take (Suc k) (butlast r)" using b by simp
    also have "\<dots> = take (Suc k) r" using that assms by (simp add: take_butlast)
    finally show ?thesis .
  qed
  have lt: "Suc k < length r" if "k \<le> length (butlast (tl r))" for k using that assms by auto
  show "folders_of f r r = fs_names f r"
    using pre lt by (auto simp: folders_of_def with_folders_def) (metis length_take min.absorb4 nat_neq_iff)
  show "folders_of f r q = Some x"
    if q: "fs_names f q = Some x" and nr: "\<forall>k n. k < length r \<longrightarrow> fs_names f (take k r) \<noteq> Some (Reg n)"
  proof (cases "\<exists>k. k \<le> length (butlast (tl r)) \<and> q = [hd r] @ take k (butlast (tl r))")
    case True
    then obtain k where "k < length r" "q = take k r" using pre lt by metis
    then have "x = Dir" using q nr by (cases x) auto
    then show ?thesis using True by (simp add: folders_of_def with_folders_def)
  next
    case False
    then show ?thesis unfolding folders_of_def with_folders_def using q by (simp only: if_False)
  qed
  show "folders_of f r q = Some (Reg n) \<Longrightarrow> fs_names f q = Some (Reg n)"
    by (auto simp: folders_of_def with_folders_def split: if_splits)
qed

text \<open>A file that does not exist is created, with the folders on its path.\<close>

lemma pclCreateFile_spec:
  assumes rdy: "path_ready c f p" and new: "fs_names f (resolve p) = None"
    and dn: "fs_denied f = (\<lambda>_ _. False)" and fds: "length (fs_fds f) < fs_maxfd f"
  shows "\<exists>i f'. pclCreateFile c p f = Some (int i, f') \<and> get_fd f (int i) = None \<and>
     fs_names f' = (folders_of f (resolve p))(resolve p \<mapsto> Reg (fs_next f)) \<and>
     fs_data f' = (fs_data f)(fs_next f := []) \<and> fs_next f' = fs_next f + 1 \<and>
     fs_maxfd f' = fs_maxfd f \<and> fs_denied f' = fs_denied f \<and>
     get_fd f' = (get_fd f)(int i \<mapsto> desc (fs_next f) O_RDWR) \<and> length (fs_fds f') \<le> Suc (length (fs_fds f))"
proof -
  let ?r = "resolve p" let ?pre = "[hd ?r]" let ?ts = "butlast (tl ?r)"
  have len: "2 \<le> length ?r" "length ?r < max_tokens" using rdy by (simp_all add: path_ready_def)
  have b: "?pre @ ?ts = butlast ?r" using butlast_hd_tl [OF len(1)] by simp
  have ok: "\<forall>t \<in> set ?r. comp_ok t" using resolve_comp_ok by blast
  have ok2: "\<forall>t \<in> set (?pre @ ?ts). comp_ok t" unfolding b using ok by (auto dest: in_set_butlastD)
  have pre: "?pre @ take k ?ts = take (Suc k) ?r" if "k \<le> length ?ts" for k
  proof -
    have "?pre @ take k ?ts = take (Suc k) (?pre @ ?ts)" by simp
    also have "\<dots> = take (Suc k) ?r" unfolding b using that len by (simp add: take_butlast)
    finally show ?thesis .
  qed
  have nr: "\<forall>k n. k \<le> length ?ts \<longrightarrow> fs_names f (?pre @ take k ?ts) \<noteq> Some (Reg n)"
    using rdy pre len by (auto simp: path_ready_def)
  have d0: "fs_names f ?pre = Some Dir" using rdy by (simp add: path_ready_def)
  let ?g = "f\<lparr>fs_names := folders_of f ?r\<rparr>"
  have cf: "create_folders (''/'' @ hd ?r) ?ts f = (path_of (butlast ?r), ?g)"
    using create_folders_spec [OF ok2 d0 dn nr] butlast_hd_tl [OF len(1)] by (simp add: path_of_def folders_of_def)
  have "?r \<noteq> []" using len by auto
  then have pl: "path_of (butlast ?r) @ ''/'' @ last ?r = path_of ?r"
    by (metis (no_types, lifting) append_butlast_last_id append_Cons append_Nil concat.simps concat_append list.simps(8,9)
        map_append path_of_def append_Nil2)
  have "length (path_of ?r) \<le> length p + 1"
    using strtok_length [of "\<lambda>c. c = CHR ''/''" "[]" p] by (simp add: length_path_of resolve_def)
  then have sp: "strncpy_path c (path_of ?r) = Some (path_of ?r)" "strncpy_path c p = Some p"
    using rdy by (auto simp: path_ready_def strncpy_path_def)
  have tk: "strtok_all (\<lambda>ch. ch = CHR ''/'' \<or> ch = CHR 0x0A) [] p = ?r"
    using rdy by (simp add: path_ready_def strtok_newline)
  have e: "pclCreateFile c p f = Some (fs_open (path_of ?r) O_RDWR True True ?g)"
    using sp tk len cf pl by (simp add: pclCreateFile_def Let_def)
  have rr: "resolve (path_of ?r) = ?r" by (rule resolve_path_of [OF ok])
  have n1: "fs_names ?g (resolve (path_of ?r)) = None" unfolding rr using folders_of_at(2) [OF len(1)] new by simp
  have n2: "may_add ?g (resolve (path_of ?r))"
    unfolding rr may_add_def using folders_of_at(1) [OF len(1)] len dn by auto
  have n3: "length (fs_fds ?g) < fs_maxfd ?g" using fds by simp
  show ?thesis using fs_open_new [OF n1 n2 n3, of O_RDWR True] e rr by (simp add: desc_def)
qed


section \<open>Writing a whole file\<close>

text \<open>The state after \<open>p\<close> has been opened as descriptor \<open>i\<close> on inode \<open>n\<close>, created or truncated.\<close>

definition created :: "fs \<Rightarrow> string \<Rightarrow> int \<Rightarrow> nat \<Rightarrow> nat \<Rightarrow> fs \<Rightarrow> bool" where
  "created f p m i n f' \<longleftrightarrow> get_fd f (int i) = None \<and> fs_names f' = (fs_names f)(resolve p \<mapsto> Reg n) \<and>
     fs_data f' = (fs_data f)(n := []) \<and> get_fd f' = (get_fd f)(int i \<mapsto> desc n m) \<and> fs_wf f' \<and>
     (\<forall>r. r \<noteq> resolve p \<longrightarrow> fs_names f r \<noteq> Some (Reg n)) \<and>
     fs_maxfd f' = fs_maxfd f \<and> fs_denied f' = fs_denied f \<and> length (fs_fds f') \<le> Suc (length (fs_fds f))"

lemma wf_new:
  assumes wf: "fs_wf f" and n: "fs_names g = (fs_names f)(r \<mapsto> Reg (fs_next f))" "fs_next g = fs_next f + 1"
    and fd: "get_fd g = (get_fd f)(k \<mapsto> desc (fs_next f) m)" "length (fs_fds g) \<le> fs_maxfd g"
  shows "fs_wf g" and "\<forall>r n. fs_names f r = Some (Reg n) \<longrightarrow> n \<noteq> fs_next f"
proof -
  have lt: "\<And>r n. fs_names f r = Some (Reg n) \<Longrightarrow> n < fs_next f"
    and inj: "\<And>r r' n. fs_names f r = Some (Reg n) \<Longrightarrow> fs_names f r' = Some (Reg n) \<Longrightarrow> r = r'"
    and fds: "\<And>k d. get_fd f k = Some d \<Longrightarrow> of_ino d < fs_next f"
    using wf unfolding fs_wf_def by blast+
  show "\<forall>r n. fs_names f r = Some (Reg n) \<longrightarrow> n \<noteq> fs_next f" using lt by blast
  show "fs_wf g" unfolding fs_wf_def n fd(1)
    using lt inj fds fd(2) by (auto simp: less_Suc_eq split: if_splits)
qed

lemma open_creating:
  assumes wf: "fs_wf f" and dn: "fs_denied f = (\<lambda>_ _. False)" and fds: "length (fs_fds f) < fs_maxfd f"
    and nd: "fs_names f (resolve p) \<noteq> Some Dir" and par: "resolve p \<noteq> []" "fs_names f (butlast (resolve p)) = Some Dir"
  shows "\<exists>i n f'. fs_open p m True True f = (int i, f') \<and> created f p m i n f'"
proof (cases "fs_names f (resolve p)")
  case None
  have ma: "may_add f (resolve p)" using dn par by (simp add: may_add_def)
  from fs_open_new [OF None ma fds, of m True] obtain i f' where o: "fs_open p m True True f = (int i, f')"
     "get_fd f (int i) = None" "fs_names f' = (fs_names f)(resolve p \<mapsto> Reg (fs_next f))"
     "fs_data f' = (fs_data f)(fs_next f := [])" "fs_next f' = fs_next f + 1" "fs_maxfd f' = fs_maxfd f"
     "fs_denied f' = fs_denied f" "get_fd f' = (get_fd f)(int i \<mapsto> desc (fs_next f) m)"
     "length (fs_fds f') \<le> Suc (length (fs_fds f))"
    by (auto simp: desc_def)
  then show ?thesis using wf_new [OF wf o(3,5,8)] fds by (auto simp: created_def)
next
  case (Some x)
  then obtain n where n: "fs_names f (resolve p) = Some (Reg n)" using nd by (cases x) auto
  from fs_open_reg [OF n _ fds, of m True True] dn obtain i f' where o: "fs_open p m True True f = (int i, f')"
     "get_fd f (int i) = None" "fs_names f' = fs_names f" "fs_data f' = (fs_data f)(n := [])"
     "fs_next f' = fs_next f" "fs_maxfd f' = fs_maxfd f" "fs_denied f' = fs_denied f"
     "get_fd f' = (get_fd f)(int i \<mapsto> desc n m)" "length (fs_fds f') \<le> Suc (length (fs_fds f))"
    by (auto simp: desc_def)
  have "fs_names f' = (fs_names f)(resolve p \<mapsto> Reg n)" using n o(3) by (simp add: fun_upd_idem)
  moreover have "fs_wf f'" using wf n o(3,5,6,8,9) fds by (auto simp: fs_wf_def)
  moreover have "\<forall>r. r \<noteq> resolve p \<longrightarrow> fs_names f r \<noteq> Some (Reg n)" using wf n unfolding fs_wf_def by blast
  ultimately show ?thesis using o by (auto simp: created_def)
qed

text \<open>The file \<open>p\<close> now holds \<open>x\<close>; every other file is as before, and so are the descriptors.\<close>

definition wrote :: "fs \<Rightarrow> string \<Rightarrow> u8 list \<Rightarrow> fs \<Rightarrow> bool" where
  "wrote f p x g \<longleftrightarrow> fs_wf g \<and> (\<exists>n. fs_names g (resolve p) = Some (Reg n) \<and> fs_data g n = x) \<and>
     (\<forall>r n. r \<noteq> resolve p \<longrightarrow> (fs_names g r = Some (Reg n)) = (fs_names f r = Some (Reg n))) \<and>
     (\<forall>r n. r \<noteq> resolve p \<longrightarrow> fs_names f r = Some (Reg n) \<longrightarrow> fs_data g n = fs_data f n) \<and>
     (\<forall>r. fs_names f r = Some Dir \<longrightarrow> fs_names g r = Some Dir) \<and>
     get_fd g = get_fd f \<and> fs_maxfd g = fs_maxfd f \<and> fs_denied g = fs_denied f \<and>
     length (fs_fds g) \<le> Suc (length (fs_fds f))"

lemma created_wrote:
  assumes c: "created f p m i n f1" and nd: "fs_names f (resolve p) \<noteq> Some Dir"
    and g: "same_names f1 g" "fs_data g = (fs_data f1)(n := x)" "get_fd g = get_fd f" "length (fs_fds g) = length (fs_fds f1)"
  shows "wrote f p x g"
proof -
  have "get_fd f1 k = Some d" if "get_fd f k = Some d" for k d using that c by (auto simp: created_def)
  then have "fs_wf g" using c g unfolding fs_wf_def created_def same_names_def by metis
  then show ?thesis using c g nd by (auto simp: created_def wrote_def same_names_def)
qed

lemma wrote_content:
  assumes "wrote f p x g"
  shows "file_content g q = (if resolve q = resolve p then Some x else file_content f q)"
proof (cases "resolve q = resolve p")
  case True
  then show ?thesis using assms by (auto simp: wrote_def file_content_reg)
next
  case False
  have "file_content g q = Some y \<longleftrightarrow> file_content f q = Some y" for y
    using assms False unfolding wrote_def file_content_reg by metis
  then show ?thesis using False by (metis not_None_eq)
qed

section \<open>Creating a backup\<close>

text \<open>A missing file is created empty.\<close>

lemma pclCreateFile_wrote:
  assumes rdy: "path_ready c f p" and new: "fs_names f (resolve p) = None" and wf: "fs_wf f"
    and dn: "fs_denied f = (\<lambda>_ _. False)" and fds: "length (fs_fds f) < fs_maxfd f"
  shows "\<exists>h f' . pclCreateFile c p f = Some (h, f') \<and> wrote f p [] (snd (fs_close h f')) \<and>
     fs_names (snd (fs_close h f')) (butlast (resolve p)) = Some Dir \<and>
     (\<forall>q. length (resolve p) \<le> length q \<longrightarrow> q \<noteq> resolve p \<longrightarrow> fs_names (snd (fs_close h f')) q = fs_names f q)"
proof -
  let ?r = "resolve p" let ?g = "f\<lparr>fs_names := folders_of f (resolve p)\<rparr>"
  have len: "2 \<le> length ?r" and nr: "\<forall>k n. k < length ?r \<longrightarrow> fs_names f (take k ?r) \<noteq> Some (Reg n)"
    using rdy by (simp_all add: path_ready_def)
  obtain i f' where o: "pclCreateFile c p f = Some (int i, f')" "get_fd f (int i) = None"
     "fs_names f' = (folders_of f ?r)(?r \<mapsto> Reg (fs_next f))" "fs_data f' = (fs_data f)(fs_next f := [])"
     "fs_next f' = fs_next f + 1" "fs_maxfd f' = fs_maxfd f" "fs_denied f' = fs_denied f"
     "get_fd f' = (get_fd f)(int i \<mapsto> desc (fs_next f) O_RDWR)" "length (fs_fds f') \<le> Suc (length (fs_fds f))"
    using pclCreateFile_spec [OF rdy new dn fds] by blast
  have reg: "folders_of f ?r q = Some (Reg n) \<longleftrightarrow> fs_names f q = Some (Reg n)" for q n
    using folders_of_at(3) [OF len _ nr] folders_of_at(4) [OF len] by blast
  have wg: "fs_wf ?g" using wf reg by (simp add: fs_wf_def)
  have c: "created ?g p O_RDWR i (fs_next f) f'"
    using o wf_new [OF wg, of f' ?r "int i" O_RDWR] fds by (auto simp: created_def)
  have nd: "fs_names ?g ?r \<noteq> Some Dir" using new folders_of_at(2) [OF len] by simp
  have "wrote ?g p [] (snd (fs_close (int i) f'))"
    by (rule created_wrote [OF c nd]) (use o(2,4,8) in \<open>auto simp: same_names_def fun_upd_idem\<close>)
  moreover from this have "fs_names (snd (fs_close (int i) f')) (butlast ?r) = Some Dir"
    using folders_of_at(1) [OF len, of f] by (simp add: wrote_def)
  moreover have "fs_names f q = Some Dir \<Longrightarrow> folders_of f ?r q = Some Dir" for q
    using folders_of_at(3) [OF len _ nr] by blast
  moreover have "folders_of f ?r q = fs_names f q" if "length ?r \<le> length q" for q
    using that len by (auto simp: folders_of_def with_folders_def)
  ultimately show ?thesis using o(1,3) reg by (auto simp: wrote_def)
qed

text \<open>The checksum is written to a file that is created or truncated.\<close>

lemma write_csum:
  assumes u: "fs_wf f" "fs_denied f = (\<lambda>_ _. False)" "length (fs_fds f) < fs_maxfd f"
    and p: "fs_names f (resolve p) \<noteq> Some Dir" "resolve p \<noteq> []" "fs_names f (butlast (resolve p)) = Some Dir"
  shows "\<exists>h f'. fs_open p O_WRONLY True True f = (h, f') \<and> h \<noteq> - 1 \<and>
     wrote f p x (snd (fs_close h (snd (fs_write h x f'))))"
proof -
  obtain i n f1 where o: "fs_open p O_WRONLY True True f = (int i, f1)" "created f p O_WRONLY i n f1"
    using open_creating [OF u p, of O_WRONLY] by blast
  have d: "get_fd f1 (int i) = Some (desc n O_WRONLY)" "fs_data f1 n = []" "get_fd f (int i) = None"
     "get_fd f1 = (get_fd f)(int i \<mapsto> desc n O_WRONLY)"
    using o(2) by (auto simp: created_def)
  let ?g = "snd (fs_write (int i) x f1)"
  have w: "?g = set_pos (int i) (length x) (f1\<lparr>fs_data := (fs_data f1)(n := x)\<rparr>)"
    using d by (simp add: fs_write_def write_at_empty)
  have "get_fd (snd (fs_close (int i) ?g)) = get_fd f"
    using d by (simp add: w get_fd_set_pos fun_upd_idem)
  then have "wrote f p x (snd (fs_close (int i) ?g))"
    by (intro created_wrote [OF o(2) p(1)]) (simp_all add: w same_names_def)
  then show ?thesis using o(1) by auto
qed

text \<open>Copying from the open descriptor \<open>src\<close> into a file that is created or truncated.\<close>

lemma copy_into:
  assumes u: "fs_wf f" "fs_denied f = (\<lambda>_ _. False)" "length (fs_fds f) < fs_maxfd f"
    and p: "fs_names f (resolve p) \<noteq> Some Dir" "resolve p \<noteq> []" "fs_names f (butlast (resolve p)) = Some Dir"
    and d: "get_fd f src = Some d" "of_read d" and o: "fs_names f r = Some (Reg (of_ino d))" "r \<noteq> resolve p"
  shows "\<exists>h f1 n f2. fs_open p O_WRONLY True True f = (h, f1) \<and> h \<noteq> - 1 \<and> fs_lseek src 0 1 f1 = (int (of_pos d), f1) \<and>
     pclBackupDoFileCopy src h (snd (fs_lseek src 0 0 f1)) = (n, f2) \<and> n = int (length (fs_data f (of_ino d))) \<and>
     wrote f p (fs_data f (of_ino d)) (snd (fs_lseek src (int (of_pos d)) 0 (snd (fs_close h f2))))"
proof -
  let ?x = "fs_data f (of_ino d)" and ?d0 = "d\<lparr>of_pos := 0\<rparr>"
  obtain i n f1 where op: "fs_open p O_WRONLY True True f = (int i, f1)" "created f p O_WRONLY i n f1"
    using open_creating [OF u p, of O_WRONLY] by blast
  have f1: "get_fd f1 = (get_fd f)(int i \<mapsto> desc n O_WRONLY)" "fs_data f1 = (fs_data f)(n := [])" "get_fd f (int i) = None"
    "fs_names f1 = (fs_names f)(resolve p \<mapsto> Reg n)" and ni: "of_ino d \<noteq> n"
    using op(2) o by (auto simp: created_def)
  have si: "src \<noteq> int i" using d(1) f1(3) by auto
  have ds: "get_fd f1 src = Some d" using f1(1) d(1) si by simp
  let ?f0 = "set_pos src 0 f1"
  have g0: "get_fd ?f0 = (get_fd f1)(src \<mapsto> ?d0)" using ds by (rule get_fd_set_pos)
  obtain f2 where cp: "pclBackupDoFileCopy src (int i) ?f0 = (int (length ?x), f2)" "same_names ?f0 f2"
     "fs_data f2 = (fs_data f1)(n := ?x)" "get_fd f2 = (get_fd ?f0)(src \<mapsto> ?d0\<lparr>of_pos := length ?x\<rparr>)"
     "length (fs_fds f2) = length (fs_fds f1)"
    using copy_file [of ?f0 src ?d0 "int i" "desc n O_WRONLY"] g0 f1 d(2) si ni by auto
  let ?c = "snd (fs_close (int i) f2)"
  have gc: "get_fd ?c src = Some (d\<lparr>of_pos := length ?x\<rparr>)" using cp(4) si by simp
  let ?g = "set_pos src (of_pos d) ?c"
  have "get_fd ?g = get_fd f"
    using get_fd_set_pos [OF gc, of "of_pos d"] cp(4) g0 f1(1,3) si d(1) by (auto simp: fun_eq_iff)
  then have "wrote f p ?x ?g"
    using cp(2,3,5) by (intro created_wrote [OF op(2) p(1)]) (auto simp: same_names_def)
  moreover have "snd (fs_lseek src (int (of_pos d)) 0 ?c) = ?g" using gc by simp
  ultimately show ?thesis using op(1) ds cp(1) by auto
qed

text \<open>Where a backup can be made: its name and that of the checksum lie in the same directory, which
  exists or can be created.\<close>

definition backup_ready :: "'c pers_consts_scheme \<Rightarrow> fs \<Rightarrow> string \<Rightarrow> string \<Rightarrow> bool" where
  "backup_ready c f bak cs \<longleftrightarrow> fs_names f (resolve bak) \<noteq> Some Dir \<and> fs_names f (resolve cs) \<noteq> Some Dir \<and>
     resolve bak \<noteq> [] \<and> resolve cs \<noteq> [] \<and> butlast (resolve cs) = butlast (resolve bak) \<and>
     (if fs_names f (resolve bak) = None then path_ready c f bak else fs_names f (butlast (resolve bak)) = Some Dir)"

definition backup_made :: "fs \<Rightarrow> string \<Rightarrow> string \<Rightarrow> string \<Rightarrow> u8 list \<Rightarrow> fs \<Rightarrow> bool" where
  "backup_made f bak cs t x g \<longleftrightarrow>
     file_content g = (\<lambda>q. if resolve q = resolve bak then Some x
       else if resolve q = resolve cs then Some (bytes t) else file_content f q) \<and>
     get_fd g = get_fd f \<and> fs_wf g \<and> fs_maxfd g = fs_maxfd f \<and> fs_denied g = fs_denied f \<and>
     length (fs_fds g) \<le> length (fs_fds f) + 3 \<and>
     (\<forall>r n. r \<notin> {resolve bak, resolve cs} \<longrightarrow> (fs_names g r = Some (Reg n)) = (fs_names f r = Some (Reg n)))"

lemma butlast_eq_length: "butlast xs = butlast ys \<Longrightarrow> xs \<noteq> [] \<Longrightarrow> ys \<noteq> [] \<Longrightarrow> length xs = length ys"
  by (metis append_butlast_last_id length_append_singleton)

lemma pclCreateBackup_made:
  assumes u: "fs_wf f" "fs_denied f = (\<lambda>_ _. False)" "length (fs_fds f) + 3 \<le> fs_maxfd f"
    and d: "get_fd f src = Some d" "of_read d" and o: "fs_names f (resolve orig) = Some (Reg (of_ino d))"
    and dist: "distinct [resolve orig, resolve bak, resolve cs]" and rdy: "backup_ready c f bak cs"
  shows "\<exists>g. pclCreateBackup c bak src cs t f = Some (int (length (fs_data f (of_ino d))), g) \<and>
     backup_made f bak cs t (fs_data f (of_ino d)) g"
proof -
  let ?x = "fs_data f (of_ino d)" and ?rb = "resolve bak" and ?rc = "resolve cs"
  have len: "length ?rb = length ?rc"
    using rdy butlast_eq_length [of ?rc ?rb] by (simp add: backup_ready_def)
  obtain f1 where f1: "(if fs_access bak f \<noteq> 0 then Option.bind (pclCreateFile c bak f) (\<lambda>(h, f). Some (snd (fs_close h f)))
            else Some f) = Some f1" "fs_wf f1" "get_fd f1 = get_fd f" "fs_maxfd f1 = fs_maxfd f" "fs_denied f1 = fs_denied f"
     "length (fs_fds f1) \<le> length (fs_fds f) + 1" "\<exists>n. fs_names f1 ?rb = Some (Reg n)" "fs_names f1 (butlast ?rb) = Some Dir"
     "fs_names f1 ?rc \<noteq> Some Dir"
     "\<forall>r n. r \<noteq> ?rb \<longrightarrow> (fs_names f1 r = Some (Reg n)) = (fs_names f r = Some (Reg n))"
     "\<forall>r n. r \<noteq> ?rb \<longrightarrow> fs_names f r = Some (Reg n) \<longrightarrow> fs_data f1 n = fs_data f n"
  proof (cases "fs_names f ?rb")
    case None
    then have r: "path_ready c f bak" "length (fs_fds f) < fs_maxfd f" using rdy u(3) by (simp_all add: backup_ready_def)
    obtain h f' where cr: "pclCreateFile c bak f = Some (h, f')" "wrote f bak [] (snd (fs_close h f'))"
       "fs_names (snd (fs_close h f')) (butlast ?rb) = Some Dir" "fs_names (snd (fs_close h f')) ?rc = fs_names f ?rc"
      using pclCreateFile_wrote [OF r(1) None u(1,2) r(2)] len dist by auto
    show ?thesis by (rule that [of "snd (fs_close h f')"])
      (use cr None rdy in \<open>auto simp: wrote_def fs_access_def backup_ready_def\<close>)
  next
    case (Some y)
    then obtain n where "y = Reg n" using rdy by (cases y) (auto simp: backup_ready_def)
    then show ?thesis using Some rdy u
      by (intro that [of f]) (auto simp: fs_access_def backup_ready_def)
  qed
  have cs: "?rc \<noteq> []" "fs_names f1 (butlast ?rc) = Some Dir" "length (fs_fds f1) < fs_maxfd f1" "fs_denied f1 = (\<lambda>_ _. False)"
    using rdy f1 u by (simp_all add: backup_ready_def)
  obtain hc fc where w: "fs_open cs O_WRONLY True True f1 = (hc, fc)" "hc \<noteq> - 1"
     "wrote f1 cs (bytes t) (snd (fs_close hc (snd (fs_write hc (bytes t) fc))))"
    using write_csum [OF f1(2) cs(4,3) f1(9) cs(1,2)] by blast
  let ?f2 = "snd (fs_close hc (snd (fs_write hc (bytes t) fc)))"
  have nb: "fs_names ?f2 ?rb \<noteq> Some Dir" "fs_names ?f2 (butlast ?rb) = Some Dir" "?rb \<noteq> []"
    and f2: "fs_wf ?f2" "fs_denied ?f2 = (\<lambda>_ _. False)" "length (fs_fds ?f2) < fs_maxfd ?f2" "get_fd ?f2 src = Some d"
    and or: "fs_names ?f2 (resolve orig) = Some (Reg (of_ino d))" "fs_data ?f2 (of_ino d) = ?x"
    using w(3) f1 dist rdy u(2,3) d(1) o by (auto simp: wrote_def backup_ready_def)
  have ob: "resolve orig \<noteq> ?rb" using dist by simp
  obtain h g1 n g2 where cp: "fs_open bak O_WRONLY True True ?f2 = (h, g1)" "h \<noteq> - 1"
     "fs_lseek src 0 1 g1 = (int (of_pos d), g1)" "pclBackupDoFileCopy src h (snd (fs_lseek src 0 0 g1)) = (n, g2)"
     "n = int (length ?x)" "wrote ?f2 bak ?x (snd (fs_lseek src (int (of_pos d)) 0 (snd (fs_close h g2))))"
    using copy_into [OF f2(1-3) nb(1,3,2) f2(4) d(2) or(1) ob] or(2) by auto
  let ?g = "snd (fs_lseek src (int (of_pos d)) 0 (snd (fs_close h g2)))"
  have e: "pclCreateBackup c bak src cs t f = Some (int (length ?x), ?g)"
    using f1(1) w(1,2) cp(1-5)
    by (cases "fs_lseek src 0 0 g1"; cases "fs_close h g2") (simp add: pclCreateBackup_def)
  have ct1: "file_content f1 q = file_content f q" if "resolve q \<noteq> ?rb" for q
  proof -
    have "file_content f1 q = Some y \<longleftrightarrow> file_content f q = Some y" for y
      using f1(10,11) that unfolding file_content_reg by metis
    then show ?thesis by (metis not_None_eq)
  qed
  have "file_content ?g = (\<lambda>q. if resolve q = ?rb then Some ?x else if resolve q = ?rc then Some (bytes t) else file_content f q)"
    using wrote_content [OF cp(6)] wrote_content [OF w(3)] ct1 by (auto simp: fun_eq_iff)
  then have "backup_made f bak cs t ?x ?g"
    using w(3) cp(6) f1 unfolding backup_made_def wrote_def by auto
  then show ?thesis using e by blast
qed

section \<open>Properties\<close>

text \<open>The checksum is read back as it was written.\<close>

lemma csum_text_csum_of: "csum_text (bytes (csum_of x)) = csum_of x"
proof (cases "x = []")
  case True
  then show ?thesis by (simp add: csum_text_def csum_of_def bytes_def str_of_bytes_def)
next
  case False
  have "length (csum_of x) \<le> 8" using length_fmt_x by (simp add: csum_of_def)
  then have "take ChecksumBufSize (bytes (csum_of x)) = bytes (csum_of x)" by (simp add: c_const)
  then show ?thesis using False NUL_notin_fmt_x by (simp add: csum_text_def str_of_bytes_bytes csum_of_def)
qed

lemma csum_of_not_empty: "x \<noteq> [] \<Longrightarrow> csum_of x \<noteq> []"
  using digits.simps by (simp add: csum_of_def fmt_x_def)

lemma bytes_empty [simp]: "bytes s = [] \<longleftrightarrow> s = []"
  by (simp add: bytes_def)

text \<open>A file system for the witnesses: \<open>/Data/app/f\<close> with the content hello, open as descriptor 3.\<close>

definition demo_fs :: fs where
  "demo_fs = \<lparr>fs_names = [[] \<mapsto> Dir, [''Data''] \<mapsto> Dir, [''Data'', ''app''] \<mapsto> Dir, [''Data'', ''app'', ''f''] \<mapsto> Reg 1],
     fs_data = (\<lambda>n. if n = 1 then bytes ''hello'' else []), fs_disk = (\<lambda>_. []), fs_next = 2,
     fs_fds = replicate 3 (Some \<lparr>of_ino = 0, of_pos = 0, of_read = True, of_write = True\<rparr>) @ [Some (desc 1 O_RDWR)],
     fs_maxfd = 1024, fs_denied = (\<lambda>_ _. False), fs_errno = ENONE\<rparr>"

definition demo_orig :: string where "demo_orig = ''/Data/app/f''"
definition demo_bak :: string where "demo_bak = ''/Data/backup/app/f~''"
definition demo_cs :: string where "demo_cs = ''/Data/backup/app/f~.crc''"

lemma demo_resolve:
  "resolve demo_orig = [''Data'', ''app'', ''f'']" "resolve demo_bak = [''Data'', ''backup'', ''app'', ''f~'']"
  "resolve demo_cs = [''Data'', ''backup'', ''app'', ''f~.crc'']"
  by (simp_all add: resolve_def demo_orig_def demo_bak_def demo_cs_def)

lemma demo_fds: "get_fd demo_fs k = (if k \<in> {0, 1, 2} then Some \<lparr>of_ino = 0, of_pos = 0, of_read = True, of_write = True\<rparr>
    else if k = 3 then Some (desc 1 O_RDWR) else None)"
  by (auto simp: get_fd_def demo_fs_def nth_append numeral_3_eq_3 numeral_2_eq_2 nth_Cons' nat_eq_iff)

lemma demo_wf: "fs_wf demo_fs"
  using demo_fds by (auto simp: fs_wf_def demo_fs_def split: if_splits)

lemma demo_content: "file_content demo_fs demo_orig = Some (bytes ''hello'')"
  "file_content demo_fs demo_bak = None" "file_content demo_fs demo_cs = None"
  by (simp_all add: file_content_def demo_resolve demo_fs_def)

lemma demo_three: "three_files demo_fs demo_orig demo_bak demo_cs"
  using demo_wf demo_fds by (simp add: three_files_def fs_usable_def demo_resolve) (simp add: demo_fs_def)

lemma demo_path_ready: "path_ready mem_env demo_fs demo_bak"
  unfolding path_ready_def demo_resolve
  by (auto simp: demo_bak_def demo_fs_def less_Suc_eq numeral_eq_Suc)

lemma demo_backup_ready: "backup_ready mem_env demo_fs demo_bak demo_cs"
  using demo_path_ready by (simp add: backup_ready_def demo_resolve) (simp add: demo_fs_def)

text \<open>C14: the check that \<open>pclFileOpen\<close> and \<open>pclFileCreatePath\<close> make before a writable file is opened
  decides by the contents of the file, its backup and its checksum alone, as \<open>verdict_of\<close> states: without
  backup and checksum there is nothing to check; a backup that its checksum confirms replaces the file, which
  is returned open for reading and writing; otherwise the file is kept, and returned open, when the checksum
  (or that of the backup) confirms it; in all other cases -1 is returned and all three files are removed. No
  other file and no other descriptor changes. In particular a backup that its checksum confirms is lost
  when the file itself is missing, because recovery does not create it.\<close>

theorem verify_consistency_decides:
  assumes "three_files f orig bak cs"
  shows "\<exists>h f'. pclVerifyConsistency orig bak cs m f = Some (h, f') \<and>
     verdict_done f orig bak cs m
       (verdict_of (m \<noteq> O_WRONLY) (file_content f orig) (file_content f bak) (file_content f cs)) h f'"
  using assms by (rule verify_verdict)

theorem verify_consistency_decides_witness:
  "\<exists>f'. pclVerifyConsistency demo_orig demo_bak demo_cs O_RDWR demo_fs = Some (0, f') \<and>
     file_content f' demo_orig = Some (bytes ''hello'')"
proof -
  have v: "verdict_of (O_RDWR \<noteq> O_WRONLY) (file_content demo_fs demo_orig) (file_content demo_fs demo_bak)
      (file_content demo_fs demo_cs) = Nothing_to_check"
    using demo_content by (simp add: verdict_of_def)
  obtain h f' where "pclVerifyConsistency demo_orig demo_bak demo_cs O_RDWR demo_fs = Some (h, f')" "h = 0" "nothing demo_fs f'"
    using verify_consistency_decides [OF demo_three, of O_RDWR] unfolding v by (auto simp: verdict_done_def)
  then show ?thesis using content_same [of f' demo_fs] demo_content(1) by (auto simp: nothing_def same_names_def)
qed



text \<open>C34: when the first backup of a file is interrupted, what happens at the next open depends on how far
  it got. After the empty backup file has been created and before the checksum is written, the check takes
  the empty backup for the truth: it fails and deletes the file, which nobody had written yet. From the
  moment at which the checksum is complete, the file is kept, whatever part of the backup was copied, unless
  that part has the checksum of the whole.\<close>

theorem backup_interrupted:
  assumes "fs_wf f" and "fs_denied f = (\<lambda>_ _. False)" and "length (fs_fds f) < fs_maxfd f"
    and "distinct [resolve orig, resolve bak, resolve cs]" and "path_ready c f bak"
    and "file_content f orig = Some x" and "x \<noteq> []" and "fs_names f (resolve bak) = None" and "file_content f cs = None"
    and "m \<noteq> O_WRONLY"
  shows "(\<exists>h g. pclCreateFile c bak f = Some (h, g) \<and>
       (\<forall>f'. three_files f' orig bak cs \<longrightarrow> file_content f' = file_content (snd (fs_close h g)) \<longrightarrow>
          (\<exists>r. pclVerifyConsistency orig bak cs m f' = Some (- 1, r) \<and> file_content r orig = None))) \<and>
     (\<forall>f' part. three_files f' orig bak cs \<longrightarrow> file_content f' orig = Some x \<longrightarrow> file_content f' bak = Some part \<longrightarrow>
       file_content f' cs = Some (bytes (csum_of x)) \<longrightarrow> csum_of part \<noteq> csum_of x \<longrightarrow>
       (\<exists>h r. pclVerifyConsistency orig bak cs m f' = Some (h, r) \<and> opened_on f' orig m h r \<and>
          file_content r = file_content f'))"
proof -
  obtain h g where g: "pclCreateFile c bak f = Some (h, g)" "wrote f bak [] (snd (fs_close h g))"
    using pclCreateFile_wrote [OF assms(5,8,1,2,3)] by blast
  have ct: "file_content (snd (fs_close h g)) orig = Some x" "file_content (snd (fs_close h g)) bak = Some []"
     "file_content (snd (fs_close h g)) cs = None"
    using wrote_content [OF g(2)] assms(4,6,9) by auto
  have e: "csum_of ([] :: u8 list) = []" by (simp add: csum_of_def)
  have "\<exists>r. pclVerifyConsistency orig bak cs m f' = Some (- 1, r) \<and> file_content r orig = None"
    if "three_files f' orig bak cs" "file_content f' = file_content (snd (fs_close h g))" for f'
    using verify_verdict [OF that(1), of m] that(2) ct e csum_of_not_empty [OF assms(7)] assms(10)
    by (auto simp: verdict_of_def orig_matches_def verdict_done_def)
  moreover have "\<exists>h r. pclVerifyConsistency orig bak cs m f' = Some (h, r) \<and> opened_on f' orig m h r \<and>
      file_content r = file_content f'"
    if "three_files f' orig bak cs" and "file_content f' orig = Some x" "file_content f' bak = Some part"
      "file_content f' cs = Some (bytes (csum_of x))" "csum_of part \<noteq> csum_of x" for f' part
    using verify_verdict [OF that(1), of m] that csum_of_not_empty [OF assms(7)] assms(10)
    by (auto simp: verdict_of_def orig_matches_def csum_text_csum_of verdict_done_def)
  ultimately show ?thesis using g(1) by blast
qed

theorem backup_interrupted_witness:
  "\<exists>h g. pclCreateFile mem_env demo_bak demo_fs = Some (h, g)"
proof -
  have a: "fs_denied demo_fs = (\<lambda>_ _. False)" "length (fs_fds demo_fs) < fs_maxfd demo_fs"
    "distinct [resolve demo_orig, resolve demo_bak, resolve demo_cs]"
    by (simp_all add: demo_resolve) (simp_all add: demo_fs_def)
  have b: "bytes ''hello'' \<noteq> []" "fs_names demo_fs (resolve demo_bak) = None" "O_RDWR \<noteq> O_WRONLY"
    by (simp_all add: demo_resolve) (simp_all add: demo_fs_def)
  show ?thesis
    using backup_interrupted [OF demo_wf a demo_path_ready demo_content(1) b(1,2) demo_content(3) b(3)] by blast
qed

end
