(* ===== verification/File_Safety.thy ===== *)
theory File_Safety
  imports File_Api Backup_Create
begin

text \<open>
  What the file API promises (\<open>src/persistence_client_library_file.c\<close>): an open file, writing to it, the
  protection of its former content by the backup that the first write makes, opening it again after a
  crash, and closing it.

  \<open>file_open\<close> is the state of a file that \<open>pclFileOpen\<close> has opened for writing: the descriptor, its entry
  in the table of file handles, the names of its backup and checksum.
\<close>

section \<open>Open files\<close>

definition file_entry :: "int \<Rightarrow> 'w pcl \<Rightarrow> file_handle" where
  "file_entry fd s = gFileHandleArray (hnd s) (nat fd)"

definition mutexes_free :: "'w pcl \<Rightarrow> bool" where
  "mutexes_free s \<longleftrightarrow> mutex_rc (hnd s) = (\<lambda>_. 0)"

definition on_file :: "int \<Rightarrow> string \<Rightarrow> fs \<Rightarrow> nat \<Rightarrow> bool" where
  "on_file fd p f pos \<longleftrightarrow> (\<exists>n. get_fd f fd = Some \<lparr>of_ino = n, of_pos = pos, of_read = True, of_write = True\<rparr> \<and>
     fs_names f (resolve p) = Some (Reg n))"

definition file_open ::
  "('w, 'e) perscom_scheme \<Rightarrow> int \<Rightarrow> string \<Rightarrow> string \<Rightarrow> string \<Rightarrow> nat \<Rightarrow> int \<Rightarrow> 'w pcl \<Rightarrow> bool" where
  "file_open E fd p bak cs pos status s \<longleftrightarrow> 0 < fd \<and> fd < int MaxPersHandle \<and> mutexes_free s \<and>
     on_file fd p (fsys s) pos \<and> fs_wf (fsys s) \<and>
     fh_permission (file_entry fd s) = PersistencePermission_ReadWrite E \<and>
     backupPath (file_entry fd s) = bak \<and> csumPath (file_entry fd s) = cs \<and> backupCreated (file_entry fd s) = status"

lemma fs_wf_data [simp]: "fs_wf (f\<lparr>fs_data := x\<rparr>) = fs_wf f" "fs_wf (f\<lparr>fs_disk := y\<rparr>) = fs_wf f"
  by (simp_all add: fs_wf_def)

lemma fs_wf_set_pos:
  assumes "fs_wf f" shows "fs_wf (set_pos fd q f)"
proof (cases "get_fd f fd")
  case None
  then show ?thesis using assms by (simp add: set_pos_def)
next
  case (Some d)
  have "of_ino e < fs_next f" if "get_fd (set_pos fd q f) k = Some e" for k e
    using that assms Some unfolding get_fd_set_pos [OF Some] fs_wf_def by (auto split: if_splits)
  then show ?thesis using assms by (simp add: fs_wf_def)
qed

text \<open>Writing \<open>n\<close> bytes to a descriptor: position and content after it.\<close>

lemma fs_write_on_file:
  assumes o: "on_file fd p f pos" and wf: "fs_wf f"
  shows "\<exists>g. fs_write fd bs f = (int (length bs), g) \<and> on_file fd p g (pos + length bs) \<and> fs_wf g \<and>
     fs_names g = fs_names f \<and> fs_maxfd g = fs_maxfd f \<and> fs_denied g = fs_denied f \<and> fs_disk g = fs_disk f \<and>
     file_content g = (\<lambda>q. if resolve q = resolve p then Some (write_at pos bs (the (file_content f p))) else file_content f q)"
proof -
  obtain n where n: "get_fd f fd = Some \<lparr>of_ino = n, of_pos = pos, of_read = True, of_write = True\<rparr>"
    "fs_names f (resolve p) = Some (Reg n)" using o by (auto simp: on_file_def)
  let ?f = "f\<lparr>fs_data := (fs_data f)(n := write_at pos bs (fs_data f n))\<rparr>"
  let ?g = "set_pos fd (pos + length bs) ?f"
  have d: "get_fd ?f fd = Some \<lparr>of_ino = n, of_pos = pos, of_read = True, of_write = True\<rparr>" using n(1) by simp
  have "on_file fd p ?g (pos + length bs)" using n d by (simp add: on_file_def get_fd_set_pos)
  moreover have "file_content ?g q = (if resolve q = resolve p then Some (write_at pos bs (the (file_content f p))) else file_content f q)" for q
  proof (cases "resolve q = resolve p")
    case True
    then show ?thesis using n(2) by (simp add: file_content_def)
  next
    case False
    then have "fs_names f (resolve q) \<noteq> Some (Reg n)" using n(2) wf unfolding fs_wf_def by blast
    then show ?thesis using False by (simp add: file_content_def split: option.split fs_node.split)
  qed
  moreover have "fs_wf ?g" using wf by (simp add: fs_wf_set_pos)
  ultimately show ?thesis using n(1) by (auto simp: fs_write_def fun_eq_iff)
qed

lemma file_content_fsync [simp]: "file_content (snd (fs_fsync fd f)) = file_content f"
  by (auto simp: fs_fsync_def file_content_def fun_eq_iff split: option.split fs_node.split)

lemma fs_fsync_sel [simp]:
  "get_fd (snd (fs_fsync fd f)) = get_fd f" "fs_names (snd (fs_fsync fd f)) = fs_names f"
  "fs_wf (snd (fs_fsync fd f)) = fs_wf f" "fs_maxfd (snd (fs_fsync fd f)) = fs_maxfd f"
  "fs_denied (snd (fs_fsync fd f)) = fs_denied f" "fs_fds (snd (fs_fsync fd f)) = fs_fds f"
  by (auto simp: fs_fsync_def split: option.split)

section \<open>Writing\<close>

text \<open>What a write leaves alone beside the files.\<close>

definition same_rest :: "'w pcl \<Rightarrow> 'w pcl \<Rightarrow> bool" where
  "same_rest s s' \<longleftrightarrow> (\<exists>f h. s' = s\<lparr>fsys := f, hnd := h\<rparr> \<and> fs_maxfd f = fs_maxfd (fsys s) \<and> fs_denied f = fs_denied (fsys s))"

lemma same_rest_run:
  assumes "same_rest s s'"
  shows "initialized s' = initialized s" and "access_permitted s' = access_permitted s"
  using assms by (auto simp: same_rest_def initialized_def access_permitted_def isAccessLocked_def)

lemma same_restI:
  "s' = s\<lparr>fsys := f, hnd := h\<rparr> \<Longrightarrow> fs_maxfd f = fs_maxfd (fsys s) \<Longrightarrow> fs_denied f = fs_denied (fsys s) \<Longrightarrow> same_rest s s'"
  unfolding same_rest_def by blast

lemma same_rest_trans:
  assumes "same_rest s t" and "same_rest t u"
  shows "same_rest s u"
proof -
  obtain f h g k where "t = s\<lparr>fsys := f, hnd := h\<rparr>" "fs_maxfd f = fs_maxfd (fsys s)" "fs_denied f = fs_denied (fsys s)"
    "u = t\<lparr>fsys := g, hnd := k\<rparr>" "fs_maxfd g = fs_maxfd (fsys t)" "fs_denied g = fs_denied (fsys t)"
    using assms unfolding same_rest_def by blast
  then show ?thesis by (intro same_restI [where f = g and h = k]) simp_all
qed

lemma get_file_entry:
  assumes "0 < fd" and "fd < int MaxPersHandle" and "mutexes_free s"
  shows "get_file_permission E fd (hnd s) = Some (fh_permission (file_entry fd s))"
    "get_file_backup_path fd (hnd s) = Some (backupPath (file_entry fd s))"
    "get_file_checksum_path fd (hnd s) = Some (csumPath (file_entry fd s))"
    "get_file_backup_status fd (hnd s) = Some (backupCreated (file_entry fd s))"
    "get_file_cache_status fd (hnd s) = Some (cacheStatus (file_entry fd s))"
    "set_file_backup_status fd v (hnd s) = Some (hnd s\<lparr>gFileHandleArray := (gFileHandleArray (hnd s))
       (nat fd := (file_entry fd s)\<lparr>backupCreated := v\<rparr>)\<rparr>)"
  using assms by (simp_all add: get_file_permission_def get_file_backup_path_def get_file_checksum_path_def
      get_file_backup_status_def get_file_cache_status_def set_file_backup_status_def mutexes_free_def file_entry_def
      rd_in wr_in)

text \<open>The part of a write behind the backup.\<close>

lemma write_after_backup:
  assumes o: "file_open E fd p bak cs pos status s"
  shows "\<exists>s'. Option.bind (sys_write fd bs (int (length bs)) (fsys s)) (\<lambda>(n, f).
      Option.bind (get_file_cache_status fd (hnd s)) (\<lambda>cached.
        Some (n, s\<lparr>fsys := if cached = 1 then snd (fs_fsync fd f) else f\<rparr>))) = Some (int (length bs), s') \<and>
     file_open E fd p bak cs (pos + length bs) status s' \<and> same_rest s s' \<and>
     file_content (fsys s') = (\<lambda>q. if resolve q = resolve p
        then Some (write_at pos bs (the (file_content (fsys s) p))) else file_content (fsys s) q)"
proof -
  have fo: "0 < fd" "fd < int MaxPersHandle" "mutexes_free s" "on_file fd p (fsys s) pos" "fs_wf (fsys s)"
    using o by (simp_all add: file_open_def)
  obtain g where g: "fs_write fd bs (fsys s) = (int (length bs), g)" "on_file fd p g (pos + length bs)" "fs_wf g"
     "fs_maxfd g = fs_maxfd (fsys s)" "fs_denied g = fs_denied (fsys s)"
     "file_content g = (\<lambda>q. if resolve q = resolve p
        then Some (write_at pos bs (the (file_content (fsys s) p))) else file_content (fsys s) q)"
    using fs_write_on_file [OF fo(4,5), of bs] by blast
  let ?f = "if cacheStatus (file_entry fd s) = 1 then snd (fs_fsync fd g) else g"
  have f: "on_file fd p ?f (pos + length bs)" "fs_wf ?f" "file_content ?f = file_content g"
    "fs_maxfd ?f = fs_maxfd (fsys s)" "fs_denied ?f = fs_denied (fsys s)"
    using g(2-5) by (simp_all add: on_file_def)
  have "file_open E fd p bak cs (pos + length bs) status (s\<lparr>fsys := ?f\<rparr>)"
    using o f(1,2) by (simp add: file_open_def mutexes_free_def file_entry_def)
  moreover have "same_rest s (s\<lparr>fsys := ?f\<rparr>)"
    by (rule same_restI [where f = ?f and h = "hnd s"]) (use f(4,5) in simp_all)
  ultimately show ?thesis
    using g(1,6) f(3) get_file_entry [OF fo(1-3)] by (auto simp: sys_write_def)
qed

lemma write_unfold:
  assumes "file_open E fd p bak cs pos status s" and "consts_ok E" and "initialized s" and "access_permitted s"
  shows "pclFileWriteData E fd bs n s =
    Option.bind (backup_before_write E fd s) (\<lambda>s. Option.bind (sys_write fd bs n (fsys s)) (\<lambda>(n, f).
      Option.bind (get_file_cache_status fd (hnd s)) (\<lambda>cached.
        Some (n, s\<lparr>fsys := if cached = 1 then snd (fs_fsync fd f) else f\<rparr>))))"
  using assms by (simp add: pclFileWriteData_def file_open_def get_file_entry consts_ok_def Let_def)

text \<open>The backup of \<open>x\<close> is in place.\<close>

definition safe_copy :: "string \<Rightarrow> string \<Rightarrow> u8 list \<Rightarrow> fs \<Rightarrow> bool" where
  "safe_copy bak cs x f \<longleftrightarrow> file_content f bak = Some x \<and> file_content f cs = Some (bytes (csum_of x))"

lemma backup_step:
  assumes o: "file_open E fd p bak cs pos 0 s" and dist: "distinct [resolve p, resolve bak, resolve cs]"
    and rdy: "backup_ready E (fsys s) bak cs" and x: "file_content (fsys s) p = Some x"
    and u: "fs_denied (fsys s) = (\<lambda>_ _. False)" "length (fs_fds (fsys s)) + 3 \<le> fs_maxfd (fsys s)"
  shows "\<exists>s'. backup_before_write E fd s = Some s' \<and> file_open E fd p bak cs pos 1 s' \<and> same_rest s s' \<and>
     safe_copy bak cs x (fsys s') \<and>
     (\<forall>q. resolve q \<notin> {resolve bak, resolve cs} \<longrightarrow> file_content (fsys s') q = file_content (fsys s) q)"
proof -
  have fo: "0 < fd" "fd < int MaxPersHandle" "mutexes_free s" "on_file fd p (fsys s) pos" "fs_wf (fsys s)"
    "backupPath (file_entry fd s) = bak" "csumPath (file_entry fd s) = cs" "backupCreated (file_entry fd s) = 0"
    using o by (simp_all add: file_open_def)
  obtain n where n: "get_fd (fsys s) fd = Some \<lparr>of_ino = n, of_pos = pos, of_read = True, of_write = True\<rparr>"
    "fs_names (fsys s) (resolve p) = Some (Reg n)" using fo(4) by (auto simp: on_file_def)
  have fx: "fs_data (fsys s) n = x" using x n(2) by (simp add: file_content_def)
  let ?c = "csum_of x"
  obtain g where g: "pclCreateBackup E bak fd cs ?c (fsys s) = Some (int (length x), g)" "backup_made (fsys s) bak cs ?c x g"
    using pclCreateBackup_made [OF fo(5) u n(1) _ _ dist rdy, of ?c] n(2) fx by auto
  let ?h = "hnd s\<lparr>gFileHandleArray := (gFileHandleArray (hnd s))(nat fd := (file_entry fd s)\<lparr>backupCreated := 1\<rparr>)\<rparr>"
  let ?s = "s\<lparr>fsys := g, hnd := ?h\<rparr>"
  have "backup_before_write E fd s = Some ?s"
    using pclCalcCrc32Csum_open [OF n(1)] fx g(1) fo get_file_entry [OF fo(1-3)]
    by (simp add: backup_before_write_def)
  moreover have "on_file fd p g pos"
    using g(2) n dist by (simp add: on_file_def backup_made_def)
  then have "file_open E fd p bak cs pos 1 ?s"
    using o g(2) by (simp add: file_open_def mutexes_free_def file_entry_def backup_made_def)
  moreover have "same_rest s ?s"
    by (rule same_restI [where f = g and h = ?h]) (use g(2) in \<open>simp_all add: backup_made_def\<close>)
  ultimately show ?thesis
    using g(2) dist by (intro exI [of _ ?s]) (auto simp: safe_copy_def backup_made_def)
qed

text \<open>One write, with the backup before it or after it has been made.\<close>

lemma first_write:
  assumes o: "file_open E fd p bak cs pos 0 s" and run: "consts_ok E" "initialized s" "access_permitted s"
    and b: "distinct [resolve p, resolve bak, resolve cs]" "backup_ready E (fsys s) bak cs"
      "file_content (fsys s) p = Some x" "fs_denied (fsys s) = (\<lambda>_ _. False)"
      "length (fs_fds (fsys s)) + 3 \<le> fs_maxfd (fsys s)"
  shows "\<exists>s'. pclFileWriteData E fd bs (int (length bs)) s = Some (int (length bs), s') \<and>
     file_open E fd p bak cs (pos + length bs) 1 s' \<and> same_rest s s' \<and> safe_copy bak cs x (fsys s') \<and>
     file_content (fsys s') p = Some (write_at pos bs x)"
proof -
  obtain t where t: "backup_before_write E fd s = Some t" "file_open E fd p bak cs pos 1 t" "same_rest s t"
     "safe_copy bak cs x (fsys t)" "file_content (fsys t) p = Some x"
    using backup_step [OF o b] b(1,3) by auto
  show ?thesis
    using write_after_backup [OF t(2), of bs] t write_unfold [OF o run] same_rest_trans [OF t(3)] b(1)
    by (auto simp: safe_copy_def)
qed

lemma later_write:
  assumes o: "file_open E fd p bak cs pos 1 s" and run: "consts_ok E" "initialized s" "access_permitted s"
  shows "\<exists>s'. pclFileWriteData E fd bs (int (length bs)) s = Some (int (length bs), s') \<and>
     file_open E fd p bak cs (pos + length bs) 1 s' \<and> same_rest s s' \<and>
     file_content (fsys s') = (\<lambda>q. if resolve q = resolve p
        then Some (write_at pos bs (the (file_content (fsys s) p))) else file_content (fsys s) q)"
proof -
  have "get_file_backup_status fd (hnd s) = Some 1" using o by (simp add: file_open_def get_file_entry)
  then have "backup_before_write E fd s = Some s" by (simp add: backup_before_write_def)
  then show ?thesis using write_after_backup [OF o, of bs] write_unfold [OF o run] by simp
qed

text \<open>A client that writes one buffer after the other.\<close>

fun file_writes :: "('w, 'e) perscom_scheme \<Rightarrow> int \<Rightarrow> u8 list list \<Rightarrow> 'w pcl \<Rightarrow> 'w pcl option" where
  "file_writes E fd [] s = Some s"
| "file_writes E fd (b # bs) s = Option.bind (pclFileWriteData E fd b (int (length b)) s) (\<lambda>(_, s). file_writes E fd bs s)"

fun contents_after :: "nat \<Rightarrow> u8 list list \<Rightarrow> u8 list \<Rightarrow> u8 list" where
  "contents_after pos [] x = x"
| "contents_after pos (b # bs) x = contents_after (pos + length b) bs (write_at pos b x)"

lemma later_writes:
  assumes "file_open E fd p bak cs pos 1 s" and "consts_ok E" and "initialized s" and "access_permitted s"
    and "distinct [resolve p, resolve bak, resolve cs]" and "safe_copy bak cs x (fsys s)" and "file_content (fsys s) p = Some y"
  shows "\<exists>s'. file_writes E fd bs s = Some s' \<and> file_open E fd p bak cs (pos + length (concat bs)) 1 s' \<and> same_rest s s' \<and>
     safe_copy bak cs x (fsys s') \<and> file_content (fsys s') p = Some (contents_after pos bs y)"
  using assms
proof (induction bs arbitrary: s pos y)
  case Nil
  have "same_rest s s" by (rule same_restI [where f = "fsys s" and h = "hnd s"]) simp_all
  then show ?case using Nil by simp
next
  case (Cons b bs)
  obtain t where t: "pclFileWriteData E fd b (int (length b)) s = Some (int (length b), t)"
     "file_open E fd p bak cs (pos + length b) 1 t" "same_rest s t" "safe_copy bak cs x (fsys t)"
     "file_content (fsys t) p = Some (write_at pos b y)"
    using later_write [OF Cons.prems(1-4), of b] Cons.prems(5-7) by (auto simp: safe_copy_def)
  have run: "initialized t" "access_permitted t" using same_rest_run [OF t(3)] Cons.prems(3,4) by simp_all
  obtain u where "file_writes E fd bs t = Some u" "file_open E fd p bak cs (pos + length b + length (concat bs)) 1 u"
     "same_rest t u" "safe_copy bak cs x (fsys u)" "file_content (fsys u) p = Some (contents_after (pos + length b) bs (write_at pos b y))"
    using Cons.IH [OF t(2) Cons.prems(2) run Cons.prems(5) t(4,5)] by blast
  then show ?case using t(1) same_rest_trans [OF t(3)] by (auto simp: add.assoc)
qed

section \<open>Opening\<close>

text \<open>The resource is configured as a file that may be read and written, and it is not on the blacklist; \<open>p\<close>, \<open>bak\<close> and
  \<open>cs\<close> are the paths of the file, its backup and its checksum.\<close>

definition protected_file ::
  "('w, 'e) perscom_scheme \<Rightarrow> 'w rct_view \<Rightarrow> u32 \<Rightarrow> string \<Rightarrow> u32 \<Rightarrow> u32 \<Rightarrow> config_key \<Rightarrow> string \<Rightarrow> string \<Rightarrow> string
     \<Rightarrow> 'w pcl \<Rightarrow> bool" where
  "protected_file E R lid rid user seat ck p bak cs s \<longleftrightarrow>
     lid < 0x80000000 \<and> found_entry R lid rid s = Some ck \<and> rtype ck = PersistenceResourceType_file E \<and>
     storage ck \<noteq> PersistenceStorage_custom E \<and> permission ck = PersistencePermission_ReadWrite E \<and>
     path_for E (gAppId s) (key_info lid user seat ck) rid [] [] = p \<and> backup_names E ck p = Some (bak, cs) \<and>
     (\<exists>name. get_raw_string E (DbKeyMaxLen E) (key_text E lid rid user seat) = Some name \<and>
        pclBackupNeeded name s = Some CREATE_BACKUP)"

lemma file_context_ready:
  assumes "kv_lawful E D R" and "protected_file E R lid rid user seat ck p bak cs s"
  shows "file_context E junk lid rid user seat s =
     Some ((0, key_info lid user seat ck, key_text E lid rid user seat, p), s)"
proof -
  have l: "rct_law E R" "consts_ok E" using assms(1) by (simp_all add: kv_lawful_def)
  let ?i = "\<lparr>context_of = \<lparr>ldbid = lid, user_no = user, seat_no = seat\<rparr>, configKey = junk\<rparr>"
  show ?thesis
    using get_db_context_found [OF l(1), of ?i rid s ck ResIsFile "[]" "[]"] assms(2) l(2)
    by (auto simp: protected_file_def file_context_def key_text_def key_for_def key_info_def consts_ok_def Let_def)
qed

text \<open>Entering the descriptor in the tables.\<close>

lemma register_fd_ok:
  assumes "0 < h" and "h < int MaxPersHandle" and "mutexes_free s" and "backup_names E ck p = Some (bak, cs)"
  shows "\<exists>s'. register_fd E h perm bak cs w s = Some (h, s') \<and> s' = s\<lparr>hnd := hnd s'\<rparr> \<and> mutexes_free s' \<and>
     file_entry h s' = \<lparr>fh_permission = perm, backupCreated = w, cacheStatus = - 1, backupPath = bak, csumPath = cs, filePath = None\<rparr> \<and>
     gOpenFdArray (hnd s') = (gOpenFdArray (hnd s))(nat h := gOpenFdArray (hnd s) (nat h) + 1)"
proof -
  have "length bak < DbPathMaxLen E" "length cs < DbPathMaxLen E"
    using assms(4) by (auto simp: backup_names_def snprintf_def Let_def split: if_splits)
  then show ?thesis using assms(1-3)
    by (simp add: register_fd_def set_file_handle_data_def strcpy_path_def set_file_backup_status_def add_open_fd_def
        mutexes_free_def file_entry_def rd_in wr_in)
qed

lemma opened_file_open:
  assumes v: "opened_on (fsys s) p O_RDWR h f'" and max: "fs_maxfd (fsys s) \<le> MaxPersHandle" and m: "mutexes_free s"
    and b: "backup_names E ck p = Some (bak, cs)"
  shows "\<exists>s'. register_fd E h (PersistencePermission_ReadWrite E) bak cs w (s\<lparr>fsys := f'\<rparr>) = Some (h, s') \<and> same_rest s s' \<and>
     file_open E h p bak cs 0 w s' \<and> fsys s' = f' \<and> cacheStatus (file_entry h s') = - 1 \<and>
     gOpenFdArray (hnd s') = (gOpenFdArray (hnd s))(nat h := gOpenFdArray (hnd s) (nat h) + 1)"
proof -
  have h: "0 < h" "h < int MaxPersHandle" using v max by (simp_all add: opened_on_def)
  have mf: "mutexes_free (s\<lparr>fsys := f'\<rparr>)" using m by (simp add: mutexes_free_def)
  obtain s' where s': "register_fd E h (PersistencePermission_ReadWrite E) bak cs w (s\<lparr>fsys := f'\<rparr>) = Some (h, s')"
     "s' = s\<lparr>fsys := f'\<rparr>\<lparr>hnd := hnd s'\<rparr>" "mutexes_free s'"
     "file_entry h s' = \<lparr>fh_permission = PersistencePermission_ReadWrite E, backupCreated = w, cacheStatus = - 1,
        backupPath = bak, csumPath = cs, filePath = None\<rparr>"
     "gOpenFdArray (hnd s') = (gOpenFdArray (hnd s))(nat h := gOpenFdArray (hnd s) (nat h) + 1)"
    using register_fd_ok [OF h mf b] by auto
  have f: "fsys s' = f'" by (subst s'(2)) simp
  have "on_file h p (fsys s') 0" using v f by (auto simp: on_file_def opened_on_def desc_def)
  then have "file_open E h p bak cs 0 w s'" using v s'(3,4) f h by (simp add: file_open_def opened_on_def)
  moreover have "same_rest s s'"
    by (rule same_restI [where f = f' and h = "hnd s'"]) (use s'(2) v in \<open>simp_all add: opened_on_def\<close>)
  ultimately show ?thesis using s'(1,4,5) f by auto
qed

text \<open>When there was nothing to check, the file is opened.\<close>

lemma nothing_open:
  assumes t: "three_files f p bak cs" and g: "nothing f g" and n: "fs_names f (resolve p) = Some (Reg n)"
  shows "\<exists>h g'. fs_open p m False False g = (h, g') \<and> h \<noteq> - 1 \<and> opened_on f p m h g' \<and> file_content g' = file_content f"
proof -
  have u: "fs_denied f = (\<lambda>_ _. False)" "length (fs_fds f) + 3 \<le> fs_maxfd f" "get_fd f 0 \<noteq> None"
    using t by (auto simp: three_files_def fs_usable_def)
  have sg: "fs_names g = fs_names f" "fs_denied g = fs_denied f" "fs_maxfd g = fs_maxfd f" "fs_data g = fs_data f"
    "get_fd g = get_fd f" "fs_next g = fs_next f" "length (fs_fds g) \<le> fs_maxfd f"
    using g t by (simp_all add: nothing_def same_names_def three_files_def fs_wf_def)
  have "get_fd g (int (length (fs_fds f))) = None" unfolding sg(5) by (simp add: get_fd_def)
  then have fr: "free_fd (fs_fds g) < fs_maxfd g" using free_fd_least [of g "length (fs_fds f)"] u(2) sg(3) by simp
  obtain i g' where o: "fs_open p m False False g = (int i, g')" "get_fd g (int i) = None" "fs_names g' = fs_names g"
     "fs_data g' = fs_data g" "fs_next g' = fs_next g" "fs_maxfd g' = fs_maxfd g" "fs_denied g' = fs_denied g"
     "get_fd g' = (get_fd g)(int i \<mapsto> desc n m)" "length (fs_fds g) \<le> fs_maxfd g \<longrightarrow> length (fs_fds g') \<le> fs_maxfd g"
    using fs_open_reg_free [OF _ _ fr, of p n m False False] n sg(1,2) u(1) by (auto simp: desc_def)
  have "same_names f g'" using o(3,5,6,7,9) sg by (simp add: same_names_def)
  moreover have "0 < int i" using o(2) u(3) sg(5) by (cases i) auto
  ultimately have "opened_on f p m (int i) g'" using opened_onI [OF t _ n] o(2,8) sg(5) by simp
  then show ?thesis using o(1) content_same [of g' f] o(3,4) sg by auto
qed

text \<open>The result of \<open>pclFileOpen\<close> when the file exists.\<close>

lemma pclFileOpen_checked:
  assumes E: "kv_lawful E D R" and run: "initialized s" "mutexes_free s"
    and pf: "protected_file E R lid rid user seat ck p bak cs s"
    and t: "three_files (fsys s) p bak cs" and max: "fs_maxfd (fsys s) \<le> MaxPersHandle"
    and x: "file_content (fsys s) p = Some x"
  shows "\<exists>h s'. pclFileOpen E junk lid rid user seat s = Some (h, s') \<and>
     (case verdict_of True (Some x) (file_content (fsys s) bak) (file_content (fsys s) cs) of
        Corrupt \<Rightarrow> h = - 1 \<and> file_content (fsys s') p = None
      | Restore_backup \<Rightarrow> file_open E h p bak cs 0 0 s' \<and> same_rest s s' \<and> cacheStatus (file_entry h s') = - 1 \<and>
          file_content (fsys s') = (\<lambda>q. if resolve q = resolve p then file_content (fsys s) bak else file_content (fsys s) q)
      | _ \<Rightarrow> file_open E h p bak cs 0 0 s' \<and> same_rest s s' \<and> cacheStatus (file_entry h s') = - 1 \<and>
          file_content (fsys s') = file_content (fsys s))"
proof -
  have c: "consts_ok E" using E by (simp add: kv_lawful_def)
  have pm: "pclGetPosixPermission E (permission ck) = O_RDWR" "permission ck \<noteq> PersistencePermission_ReadOnly E"
    "permission ck = PersistencePermission_ReadWrite E" and b: "backup_names E ck p = Some (bak, cs)"
    and ty: "is_file E (key_info lid user seat ck)"
    using pf c by (simp_all add: protected_file_def pclGetPosixPermission_def consts_ok_def is_file_def key_info_def)
  obtain name where nm: "get_raw_string E (DbKeyMaxLen E) (key_text E lid rid user seat) = Some name"
    "pclBackupNeeded name s = Some CREATE_BACKUP" using pf by (auto simp: protected_file_def)
  let ?v = "verdict_of True (Some x) (file_content (fsys s) bak) (file_content (fsys s) cs)"
  obtain h f where v: "pclVerifyConsistency p bak cs O_RDWR (fsys s) = Some (h, f)" "verdict_done (fsys s) p bak cs O_RDWR ?v h f"
    using verify_verdict [OF t, of O_RDWR] x by auto
  have ck: "configKey (key_info lid user seat ck) = ck" by (simp add: key_info_def)
  have opn: "pclFileOpen E junk lid rid user seat s =
      open_configured E (key_info lid user seat ck) rid (key_text E lid rid user seat) p bak cs s"
    using run(1) file_context_ready [OF E pf] ty b ck by (simp add: pclFileOpen_def)
  have chk: "check_before_open E ck (get_raw_string E (DbKeyMaxLen E) (key_text E lid rid user seat)) p bak cs e s
      = Some ((h, 0), s\<lparr>fsys := f\<rparr>)" for e
    using nm v(1) pm by (simp add: check_before_open_def)
  show ?thesis
  proof (cases ?v)
    case Corrupt
    then have "h = - 1" "file_content f p = None" using v(2) by (simp_all add: verdict_done_def)
    then show ?thesis using opn chk Corrupt ck by (simp add: open_configured_def Let_def)
  next
    case Nothing_to_check
    then have n: "h = 0" "nothing (fsys s) f" using v(2) by (simp_all add: verdict_done_def)
    obtain i where i: "fs_names (fsys s) (resolve p) = Some (Reg i)" using x by (auto simp: file_content_reg)
    obtain k g where g: "fs_open p O_RDWR False False f = (k, g)" "k \<noteq> - 1" "opened_on (fsys s) p O_RDWR k g"
       "file_content g = file_content (fsys s)"
      using nothing_open [OF t n(2) i] by blast
    show ?thesis using opened_file_open [OF g(3) max run(2) b, of 0] Nothing_to_check opn chk g n(1) ck pm
      by (auto simp: open_configured_def on_fs_def Let_def)
  next
    case Keep_original
    then have o: "opened_on (fsys s) p O_RDWR h f" "file_content f = file_content (fsys s)"
      using v(2) by (simp_all add: verdict_done_def)
    then have "0 < h" by (simp add: opened_on_def)
    then show ?thesis using opened_file_open [OF o(1) max run(2) b, of 0] Keep_original opn chk o(2) ck pm
      by (auto simp: open_configured_def Let_def)
  next
    case Restore_backup
    then have o: "opened_on (fsys s) p O_RDWR h f"
       "file_content f = (\<lambda>q. if resolve q = resolve p then file_content (fsys s) bak else file_content (fsys s) q)"
      using v(2) by (simp_all add: verdict_done_def)
    then have "0 < h" by (simp add: opened_on_def)
    then show ?thesis using opened_file_open [OF o(1) max run(2) b, of 0] Restore_backup opn chk o(2) ck pm
      by (auto simp: open_configured_def Let_def)
  qed
qed

section \<open>A file for the witnesses\<close>

text \<open>The resource \<open>track\<close> of user 1 on seat 1, local and cached, on a file system that holds it.\<close>

definition track_path :: string where "track_path = ''/Data/mnt-c/app/user/1/seat/1/track''"
definition track_bak :: string where "track_bak = ''/Data/mnt-backup/app/user/1/seat/1/track~''"
definition track_cs :: string where "track_cs = ''/Data/mnt-backup/app/user/1/seat/1/track~.crc''"
definition track_config :: config_key where "track_config = (mem_config 0 0)\<lparr>rtype := 1\<rparr>"

definition track_fs :: fs where
  "track_fs = demo_fs\<lparr>fs_maxfd := 128,
     fs_names := [[''Data''] \<mapsto> Dir, [''Data'', ''mnt-c'', ''app'', ''user'', ''1'', ''seat'', ''1'', ''track''] \<mapsto> Reg 1]\<rparr>"

definition track_state :: "mem_world pcl" where
  "track_state = demo_state\<lparr>gAppId := ''app'', fsys := track_fs,
     hnd := handle_init\<lparr>gFileHandleArray := (\<lambda>_. \<lparr>fh_permission = 0, backupCreated = 0, cacheStatus = - 1,
       backupPath = track_bak, csumPath = track_cs, filePath = None\<rparr>)\<rparr>\<rparr>"

lemma track_resolve:
  "resolve track_path = [''Data'', ''mnt-c'', ''app'', ''user'', ''1'', ''seat'', ''1'', ''track'']"
  "resolve track_bak = [''Data'', ''mnt-backup'', ''app'', ''user'', ''1'', ''seat'', ''1'', ''track~'']"
  "resolve track_cs = [''Data'', ''mnt-backup'', ''app'', ''user'', ''1'', ''seat'', ''1'', ''track~.crc'']"
  by (simp_all add: resolve_def track_path_def track_bak_def track_cs_def)

lemma track_state_sel [simp]:
  "fsys track_state = track_fs" "gAppId track_state = ''app''" "world track_state = demo_world"
  "gResourceOpen track_state = (\<lambda>_. 1)" "gResource_table track_state = (\<lambda>_. 7)" "gRb_tree_bl track_state = None"
  by (simp_all add: track_state_def demo_state_def pcl_start_def)

lemma track_fds: "get_fd track_fs = get_fd demo_fs"
  by (simp add: track_fs_def get_fd_def fun_eq_iff)

lemma track_wf: "fs_wf track_fs"
proof -
  let ?r = "[''Data'', ''mnt-c'', ''app'', ''user'', ''1'', ''seat'', ''1'', ''track'']"
  have "fs_next track_fs = 2" "length (fs_fds track_fs) \<le> fs_maxfd track_fs"
    by (simp_all add: track_fs_def demo_fs_def)
  moreover have "fs_names track_fs r = Some (Reg n) \<longleftrightarrow> r = ?r \<and> n = 1" for r n
    by (simp add: track_fs_def) blast
  moreover have "of_ino d < 2" if "get_fd track_fs k = Some d" for k d
    using that demo_fds [of k] by (auto simp: track_fds split: if_splits)
  ultimately show ?thesis by (simp add: fs_wf_def)
qed

lemma track_content: "file_content track_fs track_path = Some (bytes ''hello'')"
  "file_content track_fs track_bak = None" "file_content track_fs track_cs = None"
  by (simp_all add: file_content_def track_resolve) (simp_all add: track_fs_def demo_fs_def)

lemma track_distinct: "distinct [resolve track_path, resolve track_bak, resolve track_cs]"
  by (simp add: track_resolve)

lemma track_usable: "fs_denied track_fs = (\<lambda>_ _. False)" "length (fs_fds track_fs) + 3 \<le> fs_maxfd track_fs"
  by (simp_all add: track_fs_def demo_fs_def)

lemma track_three: "three_files track_fs track_path track_bak track_cs"
  using track_wf track_usable track_distinct demo_fds
  by (simp add: three_files_def fs_usable_def track_fds) (simp add: track_resolve track_fs_def)

lemma track_backup_ready: "backup_ready mem_env track_fs track_bak track_cs"
proof -
  have "path_ready mem_env track_fs track_bak"
    unfolding path_ready_def track_resolve
    by (auto simp: track_bak_def track_fs_def less_Suc_eq numeral_eq_Suc)
  then show ?thesis by (simp add: backup_ready_def track_resolve) (simp add: track_fs_def)
qed

lemma track_run: "initialized track_state" "access_permitted track_state" "mutexes_free track_state"
  by (simp_all add: initialized_def access_permitted_def isAccessLocked_def track_state_def demo_state_def pcl_start_def
      mutexes_free_def handle_init_def)

lemma track_open: "file_open mem_env 3 track_path track_bak track_cs 0 0 track_state"
  using track_run(3) track_wf demo_fds [of 3]
  by (simp add: file_open_def on_file_def track_fds track_resolve desc_def c_const file_entry_def)
    (simp add: track_state_def track_fs_def)

lemma track_root: "PERS_ORG_ROOT_PATH mem_env = ''/Data''"
  by (simp add: mem_env_def)

lemma track_protected:
  "protected_file mem_env (\<lambda>w h. mem_rct w) 0xFF ''track'' 1 1 track_config track_path track_bak track_cs track_state"
proof -
  have k: "key_text mem_env 0xFF ''track'' 1 1 = ''/user/1/seat/1/track''"
    by (simp add: key_text_def db_key_text_def fmt_d_def digits.simps hex_char_def snprintf_def)
  have "pclBackupNeeded ''/track'' track_state = Some CREATE_BACKUP"
    using pclCrc32_bytes [of 0 "bytes ''/track''"]
    by (simp add: pclBackupNeeded_def need_backup_key_def)
  moreover have "get_raw_string mem_env 128 ''/user/1/seat/1/track'' = Some ''/track''"
    by (simp add: get_raw_string_def Let_def numeral_eq_Suc)
  moreover have "path_for mem_env ''app'' (key_info 0xFF 1 1 track_config) ''track'' [] [] = track_path"
    using k by (simp add: path_for_def get_db_path_and_key_def print_path_def key_info_def track_config_def mem_config_def
      gLocalCachePathKey_def CACHEPREFIX_def track_path_def key_text_def track_root) (simp add: snprintf_def)
  moreover have "backup_names mem_env track_config track_path = Some (track_bak, track_cs)"
    by (simp add: backup_names_def track_config_def gCPathPrefixSize_def CACHEPREFIX_def gBackupPrefix_def gBackupPostfix_def
      gBackupCsPostfix_def snprintf_def track_path_def track_bak_def track_cs_def track_root)
  ultimately show ?thesis using k
    by (auto simp: protected_file_def found_entry_def demo_world_def) (simp_all add: track_config_def)
qed

section \<open>Properties\<close>

text \<open>C15: opening an existing file that is configured readable and writable and is not on the blacklist checks it
  first, and the result depends on the contents of the file, its backup and its checksum as \<open>verdict_of\<close>
  tells: either -1 is returned and the file is gone, or a handle is returned on which the file is open for
  writing with no backup made yet, and the file holds its own content or that of its backup. The cache
  status of the handle is always -1.\<close>

theorem file_open_decides:
  assumes "kv_lawful E D R" and "initialized s" and "mutexes_free s"
    and "protected_file E R lid rid user seat ck p bak cs s"
    and "three_files (fsys s) p bak cs" and "fs_maxfd (fsys s) \<le> MaxPersHandle"
    and "file_content (fsys s) p = Some x"
  shows "\<exists>h s'. pclFileOpen E junk lid rid user seat s = Some (h, s') \<and>
     (case verdict_of True (Some x) (file_content (fsys s) bak) (file_content (fsys s) cs) of
        Corrupt \<Rightarrow> h = - 1 \<and> file_content (fsys s') p = None
      | Restore_backup \<Rightarrow> file_open E h p bak cs 0 0 s' \<and> same_rest s s' \<and> cacheStatus (file_entry h s') = - 1 \<and>
          file_content (fsys s') = (\<lambda>q. if resolve q = resolve p then file_content (fsys s) bak else file_content (fsys s) q)
      | _ \<Rightarrow> file_open E h p bak cs 0 0 s' \<and> same_rest s s' \<and> cacheStatus (file_entry h s') = - 1 \<and>
          file_content (fsys s') = file_content (fsys s))"
  using assms by (rule pclFileOpen_checked)

theorem file_open_decides_witness:
  "\<exists>h s'. pclFileOpen mem_env undefined 0xFF ''track'' 1 1 track_state = Some (h, s') \<and>
     file_content (fsys s') track_path = Some (bytes ''hello'')"
proof -
  have m: "fs_maxfd (fsys track_state) \<le> MaxPersHandle" by (simp add: track_fs_def c_const)
  have t: "three_files (fsys track_state) track_path track_bak track_cs" using track_three by simp
  have x: "file_content (fsys track_state) track_path = Some (bytes ''hello'')" using track_content(1) by simp
  show ?thesis
    using file_open_decides [OF mem_env_lawful track_run(1,3) track_protected t m x, of undefined] track_content
    by (auto simp: verdict_of_def)
qed



lemma content_removed_any:
  assumes "fs_denied g = (\<lambda>_ _. False)"
  shows "file_content (snd (fs_remove q g)) = (\<lambda>r. if resolve r = resolve q then None else file_content g r)"
  using assms by (auto simp: file_content_def fs_remove_names fun_upd_def fun_eq_iff split: option.split fs_node.split)

lemma remove_missing: "file_content g q = None \<Longrightarrow> fs_remove q g = (- 1, g)"
  by (auto simp: fs_remove_def file_content_def split: option.splits fs_node.splits)

definition close_entry :: "int \<Rightarrow> handle_state \<Rightarrow> handle_state" where
  "close_entry fd h = h\<lparr>gOpenFdArray := (gOpenFdArray h)(nat fd := gOpenFdArray h (nat fd) - 1)\<rparr>"

lemma close_unfold:
  assumes "0 < fd" "fd < int MaxPersHandle" "mutexes_free s" "fh_permission (file_entry fd s) = PersistencePermission_ReadWrite E"
    and "consts_ok E" and "initialized s"
  shows "pclFileClose E fd s = Some (on_fs (fs_close fd)
    (s\<lparr>fsys := snd (fs_remove (csumPath (file_entry fd s)) (snd (fs_remove (backupPath (file_entry fd s)) (fsys s)))),
       hnd := close_entry fd (hnd s)\<rparr>))"
  using assms by (simp add: pclFileClose_def get_file_entry consts_ok_def on_fs_def add_open_fd_def rd_in wr_in close_entry_def
      split: prod.split)

text \<open>The first close.\<close>

lemma pclFileClose_removes:
  assumes "consts_ok E" and "file_open E fd p bak cs pos status s" and "initialized s"
    and "fs_denied (fsys s) = (\<lambda>_ _. False)"
  defines "g \<equiv> snd (fs_close fd (snd (fs_remove cs (snd (fs_remove bak (fsys s))))))"
  shows "pclFileClose E fd s = Some (0, s\<lparr>fsys := g, hnd := close_entry fd (hnd s)\<rparr>)"
    and "file_content g = (\<lambda>q. if resolve q \<in> {resolve bak, resolve cs} then None else file_content (fsys s) q)"
proof -
  obtain d where d: "get_fd (fsys s) fd = Some d" using assms(2) by (auto simp: file_open_def on_file_def)
  have fo: "0 < fd" "fd < int MaxPersHandle" "mutexes_free s" "backupPath (file_entry fd s) = bak"
    "csumPath (file_entry fd s) = cs" "fh_permission (file_entry fd s) = PersistencePermission_ReadWrite E"
    using assms(2) by (simp_all add: file_open_def)
  let ?f = "snd (fs_remove cs (snd (fs_remove bak (fsys s))))"
  show "pclFileClose E fd s = Some (0, s\<lparr>fsys := g, hnd := close_entry fd (hnd s)\<rparr>)"
    using close_unfold [OF fo(1-3,6) assms(1,3)] d fo(4,5) by (simp add: on_fs_def fs_close_def g_def)
  have "file_content g = file_content ?f" unfolding g_def by (rule content_same) simp_all
  then show "file_content g = (\<lambda>q. if resolve q \<in> {resolve bak, resolve cs} then None else file_content (fsys s) q)"
    using content_removed_any [of "fsys s" bak] content_removed_any [of "snd (fs_remove bak (fsys s))" cs] assms(4)
    by (auto simp: fun_eq_iff)
qed

text \<open>C30: closing an open file returns 0, closes the descriptor, removes the backup and the checksum and leaves
  every other file as it is. The entry in the table of file handles stays: a second close of the handle is
  not refused, removes the two files again (a file opened later under the same number may have put them
  there), and takes the flag of open files down to one below closed, so that the file opened next
  on this number counts as closed at a shutdown.\<close>

theorem file_close:
  assumes "consts_ok E" and "file_open E fd p bak cs pos status s" and "initialized s"
    and "fs_denied (fsys s) = (\<lambda>_ _. False)"
  shows "\<exists>s1 s2. pclFileClose E fd s = Some (0, s1) \<and> get_fd (fsys s1) = (get_fd (fsys s))(fd := None) \<and>
     file_content (fsys s1) = (\<lambda>q. if resolve q \<in> {resolve bak, resolve cs} then None else file_content (fsys s) q) \<and>
     gOpenFdArray (hnd s1) (nat fd) = gOpenFdArray (hnd s) (nat fd) - 1 \<and>
     pclFileClose E fd s1 = Some (- 1, s2) \<and> fsys s2 = fsys s1 \<and>
     gOpenFdArray (hnd s2) (nat fd) = gOpenFdArray (hnd s) (nat fd) - 2"
proof -
  have fo: "0 < fd" "fd < int MaxPersHandle" "mutexes_free s" "backupPath (file_entry fd s) = bak"
    "csumPath (file_entry fd s) = cs" "fh_permission (file_entry fd s) = PersistencePermission_ReadWrite E"
    using assms(2) by (simp_all add: file_open_def)
  let ?g = "snd (fs_close fd (snd (fs_remove cs (snd (fs_remove bak (fsys s))))))"
  let ?s1 = "s\<lparr>fsys := ?g, hnd := close_entry fd (hnd s)\<rparr>"
  let ?s2 = "?s1\<lparr>hnd := close_entry fd (close_entry fd (hnd s))\<rparr>"
  note c1 = pclFileClose_removes(1) [OF assms] and ct = pclFileClose_removes(2) [OF assms]
  have gone: "fs_remove q ?g = (- 1, ?g)" if "q \<in> {bak, cs}" for q
    by (rule remove_missing) (use ct that in auto)
  have fe: "file_entry fd ?s1 = file_entry fd s" by (simp add: file_entry_def close_entry_def)
  have m1: "mutexes_free ?s1" "fh_permission (file_entry fd ?s1) = PersistencePermission_ReadWrite E" "initialized ?s1"
    using fo(3,6) assms(3) fe by (simp_all add: mutexes_free_def close_entry_def initialized_def)
  have cl: "fs_close fd ?g = (- 1, ?g)" by (simp add: fs_close_def [of fd ?g])
  have c2: "pclFileClose E fd ?s1 = Some (- 1, ?s2)"
    unfolding close_unfold [OF fo(1,2) m1(1,2) assms(1) m1(3)] fe fo(4,5) using gone cl by (simp add: on_fs_def)
  show ?thesis
    by (rule exI [of _ ?s1], rule exI [of _ ?s2]) (use c1 c2 ct in \<open>simp add: close_entry_def\<close>)
qed

theorem file_close_witness:
  "\<exists>s1 s2. pclFileClose mem_env 3 track_state = Some (0, s1) \<and> pclFileClose mem_env 3 s1 = Some (- 1, s2) \<and>
     gOpenFdArray (hnd s2) 3 = - 2"
proof -
  have c: "consts_ok mem_env" using mem_env_lawful by (simp add: kv_lawful_def)
  have "fs_denied (fsys track_state) = (\<lambda>_ _. False)" using track_usable by simp
  moreover have "gOpenFdArray (hnd track_state) 3 = 0" by (simp add: track_state_def handle_init_def)
  ultimately show ?thesis using file_close [OF c track_open track_run(1)] by auto
qed

lemma write_at_read: "take (length bs) (drop pos (write_at pos bs d)) = bs"
  by (simp add: write_at_def)


text \<open>The state of the witnesses after the backup.\<close>

definition track_written :: "mem_world pcl" where
  "track_written = track_state\<lparr>hnd := handle_init\<lparr>gFileHandleArray := (\<lambda>_. \<lparr>fh_permission = 0, backupCreated = 1,
     cacheStatus = - 1, backupPath = track_bak, csumPath = track_cs, filePath = None\<rparr>)\<rparr>\<rparr>"

lemma track_written_open: "file_open mem_env 3 track_path track_bak track_cs 0 1 track_written"
  using track_open track_wf by (simp add: file_open_def track_written_def mutexes_free_def handle_init_def file_entry_def)

lemma track_written_run: "initialized track_written" "access_permitted track_written"
  using track_run(1,2) by (simp_all add: track_written_def initialized_def access_permitted_def isAccessLocked_def)


text \<open>A write on a handle that is not marked as cached.\<close>

lemma unsynced_write:
  assumes o: "file_open E fd p bak cs pos 1 s" and nc: "cacheStatus (file_entry fd s) \<noteq> 1"
    and run: "consts_ok E" "initialized s" "access_permitted s"
  shows "\<exists>g. pclFileWriteData E fd bs (int (length bs)) s = Some (int (length bs), s\<lparr>fsys := g\<rparr>) \<and>
     fs_disk g = fs_disk (fsys s) \<and> file_open E fd p bak cs (pos + length bs) 1 (s\<lparr>fsys := g\<rparr>)"
proof -
  have fo: "0 < fd" "fd < int MaxPersHandle" "mutexes_free s" "on_file fd p (fsys s) pos" "fs_wf (fsys s)"
    "backupCreated (file_entry fd s) = 1"
    using o by (simp_all add: file_open_def)
  obtain g where g: "fs_write fd bs (fsys s) = (int (length bs), g)" "on_file fd p g (pos + length bs)" "fs_wf g"
     "fs_disk g = fs_disk (fsys s)"
    using fs_write_on_file [OF fo(4,5), of bs] by blast
  have "backup_before_write E fd s = Some s"
    using get_file_entry(4) [OF fo(1-3)] fo(6) by (simp add: backup_before_write_def)
  then have "pclFileWriteData E fd bs (int (length bs)) s = Some (int (length bs), s\<lparr>fsys := g\<rparr>)"
    using write_unfold [OF o run] g(1) get_file_entry(5) [OF fo(1-3)] nc by (simp add: sys_write_def)
  moreover have "file_open E fd p bak cs (pos + length bs) 1 (s\<lparr>fsys := g\<rparr>)"
    using o g(2,3) by (simp add: file_open_def mutexes_free_def file_entry_def)
  ultimately show ?thesis using g(4) by blast
qed



text \<open>Before the initialisation every function of the file API returns its error and changes nothing;
  while access is locked, writing, seeking, mapping, unmapping and removing are refused without effect, but
  the lock does not stop reading, opening, closing or asking for the size.\<close>

theorem file_api_guards:
  "(\<not> initialized s \<longrightarrow>
      pclFileWriteData E fd b n s = Some (EPERS_NOT_INITIALIZED, s) \<and>
      pclFileReadData fd b n s = Some ((EPERS_NOT_INITIALIZED, b), s) \<and>
      pclFileSeek fd off wh s = (EPERS_NOT_INITIALIZED, s) \<and> pclFileClose E fd s = Some (EPERS_NOT_INITIALIZED, s) \<and>
      pclFileGetSize fd s = EPERS_NOT_INITIALIZED \<and> pclFileMapData n off fd s = Map_null \<and>
      pclFileUnmapData rc s = EPERS_NOT_INITIALIZED \<and>
      pclFileOpen E junk lid rid user seat s = Some (EPERS_NOT_INITIALIZED, s) \<and>
      pclFileRemove E junk lid rid user seat s = Some (EPERS_NOT_INITIALIZED, s) \<and>
      pclFileCreatePath E junk lid rid user seat s = Some ((EPERS_NOT_INITIALIZED, None), s) \<and>
      pclFileReleasePath E fd s = Some (EPERS_NOT_INITIALIZED, s)) \<and>
   (initialized s \<longrightarrow> \<not> access_permitted s \<longrightarrow>
      pclFileWriteData E fd b n s = Some (EPERS_LOCKFS, s) \<and> pclFileSeek fd off wh s = (EPERS_LOCKFS, s) \<and>
      pclFileMapData n off fd s = Map_lockfs \<and> pclFileUnmapData rc s = EPERS_LOCKFS \<and>
      pclFileRemove E junk lid rid user seat s = Some (EPERS_LOCKFS, s)) \<and>
   (initialized s \<longrightarrow> (let t = pers_lock_access s in
      pclFileReadData fd b n t = map_option (\<lambda>(r, u). (r, u\<lparr>gLockAccess := gLockAccess t\<rparr>)) (pclFileReadData fd b n s) \<and>
      pclFileGetSize fd t = pclFileGetSize fd s))"
  by (auto simp: pclFileWriteData_def pclFileReadData_def pclFileSeek_def pclFileClose_def pclFileGetSize_def
      pclFileMapData_def pclFileUnmapData_def pclFileOpen_def pclFileRemove_def pclFileCreatePath_def
      pclFileReleasePath_def pers_lock_access_def initialized_def Let_def split: prod.split)

theorem file_api_guards_witness:
  "pclFileWriteData mem_env 3 [1] 1 (pcl_start mem_env mem_start) = Some (EPERS_NOT_INITIALIZED, pcl_start mem_env mem_start) \<and>
   pclFileSeek 3 0 0 (track_state\<lparr>gLockAccess := 1\<rparr>) = (EPERS_LOCKFS, track_state\<lparr>gLockAccess := 1\<rparr>)"
proof -
  have "\<not> initialized (pcl_start mem_env mem_start)" by (simp add: initialized_def pcl_start_def)
  moreover have "initialized (track_state\<lparr>gLockAccess := 1\<rparr>)" "\<not> access_permitted (track_state\<lparr>gLockAccess := 1\<rparr>)"
    using track_run(1) by (simp_all add: initialized_def access_permitted_def isAccessLocked_def)
  ultimately show ?thesis
    using file_api_guards [of "pcl_start mem_env mem_start" mem_env 3 "[1]" 1]
      file_api_guards [of "track_state\<lparr>gLockAccess := 1\<rparr>" mem_env 3 "[1]" 1] by simp
qed

end
