(* ===== verification/Shutdown.thy ===== *)
theory Shutdown
  imports Lifecycle Main_Loop File_Safety
begin

text \<open>
  What the shutdown of the library does and what it promises (\<open>process_prepare_shutdown\<close> in
  \<open>src/persistence_client_library_dbus_cmd.c\<close>, \<open>src/persistence_client_library.c\<close>): what is closed, what
  becomes of open files, the lock on the data, and the counter of initialisations.
\<close>

section \<open>What each step changes\<close>

lemma shutdown_files_keeps [simp]:
  "gLockAccess (shutdown_files c s) = gLockAccess s" "gCancelCounter (shutdown_files c s) = gCancelCounter s" "hnd (shutdown_files c s) = hnd s"
  "gShutdownMode (shutdown_files c s) = gShutdownMode s" "gPclInitialized (shutdown_files c s) = gPclInitialized s"
  "gPersCustomFuncs (shutdown_files c s) = gPersCustomFuncs s"
proof -
  let ?K = "\<lambda>u. (gLockAccess u, gCancelCounter u, hnd u, gShutdownMode u, gPclInitialized u, gPersCustomFuncs u)"
  have "?K (shutdown_files c s) = ?K s" unfolding shutdown_files_def
    by (rule fold_keeps [where I = "\<lambda>u. ?K u = ?K s"]) (simp_all add: shutdown_fd_def)
  then show "gLockAccess (shutdown_files c s) = gLockAccess s" "gCancelCounter (shutdown_files c s) = gCancelCounter s" "hnd (shutdown_files c s) = hnd s"
    "gShutdownMode (shutdown_files c s) = gShutdownMode s" "gPclInitialized (shutdown_files c s) = gPclInitialized s"
    "gPersCustomFuncs (shutdown_files c s) = gPersCustomFuncs s" by simp_all
qed

lemma rct_close_keeps [simp]:
  "gLockAccess (pers_rct_close_all E s) = gLockAccess s" "gCancelCounter (pers_rct_close_all E s) = gCancelCounter s" "hnd (pers_rct_close_all E s) = hnd s"
  "gShutdownMode (pers_rct_close_all E s) = gShutdownMode s" "gPclInitialized (pers_rct_close_all E s) = gPclInitialized s"
  "gPersCustomFuncs (pers_rct_close_all E s) = gPersCustomFuncs s" "fsys (pers_rct_close_all E s) = fsys s"
proof -
  let ?K = "\<lambda>u. (gLockAccess u, gCancelCounter u, hnd u, gShutdownMode u, gPclInitialized u, gPersCustomFuncs u, fsys u)"
  have "?K (pers_rct_close_all E s) = ?K s" unfolding pers_rct_close_all_def
    by (rule fold_keeps [where I = "\<lambda>u. ?K u = ?K s"])
      (auto simp: close_rct_def invalidate_resource_cfg_table_def split: option.split Option.bind_splits)
  then show "gLockAccess (pers_rct_close_all E s) = gLockAccess s" "gCancelCounter (pers_rct_close_all E s) = gCancelCounter s" "hnd (pers_rct_close_all E s) = hnd s"
    "gShutdownMode (pers_rct_close_all E s) = gShutdownMode s" "gPclInitialized (pers_rct_close_all E s) = gPclInitialized s"
    "gPersCustomFuncs (pers_rct_close_all E s) = gPersCustomFuncs s" "fsys (pers_rct_close_all E s) = fsys s" by simp_all
qed

lemma database_close_keeps [simp]:
  "gLockAccess (database_close_all E s) = gLockAccess s" "gCancelCounter (database_close_all E s) = gCancelCounter s" "hnd (database_close_all E s) = hnd s"
  "gShutdownMode (database_close_all E s) = gShutdownMode s" "gPclInitialized (database_close_all E s) = gPclInitialized s"
  "gPersCustomFuncs (database_close_all E s) = gPersCustomFuncs s" "fsys (database_close_all E s) = fsys s"
  "gResource_table (database_close_all E s) = gResource_table s"
proof -
  let ?K = "\<lambda>u. (gLockAccess u, gCancelCounter u, hnd u, gShutdownMode u, gPclInitialized u, gPersCustomFuncs u, fsys u, gResource_table u)"
  have "?K (database_close_all E s) = ?K s" unfolding database_close_all_def
    by (rule fold_keeps [where I = "\<lambda>u. ?K u = ?K s"], rule fold_keeps [where I = "\<lambda>u. ?K u = ?K s"])
      (auto simp: close_database_def Let_def split: prod.split)
  then show "gLockAccess (database_close_all E s) = gLockAccess s" "gCancelCounter (database_close_all E s) = gCancelCounter s" "hnd (database_close_all E s) = hnd s"
    "gShutdownMode (database_close_all E s) = gShutdownMode s" "gPclInitialized (database_close_all E s) = gPclInitialized s"
    "gPersCustomFuncs (database_close_all E s) = gPersCustomFuncs s" "fsys (database_close_all E s) = fsys s"
    "gResource_table (database_close_all E s) = gResource_table s" by simp_all
qed

lemma unload_plugins_keeps [simp]:
  "gLockAccess (unload_plugins E s) = gLockAccess s" "hnd (unload_plugins E s) = hnd s"
  "gShutdownMode (unload_plugins E s) = gShutdownMode s" "gPclInitialized (unload_plugins E s) = gPclInitialized s"
  "fsys (unload_plugins E s) = fsys s" "gResource_table (unload_plugins E s) = gResource_table s"
  "gHandlesDBCreated (unload_plugins E s) = gHandlesDBCreated s"
proof -
  let ?K = "\<lambda>u. (gLockAccess u, hnd u, gShutdownMode u, gPclInitialized u, fsys u, gResource_table u, gHandlesDBCreated u)"
  have "?K (unload_plugins E s) = ?K s" unfolding unload_plugins_def
    by (rule fold_keeps [where I = "\<lambda>u. ?K u = ?K s"])
      (auto simp: unload_plugin_def Let_def split: option.split prod.split)
  then show "gLockAccess (unload_plugins E s) = gLockAccess s" "hnd (unload_plugins E s) = hnd s"
    "gShutdownMode (unload_plugins E s) = gShutdownMode s" "gPclInitialized (unload_plugins E s) = gPclInitialized s"
    "fsys (unload_plugins E s) = fsys s" "gResource_table (unload_plugins E s) = gResource_table s"
    "gHandlesDBCreated (unload_plugins E s) = gHandlesDBCreated s" by simp_all
qed

section \<open>What each step achieves\<close>

text \<open>The files: exactly the flagged descriptors are closed, no content changes.\<close>

lemma close_fds:
  "get_fd (fsys (fold (shutdown_fd Shutdown_Full) is s)) k =
     (if 0 \<le> k \<and> nat k \<in> set is \<and> gOpenFdArray (hnd s) (nat k) = FileOpen then None else get_fd (fsys s) k)"
proof (induction "is" arbitrary: s)
  case Nil
  then show ?case by simp
next
  case (Cons i "is")
  have "hnd (shutdown_fd Shutdown_Full i s) = hnd s" by (simp add: shutdown_fd_def)
  moreover have "get_fd (fsys (shutdown_fd Shutdown_Full i s)) k =
      (if k = int i \<and> gOpenFdArray (hnd s) i = FileOpen then None else get_fd (fsys s) k)"
    by (auto simp: shutdown_fd_def fun_upd_def)
  ultimately show ?case using Cons.IH [of "shutdown_fd Shutdown_Full i s"] by (auto simp: nat_eq_iff)
qed

lemma shutdown_content: "file_content (fsys (shutdown_files c (s :: 'a pcl))) = file_content (fsys s)"
  unfolding shutdown_files_def
proof (rule fold_keeps [where I = "\<lambda>u. file_content (fsys u) = file_content (fsys s)"])
  fix i and u :: "'a pcl"
  assume "file_content (fsys u) = file_content (fsys s)"
  moreover have "file_content (snd (fs_close k g)) = file_content g" for k g by (rule content_same) simp_all
  ultimately show "file_content (fsys (shutdown_fd c i u)) = file_content (fsys s)" by (simp add: shutdown_fd_def)
qed simp

lemma rct_closed: "i < PrctDbTableSize \<Longrightarrow> gResource_table (pers_rct_close_all E s) i = - 1"
  unfolding pers_rct_close_all_def
proof (rule fold_establish [where I = "\<lambda>_. True" and x = i])
  fix u :: "'a pcl"
  assume "i < PrctDbTableSize"
  then show "gResource_table (close_rct E i u) i = - 1"
    by (simp add: close_rct_def get_resource_cfg_table_by_idx_def invalidate_resource_cfg_table_def rd_in wr_in)
next
  fix j and u :: "'a pcl"
  assume "gResource_table u i = - 1"
  then show "gResource_table (close_rct E j u) i = - 1"
    by (auto simp: close_rct_def invalidate_resource_cfg_table_def wr_def split: option.split Option.bind_splits if_splits)
qed simp_all

lemma databases_closed:
  assumes cl: "\<And>h w. 0 \<le> fst (persComDbClose E h w)" and i: "i < DbTableSize" and j: "j < PersistenceDB_LastEntry E"
  shows "gHandlesDBCreated (database_close_all E s) i j \<noteq> 1"
proof -
  have at: "gHandlesDBCreated (close_database E i j u) i j \<noteq> 1" for u
    using cl [of "gHandlesDB u i j" "world u"] by (auto simp: close_database_def Let_def split: prod.split)
  have keep: "gHandlesDBCreated (close_database E k l u) i j \<noteq> 1" if "gHandlesDBCreated u i j \<noteq> 1" for k l u
    using that by (auto simp: close_database_def Let_def split: prod.split)
  have keeps: "gHandlesDBCreated (fold (close_database E k) ls u) i j \<noteq> 1" if "gHandlesDBCreated u i j \<noteq> 1" for k ls u
    using fold_keeps [where I = "\<lambda>u. gHandlesDBCreated u i j \<noteq> 1" and f = "close_database E k" and ys = ls and s = u] keep that
    by blast
  have row: "gHandlesDBCreated (fold (close_database E i) [0..<PersistenceDB_LastEntry E] u) i j \<noteq> 1" for u
    using fold_establish [where I = "\<lambda>_. True" and P = "\<lambda>u. gHandlesDBCreated u i j \<noteq> 1" and f = "close_database E i"
        and x = j and xs = "[0..<PersistenceDB_LastEntry E]" and s = u] at keep j by auto
  show ?thesis unfolding database_close_all_def
    using fold_establish [where I = "\<lambda>_. True" and P = "\<lambda>u. gHandlesDBCreated u i j \<noteq> 1"
        and f = "\<lambda>i. fold (close_database E i) [0..<PersistenceDB_LastEntry E]" and x = i and xs = "[0..<DbTableSize]" and s = s]
      row keeps i by auto
qed

lemma plugins_unloaded:
  "i < PersCustomLib_LastEntry \<Longrightarrow> custom_plugin_deinit (gPersCustomFuncs (unload_plugins E s) i) = None"
  unfolding unload_plugins_def
proof (rule fold_establish [where I = "\<lambda>_. True" and x = i])
  fix u :: "'a pcl"
  show "custom_plugin_deinit (gPersCustomFuncs (unload_plugin E i u) i) = None"
    by (auto simp: unload_plugin_def forget_plugin_def Let_def split: option.split prod.split)
next
  fix j and u :: "'a pcl"
  assume "custom_plugin_deinit (gPersCustomFuncs u i) = None"
  then show "custom_plugin_deinit (gPersCustomFuncs (unload_plugin E j u) i) = None"
    by (auto simp: unload_plugin_def forget_plugin_def Let_def split: option.split prod.split)
qed simp_all

text \<open>On a partial shutdown the flagged files are brought to the medium and stay open.\<close>

lemma sync_fds:
  "let u = fold (shutdown_fd Shutdown_Partial) is s in
     get_fd (fsys u) = get_fd (fsys s) \<and> fs_data (fsys u) = fs_data (fsys s) \<and>
     (\<forall>n. fs_disk (fsys u) n =
        (if \<exists>i \<in> set is. gOpenFdArray (hnd s) i = FileOpen \<and> (\<exists>d. get_fd (fsys s) (int i) = Some d \<and> of_ino d = n)
         then fs_data (fsys s) n else fs_disk (fsys s) n))"
proof (induction "is" arbitrary: s)
  case Nil
  then show ?case by simp
next
  case (Cons i "is")
  let ?t = "shutdown_fd Shutdown_Partial i s"
  have "hnd ?t = hnd s" "get_fd (fsys ?t) = get_fd (fsys s)" by (simp_all add: shutdown_fd_def)
  moreover have "fs_data (fsys ?t) = fs_data (fsys s)"
     "fs_disk (fsys ?t) n = (if gOpenFdArray (hnd s) i = FileOpen \<and> (\<exists>d. get_fd (fsys s) (int i) = Some d \<and> of_ino d = n)
        then fs_data (fsys s) n else fs_disk (fsys s) n)" for n
    by (auto simp: shutdown_fd_def fs_fsync_def split: option.split)
  ultimately show ?case using Cons.IH [of ?t] by (auto simp: Let_def)
qed

section \<open>Closing everything\<close>

text \<open>C24: a full shutdown, with databases that close, takes the lock, closes exactly the descriptors that are marked
  as open files and no other, changes no content, and leaves nothing open: no configuration table, no
  database, no plugin that could be called to deinitialise again, no marked file, and the pool of handles
  as at the start.\<close>

theorem shutdown_closes_everything:
  assumes "mutexes_free s" and "\<And>h w. 0 \<le> fst (persComDbClose E h w)"
  shows "let s' = process_prepare_shutdown E Shutdown_Full s in
     gLockAccess s' = gLockAccess s + 1 \<and>
     get_fd (fsys s') = (\<lambda>k. if 0 \<le> k \<and> k < int MaxPersHandle \<and> gOpenFdArray (hnd s) (nat k) = FileOpen
                             then None else get_fd (fsys s) k) \<and>
     file_content (fsys s') = file_content (fsys s) \<and>
     (\<forall>i < PrctDbTableSize. gResource_table s' i = - 1) \<and>
     (\<forall>i < DbTableSize. \<forall>j < PersistenceDB_LastEntry E. gHandlesDBCreated s' i j \<noteq> 1) \<and>
     (\<forall>i < PersCustomLib_LastEntry. custom_plugin_deinit (gPersCustomFuncs s' i) = None) \<and>
     (\<forall>i. gOpenFdArray (hnd s') i \<noteq> FileOpen \<and> gOpenHandleArray (hnd s') i \<noteq> FileOpen) \<and>
     gHandleIdx (hnd s') = 1 \<and> gFreeHandleIdxHead (hnd s') = 0"
proof -
  let ?s = "pers_lock_access s"
  have l: "hnd ?s = hnd s" "fsys ?s = fsys s" by (simp_all add: pers_lock_access_def)
  have fd: "get_fd (fsys (shutdown_files Shutdown_Full ?s)) = (\<lambda>k. if 0 \<le> k \<and> k < int MaxPersHandle \<and>
      gOpenFdArray (hnd s) (nat k) = FileOpen then None else get_fd (fsys s) k)"
    unfolding shutdown_files_def close_fds l by (auto simp: fun_eq_iff c_const)
  show ?thesis using assms(1) fd shutdown_content [of Shutdown_Full ?s] l
    by (simp add: rct_closed databases_closed [OF assms(2)] plugins_unloaded process_prepare_shutdown_def Let_def close_all_persistence_handle_def mutexes_free_def
      pers_lock_access_def)
qed

theorem shutdown_closes_everything_witness:
  "gLockAccess (process_prepare_shutdown mem_env Shutdown_Full track_state) = 1 \<and>
   gResource_table (process_prepare_shutdown mem_env Shutdown_Full track_state) 3 = - 1"
proof -
  have "gLockAccess track_state = 0" by (simp add: track_state_def demo_state_def pcl_start_def)
  moreover have "0 \<le> fst (persComDbClose mem_env h w)" for h w by (simp add: mem_env_def)
  ultimately show ?thesis
    using shutdown_closes_everything [OF track_run(3), of mem_env] by (simp add: Let_def c_const)
qed

section \<open>Open files at a shutdown\<close>

lemma shutdown_keeps_content: "file_content (fsys (process_prepare_shutdown E c s)) = file_content (fsys s)"
  using shutdown_content [of c "pers_lock_access s"]
  by (simp add: process_prepare_shutdown_def Let_def) (simp add: pers_lock_access_def)

text \<open>The next open of the resource, in whatever state, with the three files as \<open>f\<close> has them, yields the content \<open>y\<close>.\<close>

definition next_open_yields ::
  "('w, 'e) perscom_scheme \<Rightarrow> 'w rct_view \<Rightarrow> string \<Rightarrow> string \<Rightarrow> string \<Rightarrow> fs \<Rightarrow> u8 list \<Rightarrow> bool" where
  "next_open_yields E R p bak cs f y \<longleftrightarrow>
     (\<forall>s junk lid rid user seat ck.
        protected_file E R lid rid user seat ck p bak cs s \<longrightarrow> initialized s \<longrightarrow> mutexes_free s \<longrightarrow>
        three_files (fsys s) p bak cs \<longrightarrow> fs_maxfd (fsys s) \<le> MaxPersHandle \<longrightarrow>
        file_content (fsys s) p = file_content f p \<longrightarrow> file_content (fsys s) bak = file_content f bak \<longrightarrow>
        file_content (fsys s) cs = file_content f cs \<longrightarrow>
        (\<exists>h s'. pclFileOpen E junk lid rid user seat s = Some (h, s') \<and> file_open E h p bak cs 0 0 s' \<and>
           file_content (fsys s') p = Some y))"

lemma next_open_verdict:
  assumes E: "kv_lawful E D R" and c: "file_content f p = Some z"
    and v: "verdict_of True (Some z) (file_content f bak) (file_content f cs) = v"
    and y: "v = Restore_backup \<and> file_content f bak = Some y \<or> v \<in> {Nothing_to_check, Keep_original} \<and> y = z"
  shows "next_open_yields E R p bak cs f y"
  unfolding next_open_yields_def
proof (intro allI impI)
  fix s :: "'a pcl" and junk lid rid user seat ck
  assume pf: "protected_file E R lid rid user seat ck p bak cs s" and run: "initialized s" "mutexes_free s"
    and t: "three_files (fsys s) p bak cs" "fs_maxfd (fsys s) \<le> MaxPersHandle"
    and same: "file_content (fsys s) p = file_content f p" "file_content (fsys s) bak = file_content f bak"
      "file_content (fsys s) cs = file_content f cs"
  have z: "file_content (fsys s) p = Some z" using same(1) c by simp
  show "\<exists>h s'. pclFileOpen E junk lid rid user seat s = Some (h, s') \<and> file_open E h p bak cs 0 0 s' \<and>
      file_content (fsys s') p = Some y"
    using pclFileOpen_checked [OF E run pf t z, of junk] v y same(2,3) z by auto
qed

text \<open>C13: what was written to a file since it was opened survives only if the client closes the file itself. After
  \<open>pclFileClose\<close> the next open yields the content as written. But a full shutdown closes the descriptors
  without removing the backups: although the file holds what was written, the backup and its checksum
  count as valid, and the next open puts the old content \<open>x\<close> back.\<close>

theorem shutdown_discards_writes:
  assumes "kv_lawful E D R" and "file_open E fd p bak cs pos 0 s" and "initialized s" and "access_permitted s"
    and "distinct [resolve p, resolve bak, resolve cs]" and "backup_ready E (fsys s) bak cs"
    and "file_content (fsys s) p = Some x" and "x \<noteq> []" and "fs_denied (fsys s) = (\<lambda>_ _. False)"
    and "length (fs_fds (fsys s)) + 3 \<le> fs_maxfd (fsys s)"
  shows "\<exists>s1 s2. file_writes E fd (b # bs) s = Some s1 \<and> pclFileClose E fd s1 = Some (0, s2) \<and>
     next_open_yields E R p bak cs (fsys s2) (contents_after pos (b # bs) x) \<and>
     file_content (fsys (process_prepare_shutdown E Shutdown_Full s1)) p = Some (contents_after pos (b # bs) x) \<and>
     next_open_yields E R p bak cs (fsys (process_prepare_shutdown E Shutdown_Full s1)) x"
proof -
  have c: "consts_ok E" using assms(1) by (simp add: kv_lawful_def)
  obtain t where t: "pclFileWriteData E fd b (int (length b)) s = Some (int (length b), t)"
     "file_open E fd p bak cs (pos + length b) 1 t" "same_rest s t" "safe_copy bak cs x (fsys t)"
     "file_content (fsys t) p = Some (write_at pos b x)"
    using first_write [OF assms(2) c assms(3-7,9,10), of b] by auto
  have run: "initialized t" "access_permitted t" using same_rest_run [OF t(3)] assms(3,4) by simp_all
  obtain u where u: "file_writes E fd bs t = Some u" "file_open E fd p bak cs (pos + length b + length (concat bs)) 1 u"
     "same_rest t u" "safe_copy bak cs x (fsys u)"
     "file_content (fsys u) p = Some (contents_after (pos + length b) bs (write_at pos b x))"
    using later_writes [OF t(2) c run assms(5) t(4,5)] by blast
  have iu: "initialized u" "fs_denied (fsys u) = (\<lambda>_ _. False)"
    using same_rest_run(1) [OF u(3)] run(1) assms(9) t(3) u(3) by (auto simp: same_rest_def)
  let ?y = "contents_after (pos + length b) bs (write_at pos b x)"
  obtain s2 where s2: "pclFileClose E fd u = Some (0, s2)"
     "file_content (fsys s2) = (\<lambda>q. if resolve q \<in> {resolve bak, resolve cs} then None else file_content (fsys u) q)"
    using pclFileClose_removes [OF c u(2) iu] by auto
  have "file_content (fsys s2) p = Some ?y" using s2(2) u(5) assms(5) by auto
  moreover have "verdict_of True (Some ?y) (file_content (fsys s2) bak) (file_content (fsys s2) cs) = Nothing_to_check"
    using s2(2) by (simp add: verdict_of_def)
  ultimately have kept: "next_open_yields E R p bak cs (fsys s2) ?y"
    by (intro next_open_verdict [OF assms(1)]) auto
  let ?d = "process_prepare_shutdown E Shutdown_Full u"
  have d: "file_content (fsys ?d) p = Some ?y" "file_content (fsys ?d) bak = Some x"
     "file_content (fsys ?d) cs = Some (bytes (csum_of x))"
    using u(4,5) by (simp_all add: shutdown_keeps_content safe_copy_def)
  have "verdict_of True (Some ?y) (file_content (fsys ?d) bak) (file_content (fsys ?d) cs) = Restore_backup"
    using assms(8) csum_of_not_empty d by (simp add: verdict_of_def csum_text_csum_of)
  then have lost: "next_open_yields E R p bak cs (fsys ?d) x"
    using d(2) by (intro next_open_verdict [OF assms(1) d(1)]) auto
  show ?thesis using t(1) u(1) s2(1) kept d(1) lost by auto
qed

theorem shutdown_discards_writes_witness:
  "\<exists>s1. file_writes mem_env 3 [bytes ''HE'', bytes ''LP''] track_state = Some s1 \<and>
     next_open_yields mem_env (\<lambda>w h. mem_rct w) track_path track_bak track_cs
       (fsys (process_prepare_shutdown mem_env Shutdown_Full s1)) (bytes ''hello'')"
proof -
  have a: "distinct [resolve track_path, resolve track_bak, resolve track_cs]"
    "backup_ready mem_env (fsys track_state) track_bak track_cs"
    "file_content (fsys track_state) track_path = Some (bytes ''hello'')" "bytes ''hello'' \<noteq> []"
    "fs_denied (fsys track_state) = (\<lambda>_ _. False)"
    "length (fs_fds (fsys track_state)) + 3 \<le> fs_maxfd (fsys track_state)"
    using track_distinct track_backup_ready track_content track_usable by simp_all
  show ?thesis
    using shutdown_discards_writes [OF mem_env_lawful track_open track_run(1,2) a, of "bytes ''HE''" "[bytes ''LP'']"] by blast
qed

section \<open>The lifecycle set by the application\<close>

text \<open>An application that has not registered for shutdown messages may prepare and cancel a shutdown itself. Preparing
  takes the lock, brings every marked file to the medium and leaves it open, with the handles and plugins as
  they are, and closes configuration tables and databases; cancelling gives the lock back, so that the
  two together leave it as it was. The counter that limits the cancellations is looked at but never
  counted up, so that cancelling never reaches its limit. Anything else is refused without effect, as is every call of an
  application that has registered.\<close>

theorem lifecycle_set_behaviour:
  assumes "\<And>h w. 0 \<le> fst (persComDbClose E h w)"
  shows "(gShutdownMode s \<noteq> PCL_SHUTDOWN_TYPE_NONE \<longrightarrow> pclLifecycleSet E m s = (EPERS_SHUTDOWN_NO_PERMIT, s)) \<and>
    (gShutdownMode s = PCL_SHUTDOWN_TYPE_NONE \<longrightarrow>
      (m \<noteq> PCL_SHUTDOWN \<longrightarrow> m \<noteq> PCL_SHUTDOWN_CANCEL \<longrightarrow> pclLifecycleSet E m s = (EPERS_COMMON, s)) \<and>
      (let (r, t) = pclLifecycleSet E PCL_SHUTDOWN s; (r', u) = pclLifecycleSet E PCL_SHUTDOWN_CANCEL t in
         r = 0 \<and> gLockAccess t = gLockAccess s + 1 \<and> gCancelCounter u = gCancelCounter s \<and> hnd t = hnd s \<and> gPersCustomFuncs t = gPersCustomFuncs s \<and>
         get_fd (fsys t) = get_fd (fsys s) \<and> fs_data (fsys t) = fs_data (fsys s) \<and>
         (\<forall>k < MaxPersHandle. \<forall>d. gOpenFdArray (hnd s) k = FileOpen \<longrightarrow> get_fd (fsys s) (int k) = Some d \<longrightarrow>
            fs_disk (fsys t) (of_ino d) = fs_data (fsys s) (of_ino d)) \<and>
         (\<forall>i < PrctDbTableSize. gResource_table t i = - 1) \<and>
         (\<forall>i < DbTableSize. \<forall>j < PersistenceDB_LastEntry E. gHandlesDBCreated t i j \<noteq> 1) \<and>
         (gCancelCounter s < Shutdown_MaxCount \<longrightarrow> r' = 0 \<and> u = t\<lparr>gLockAccess := gLockAccess s\<rparr>) \<and>
         (\<not> gCancelCounter s < Shutdown_MaxCount \<longrightarrow> r' = EPERS_SHUTDOWN_MAX_CANCEL \<and> u = t)))"
proof -
  let ?l = "pers_lock_access s"
  let ?f = "shutdown_files Shutdown_Partial ?l"
  let ?t = "process_prepare_shutdown E Shutdown_Partial s"
  have t: "?t = database_close_all E (pers_rct_close_all E ?f)"
    by (simp add: process_prepare_shutdown_def Let_def)
  have l: "hnd ?l = hnd s" "fsys ?l = fsys s" "gLockAccess ?l = gLockAccess s + 1" "gCancelCounter ?l = gCancelCounter s" "gShutdownMode ?l = gShutdownMode s"
    "gPersCustomFuncs ?l = gPersCustomFuncs s" by (simp_all add: pers_lock_access_def)
  have f: "get_fd (fsys ?f) = get_fd (fsys s) \<and> fs_data (fsys ?f) = fs_data (fsys s) \<and>
     (\<forall>n. fs_disk (fsys ?f) n =
        (if \<exists>i \<in> set [0..<MaxPersHandle]. gOpenFdArray (hnd s) i = FileOpen \<and> (\<exists>d. get_fd (fsys s) (int i) = Some d \<and> of_ino d = n)
         then fs_data (fsys s) n else fs_disk (fsys s) n))"
    using sync_fds [of "[0..<MaxPersHandle]" ?l] unfolding shutdown_files_def Let_def l(1,2) .
  have disk: "fs_disk (fsys ?f) (of_ino d) = fs_data (fsys s) (of_ino d)"
    if "k < MaxPersHandle" "gOpenFdArray (hnd s) k = FileOpen" "get_fd (fsys s) (int k) = Some d" for k d
  proof -
    have "\<exists>i \<in> set [0..<MaxPersHandle]. gOpenFdArray (hnd s) i = FileOpen \<and>
        (\<exists>e. get_fd (fsys s) (int i) = Some e \<and> of_ino e = of_ino d)"
      using that by (intro bexI [of _ k]) auto
    then show ?thesis using f by presburger
  qed
  have f1: "get_fd (fsys ?f) = get_fd (fsys s)" "fs_data (fsys ?f) = fs_data (fsys s)" using f by simp_all
  have keep: "gLockAccess ?t = gLockAccess s + 1" "hnd ?t = hnd s" "gShutdownMode ?t = gShutdownMode s"
    "gPersCustomFuncs ?t = gPersCustomFuncs s" "fsys ?t = fsys ?f" "gCancelCounter ?t = gCancelCounter s"
    unfolding t by (simp_all add: l)
  have closed: "\<forall>i < PrctDbTableSize. gResource_table ?t i = - 1"
    "\<forall>i < DbTableSize. \<forall>j < PersistenceDB_LastEntry E. gHandlesDBCreated ?t i j \<noteq> 1"
    unfolding t by (simp_all add: rct_closed databases_closed [OF assms])
  show ?thesis
  proof (cases "gShutdownMode s = PCL_SHUTDOWN_TYPE_NONE")
    case False
    then show ?thesis by (simp add: pclLifecycleSet_def)
  next
    case True
    have s: "pclLifecycleSet E PCL_SHUTDOWN s = (0, ?t)" using True by (simp add: pclLifecycleSet_def)
    have u: "pclLifecycleSet E PCL_SHUTDOWN_CANCEL ?t =
        (if gCancelCounter s < Shutdown_MaxCount then (0, ?t\<lparr>gLockAccess := gLockAccess s\<rparr>) else (EPERS_SHUTDOWN_MAX_CANCEL, ?t))"
      using True keep(1,3,6) by (simp add: pclLifecycleSet_def pers_unlock_access_def)
    have o: "m \<noteq> PCL_SHUTDOWN \<longrightarrow> m \<noteq> PCL_SHUTDOWN_CANCEL \<longrightarrow> pclLifecycleSet E m s = (EPERS_COMMON, s)"
      using True by (simp add: pclLifecycleSet_def)
    show ?thesis unfolding Let_def s prod.case u using True o keep closed f1 disk by simp
  qed
qed

theorem lifecycle_set_behaviour_witness:
  "fst (pclLifecycleSet mem_env PCL_SHUTDOWN track_state) = 0 \<and>
   gLockAccess (snd (pclLifecycleSet mem_env PCL_SHUTDOWN track_state)) = 1 \<and>
   pclLifecycleSet mem_env 7 track_state = (EPERS_COMMON, track_state)"
proof -
  have "gShutdownMode track_state = 0" "gLockAccess track_state = 0"
    by (simp_all add: track_state_def demo_state_def pcl_start_def)
  moreover have "0 \<le> fst (persComDbClose mem_env h w)" for h w by (simp add: mem_env_def)
  ultimately show ?thesis
    using lifecycle_set_behaviour [of mem_env track_state 7] by (auto simp: Let_def split: prod.splits)
qed

section \<open>Initialisations\<close>

text \<open>Lock and counter of initialisations through the steps of the initialisation.\<close>

definition lock_count :: "'w pcl \<Rightarrow> int \<times> u32" where
  "lock_count s = (gLockAccess s, gPclInitialized s)"

lemma read_blacklist_lock: "readBlacklistConfigFile bl m mem s = Some (r, s') \<Longrightarrow> lock_count s' = lock_count s"
  by (auto simp: readBlacklistConfigFile_def fillFileBackupCharTokenArray_def createAndStoreFileNames_def lock_count_def Let_def
      split: option.splits if_splits prod.splits Option.bind_splits)

lemma init_services_lock: "lock_count (snd (init_services V m s)) = lock_count s"
  by (simp add: init_services_def register_lifecycle_def lc_registration_def register_pers_admin_service_def
      pas_registration_def deliver_eq deliverToMainloop_NM_def lock_count_def Let_def)

lemma init_plugin_lock: "lock_count (snd (init_plugin E ty f s)) = lock_count s"
  by (simp add: init_plugin_def lock_count_def split: PersInitType_e.split option.split)

lemma load_library_lock: "load_custom_library E i s = Some (r, s') \<Longrightarrow> lock_count s' = lock_count s"
proof -
  have upd: "lock_count (s\<lparr>gPersCustomFuncs := g, world := w\<rparr>) = lock_count s" for g w by (simp add: lock_count_def)
  have keep: "init_plugin E ty f u = (r, s') \<Longrightarrow> lock_count s' = lock_count u" for ty f u
    using init_plugin_lock [of E ty f u] by simp
  assume "load_custom_library E i s = Some (r, s')"
  then show ?thesis
    by (auto simp: load_custom_library_def Let_def upd split: prod.splits Option.bind_splits if_splits dest!: keep)
qed

lemma load_init_lock: "load_init_plugins E is rv s = Some (r, s') \<Longrightarrow> lock_count s' = lock_count s"
proof (induction "is" arbitrary: rv s)
  case Nil
  then show ?case by simp
next
  case (Cons i "is")
  from Cons.prems show ?case
    by (auto split: Option.bind_splits if_splits dest: Cons.IH) (metis load_library_lock Cons.IH)+
qed

lemma invalidate_all_lock: "invalidate_all is s = Some s' \<Longrightarrow> lock_count s' = lock_count s"
proof (induction "is" s rule: invalidate_all.induct)
  case (2 i "is" s)
  then obtain u where "invalidate_custom_plugin (int i) s = Some u" "invalidate_all is u = Some s'"
    by (auto split: Option.bind_splits)
  moreover have "lock_count u = lock_count s"
    using calculation(1) by (auto simp: invalidate_custom_plugin_def lock_count_def split: Option.bind_splits)
  ultimately show ?case using "2.IH" by simp
qed simp

lemma load_plugins_lock: "load_custom_plugins E file cb s = Some (r, s') \<Longrightarrow> lock_count s' = lock_count s"
proof -
  have g: "get_custom_libraries E file s = Some (k, u) \<Longrightarrow> lock_count u = lock_count s" for k u
    by (auto simp: get_custom_libraries_def fillCustomCharTokenArray_def lock_count_def Let_def
        split: mapped_file.splits if_splits Option.bind_splits)
  have c: "lock_count (u\<lparr>gPlugin_callback_async_t := cb\<rparr>) = lock_count u" for u by (simp add: lock_count_def)
  assume "load_custom_plugins E file cb s = Some (r, s')"
  then show ?thesis
    by (auto simp: load_custom_plugins_def c split: Option.bind_splits if_splits dest!: g load_init_lock invalidate_all_lock)
qed

lemma init_lock:
  assumes "pclInitLibrary E V app mode s = Some (r, s')" and "gPclInitialized s = 0"
  shows "if r = 1 then gPclInitialized s' = 1 \<and> gLockAccess s' = gLockAccess s - 1
         else r < 0 \<and> gPclInitialized s' = 0 \<and> gLockAccess s' = gLockAccess s"
proof -
  define s1 where "s1 = (case ie_dataSize V of Some v \<Rightarrow> s\<lparr>gShutdownMode := mode, gMaxKeyValDataSize := atoi v\<rparr>
    | None \<Rightarrow> s\<lparr>gShutdownMode := mode\<rparr>)"
  have l1: "lock_count s1 = lock_count s" by (simp add: s1_def lock_count_def split: option.split)
  obtain bl k s2 where s2: "blacklist_path E app = Some bl"
      "readBlacklistConfigFile (Some bl) (ie_mapped V) (ie_mem V) s1 = Some (k, s2)"
    and rest: "(let (r, s) = setup_dbus_mainloop (ie_address V) (ie_bus V) (ie_thread V) (ie_pipefd V) s2
      in if r = - 1 then Some (EPERS_DBUS_MAINLOOP, s)
        else let (r, s) = init_services V mode s in if r < 0 then Some (r, s) else init_finish E V app s) = Some (r, s')"
    using assms by (auto simp: pclInitLibrary_def s1_def Let_def split: option.splits Option.bind_splits)
  have l2: "lock_count s2 = lock_count s" using read_blacklist_lock [OF s2(2)] l1 by simp
  obtain k3 s3 where s3: "setup_dbus_mainloop (ie_address V) (ie_bus V) (ie_thread V) (ie_pipefd V) s2 = (k3, s3)" by fastforce
  have l3: "lock_count s3 = lock_count s"
    using s3 l2 by (auto simp: setup_dbus_mainloop_def lock_count_def split: if_splits)
  obtain k4 s4 where s4: "init_services V mode s3 = (k4, s4)" by fastforce
  have l4: "lock_count s4 = lock_count s" using init_services_lock [of V mode s3] s4 l3 by simp
  have fin: "r = 1 \<and> gPclInitialized s' = 1 \<and> gLockAccess s' = gLockAccess s - 1" if fin: "init_finish E V app s4 = Some (r, s')"
  proof -
    obtain u k where u: "load_custom_plugins E (ie_plugins V) (Some customAsyncInitClbk) s4 = Some (k, u)"
       "r = 1" "lock_count s' = (gLockAccess u - 1, gPclInitialized u + 1)"
      using fin by (auto simp: init_finish_def Let_def pers_unlock_access_def lock_count_def split: Option.bind_splits)
    have "lock_count u = lock_count s" using load_plugins_lock [OF u(1)] l4 by simp
    then show ?thesis using u(2,3) assms(2) by (simp add: lock_count_def)
  qed
  show ?thesis
  proof (cases "k3 = - 1")
    case True
    then show ?thesis using rest s3 l3 assms(2) by (auto simp: lock_count_def Let_def)
  next
    case False
    then have "(if k4 < 0 then Some (k4, s4) else init_finish E V app s4) = Some (r, s')" using rest s3 s4 by simp
    then show ?thesis using fin l4 assms(2) by (auto simp: lock_count_def split: if_splits)
  qed
qed

text \<open>C33: right after the first initialisation the lock counter is one below its start value 0, so the first lock does
  not lock: a shutdown (in whatever way it is asked for) or a block request of the administration service
  leaves the access to the data permitted; only a second one refuses it.\<close>

theorem first_lock_is_void:
  assumes "pclInitLibrary E V app mode s = Some (1, s')" and "gPclInitialized s = 0" and "gLockAccess s = 0"
  shows "gLockAccess s' = - 1 \<and> access_permitted (process_prepare_shutdown E c s') \<and>
     (\<forall>a b str t. process_command E me \<lparr>cmd = CMD_PAS_BLOCK_AND_WRITE_BACK, params = [a, b], mstring = str\<rparr> s' = Some (True, t) \<longrightarrow>
        access_permitted t \<and> \<not> access_permitted (process_prepare_shutdown E c t))"
proof -
  have l: "gLockAccess (process_prepare_shutdown E c u) = gLockAccess u + 1" for u
    by (simp add: process_prepare_shutdown_def Let_def) (simp add: pers_lock_access_def)
  have "gLockAccess s' = - 1" using init_lock [OF assms(1,2)] assms(3) by simp
  then show ?thesis
    by (auto simp: access_permitted_def isAccessLocked_def l process_command_def param_def process_send_pas_request_def
      process_block_and_write_data_back_def pers_lock_access_def dbus_send_def)
qed

text \<open>An environment without a plugin configuration, a blacklist or the administration service.\<close>

definition plain_env :: init_env where
  "plain_env = \<lparr>ie_usePas = False, ie_dataSize = None, ie_mapped = True, ie_mem = 0, ie_address = False, ie_bus = True,
     ie_thread = 0, ie_pipefd = 5, ie_plugins = Stat_failed, ie_reply = 0\<rparr>"

lemma init_demo:
  "\<exists>s'. pclInitLibrary mem_env plain_env ''app'' 1 (pcl_start mem_env mem_start) = Some (1, s') \<and>
     gPclInitialized s' = 1 \<and> gPollInfo s' = poll_init 5 \<and> pipe_rc s' = 0"
proof -
  have "blacklist_path mem_env ''app'' = Some ''/Data/mnt-c/app/BackupFileList.info''"
    by (simp add: blacklist_path_def strncpy_path_def CACHEPREFIX_def track_root gBackupFilename_def)
  moreover have "resolve ''/Data/mnt-c/app/BackupFileList.info'' \<noteq> []" by (simp add: resolve_def)
  then have "fs_names (fsys (pcl_start mem_env mem_start)) (resolve ''/Data/mnt-c/app/BackupFileList.info'') = None"
    by (simp add: pcl_start_def fs_start_def)
  ultimately show ?thesis
    by (simp add: pclInitLibrary_def plain_env_def pcl_start_def readBlacklistConfigFile_def setup_dbus_mainloop_def
      init_services_def register_lifecycle_def lc_registration_def deliver_eq deliverToMainloop_NM_def init_finish_def
      load_custom_plugins_def get_custom_libraries_def pers_unlock_access_def Let_def)
qed

theorem first_lock_is_void_witness:
  "\<exists>s'. pclInitLibrary mem_env plain_env ''app'' 1 (pcl_start mem_env mem_start) = Some (1, s') \<and>
     access_permitted (process_prepare_shutdown mem_env Shutdown_Full s')"
proof -
  obtain s' where s': "pclInitLibrary mem_env plain_env ''app'' 1 (pcl_start mem_env mem_start) = Some (1, s')"
    using init_demo by blast
  have "gPclInitialized (pcl_start mem_env mem_start) = 0" "gLockAccess (pcl_start mem_env mem_start) = 0"
    by (simp_all add: pcl_start_def)
  then show ?thesis using first_lock_is_void [OF s', of Shutdown_Full] s' by blast
qed

text \<open>A client of the initialisation functions; the calls that do not reach the first initialisation or the last
  deinitialisation, with the number of initialisations after them.\<close>

datatype lib_call = Init_call string int | Deinit_call

fun lib_run :: "('w, 'e) perscom_scheme \<Rightarrow> init_env \<Rightarrow> lib_call list \<Rightarrow> 'w pcl \<Rightarrow> 'w pcl option" where
  "lib_run E V [] s = Some s"
| "lib_run E V (Init_call app mode # cs) s = Option.bind (pclInitLibrary E V app mode s) (\<lambda>(_, s). lib_run E V cs s)"
| "lib_run E V (Deinit_call # cs) s = lib_run E V cs (snd (pclDeinitLibrary E V s))"

fun nested :: "nat \<Rightarrow> lib_call list \<Rightarrow> nat option" where
  "nested n [] = Some n"
| "nested n (Init_call app mode # cs) = nested (n + 1) cs"
| "nested n (Deinit_call # cs) = (if n \<le> 1 then None else nested (n - 1) cs)"

lemma nested_counts:
  assumes "nested n cs = Some k" and "gPclInitialized s = of_nat n" and "0 < n" and "n + length cs < 2 ^ 32"
  shows "lib_run E V cs s = Some (s\<lparr>gPclInitialized := of_nat k\<rparr>)"
  using assms
proof (induction cs arbitrary: n s)
  case Nil
  then show ?case by simp
next
  case (Cons c cs)
  have n: "n < 2 ^ 32" using Cons.prems(4) by simp
  then have u: "unat (of_nat n :: u32) = n" by (simp add: unat_of_nat)
  show ?case
  proof (cases c)
    case (Init_call app mode)
    have "(of_nat n :: u32) \<noteq> 0" using u Cons.prems(3) by (metis unat_0 less_irrefl)
    then have "pclInitLibrary E V app mode s = Some (1, s\<lparr>gPclInitialized := of_nat (n + 1)\<rparr>)"
      using Cons.prems(2) by (simp add: pclInitLibrary_def add.commute)
    then show ?thesis using Cons.IH [of "n + 1" "s\<lparr>gPclInitialized := of_nat (n + 1)\<rparr>"] Cons.prems Init_call by simp
  next
    case Deinit_call
    then have n1: "1 < n" using Cons.prems(1) by (simp split: if_splits)
    have "(of_nat n :: u32) \<noteq> 1" "(1 :: u32) < of_nat n" using u n1 by (auto simp: word_less_nat_alt)
    then have "pclDeinitLibrary E V s = (1, s\<lparr>gPclInitialized := of_nat (n - 1)\<rparr>)"
      using Cons.prems(2) n1 by (simp add: pclDeinitLibrary_def of_nat_diff)
    then show ?thesis using Cons.IH [of "n - 1" "s\<lparr>gPclInitialized := of_nat (n - 1)\<rparr>"] Cons.prems Deinit_call n1 by simp
  qed
qed



section \<open>The request of the node state manager\<close>

lemma shutdown_keeps_bus: "bus (process_prepare_shutdown E c s) = bus s"
proof -
  have f1: "bus (shutdown_files c u) = bus u" for u :: "'a pcl"
    unfolding shutdown_files_def by (rule fold_keeps) (simp_all add: shutdown_fd_def)
  have f2: "bus (pers_rct_close_all E u) = bus u" for u
    unfolding pers_rct_close_all_def
    by (rule fold_keeps) (auto simp: close_rct_def invalidate_resource_cfg_table_def split: option.splits Option.bind_splits)
  have f3: "bus (database_close_all E u) = bus u" for u
    unfolding database_close_all_def
    by (rule fold_keeps, rule fold_keeps) (auto simp: close_database_def Let_def split: prod.splits)
  have f4: "bus (unload_plugins E u) = bus u" for u
    unfolding unload_plugins_def
    by (rule fold_keeps) (auto simp: unload_plugin_def Let_def split: option.splits prod.splits)
  show ?thesis by (simp add: process_prepare_shutdown_def Let_def f1 f2 f3 f4 pers_lock_access_def)
qed



end
