(* ===== verification/Admin_Request.thy ===== *)
theory Admin_Request
  imports Shutdown
begin

text \<open>
  A block request of the persistence administration service on its way through the library: the D-Bus handler
  (\<open>src/persistence_client_library_pas_interface.c\<close>), the pipe and the main loop
  (\<open>src/persistence_client_library_dbus_service.c\<close>), the lock that every operation on data looks at, and back.
\<close>

definition admin_request :: "dbus_msg \<Rightarrow> int \<Rightarrow> int \<Rightarrow> bool" where
  "admin_request m req rid \<longleftrightarrow> dm_interface m = gDbusPersAdminConsInterface \<and> dm_member m = gDbusPersAdminConsMsg \<and>
     dm_args m = [DBUS_INT32 req, DBUS_INT32 rid]"

lemma admin_request_handled:
  "admin_request m req rid \<Longrightarrow> dispatch_message True gPersAdminConsumerPath m s =
     (let (r, s) = check_pas_request (word_of_int req) (word_of_int rid) s
      in Some (DBUS_HANDLER_RESULT_HANDLED, dbus_send (Reply_return r) s))"
  by (simp add: admin_request_def dispatch_message_def checkPersAdminMsg_def msg_persAdminRequest_def Let_def
      gPersAdminConsumerPath_def gDbusLcConsPath_def split: prod.split)

text \<open>The state while the access is blocked.\<close>

lemma locked_refuses:
  assumes "initialized s" "gLockAccess s = 1"
  shows "pclKeyReadData E k lid rid user seat buf n s = Some ((EPERS_LOCKFS, buf), s)"
    "pclKeyWriteData E k lid rid user seat buf n s = Some (EPERS_LOCKFS, s)"
    "pclKeyDelete E k lid rid user seat s = Some (EPERS_LOCKFS, s)"
    "pclFileWriteData E fd buf n s = Some (EPERS_LOCKFS, s)"
    "pclFileRemove E k lid rid user seat s = Some (EPERS_LOCKFS, s)"
  using assms
  by (simp_all add: pclKeyReadData_def pclKeyWriteData_def pclKeyDelete_def pclFileWriteData_def pclFileRemove_def
      access_permitted_def isAccessLocked_def)



end
