(* ===== verification/Notification.thy ===== *)
theory Notification
  imports Main_Loop
begin

text \<open>
  The way of a change notification: from the call in the database access of one process
  (\<open>pers_send_Notification_Signal\<close>) through its command pipe and main loop to the bus, and from the bus
  through the fallback handler of another process to the callback of its client. The numbers travel as
  decimal texts, because match rules compare texts only.
\<close>

section \<open>Numbers as texts\<close>

lemma digits_10:
  "digits 10 n \<noteq> [] \<and> (\<forall>c \<in> set (digits 10 n). is_digit c \<and> c \<noteq> CHR ''-'')"
proof (induction n rule: less_induct)
  case (less n)
  have h: "is_digit (hex_char d) \<and> hex_char d \<noteq> CHR ''-''" if "d < 10" for d
  proof -
    have "\<forall>d \<in> set [0..<10]. is_digit (hex_char d) \<and> hex_char d \<noteq> CHR ''-''" by code_simp
    then show ?thesis using that by simp
  qed
  show ?case
  proof (cases "n < 10")
    case True
    then show ?thesis using h by (simp add: digits_one)
  next
    case False
    then have "digits 10 n = digits 10 (n div 10) @ [hex_char (n mod 10)]" by (simp add: digits_more)
    then show ?thesis using less.IH [of "n div 10"] False h [of "n mod 10"] by simp
  qed
qed

lemma atoi_fmt_u: "atoi (fmt_u w) = int (unat w)"
proof -
  obtain c cs where d: "digits 10 (unat w) = c # cs" using digits_10 [of "unat w"] by (cases "digits 10 (unat w)") auto
  have "takeWhile is_digit (digits 10 (unat w)) = digits 10 (unat w)"
    using digits_10 [of "unat w"] by (simp add: takeWhile_eq_all_conv)
  moreover have "c \<noteq> CHR ''-''" using digits_10 [of "unat w"] d by simp
  ultimately show ?thesis
    using undigits_digits [of 10 "unat w"] d by (simp add: atoi_def fmt_u_def)
qed

lemma length_fmt_u: "length (fmt_u w) < DbusSubMatchSize"
proof -
  have "unat w < 2 ^ 32" using unsigned_less [of w, where ?'a = nat] by simp
  then have "unat w < 10 ^ 10" by (rule less_trans) simp
  then have "length (digits 10 (unat w)) \<le> 10" by (rule length_digits) simp_all
  then show ?thesis by (simp add: fmt_u_def DbusSubMatchSize_def)
qed

lemma number_roundtrip: "word_of_int (atoi (snprintf DbusSubMatchSize (fmt_u w))) = (w :: u32)"
  using length_fmt_u [of w] by (simp add: snprintf_fits atoi_fmt_u)

section \<open>Properties\<close>

text \<open>A signal on the bus, as another process receives it.\<close>

fun received :: "dbus_out \<Rightarrow> (string \<times> dbus_msg) option" where
  "received (Signal path iface member args) =
     Some (path, \<lparr>dm_interface = iface, dm_member = member, dm_is_signal = True, dm_args = args\<rparr>)"
| "received _ = None"

text \<open>C22: a change or deletion that one process announces arrives at the callback of every process that
  has one, with the same resource, user, seat, logical database and reason, when the resource id is
  shorter than 108 characters. The announcement puts one signal on the bus. The announcement of a
  creation also puts its signal on the bus, but no process delivers it: the handler waits for the name
  \<open>PersistenceRes\<close>, and the sender writes \<open>PersistenceResCreate\<close>.\<close>

theorem notification_roundtrip:
  assumes "pipe s = []" and "pipe_rc s \<noteq> - 1" and "length key < wire_string_size" and "length key < DbKeyMaxLen E"
    and "reason \<in> {pclNotifyStatus_created, pclNotifyStatus_changed, pclNotifyStatus_deleted}"
  shows "\<exists>s1 s2 m path msg. pers_send_Notification_Signal E key ctx reason s = (1, s1) \<and>
     mainloop_command E me s1 = Some (True, s2) \<and> pipe s2 = [] \<and> bus s2 = bus s @ [m] \<and>
     received m = Some (path, msg) \<and>
     (\<forall>usePas (r :: 'r pcl). dispatch_message usePas path msg r = Some (DBUS_HANDLER_RESULT_HANDLED,
        if reason = pclNotifyStatus_created then r
        else case gChangeNotifyCallback r of
            None \<Rightarrow> r
          | Some f \<Rightarrow> r\<lparr>callbacks := callbacks r @ [(f, \<lparr>pclKeyNotify_Status = reason, n_ldbid = ldbid ctx,
                n_resource_id = key, n_user_no = user_no ctx, n_seat_no = seat_no ctx\<rparr>)]\<rparr>))"
proof -
  let ?d = "\<lparr>cmd = CMD_SEND_NOTIFY_SIGNAL, params = [ldbid ctx, user_no ctx, seat_no ctx, word_of_int reason], mstring = key\<rparr>"
  let ?t = "\<lambda>w. DBUS_STRING (snprintf DbusSubMatchSize (fmt_u w))"
  obtain name where name: "notify_reason_string (word_of_int reason) = Some name"
    "notify_status_of name = (if reason = pclNotifyStatus_created then None else Some reason)"
    "name \<noteq> gDbusPersAdminConsMsg"
    using assms(5) by (auto simp: notify_reason_string_def notify_status_of_def gDeleteSignal_def gChangeSignal_def
        gCreateSignal_def gDbusPersAdminConsMsg_def)
  let ?m = "Signal gPersAdminConsumerPath gDbusPersAdminConsInterface name
     [DBUS_STRING key, ?t (ldbid ctx), ?t (user_no ctx), ?t (seat_no ctx)]"
  let ?msg = "\<lparr>dm_interface = gDbusPersAdminConsInterface, dm_member = name, dm_is_signal = True,
     dm_args = [DBUS_STRING key, ?t (ldbid ctx), ?t (user_no ctx), ?t (seat_no ctx)]\<rparr>"
  have send: "pers_send_Notification_Signal E key ctx reason s = (1, s\<lparr>pipe := [?d]\<rparr>)"
    using assms by (auto simp: pers_send_Notification_Signal_def deliver_eq deliverToMainloop_NM_def snprintf_fits)
  have cmd: "mainloop_command E me (s\<lparr>pipe := [?d]\<rparr>) = Some (True, dbus_send ?m (s\<lparr>pipe := []\<rparr>))"
    using assms(3) name(1)
    by (simp add: mainloop_command_def process_command_def four_params_def param_def pipe_string_def
        process_send_notification_signal_def)
  have path: "gPersAdminConsumerPath \<noteq> gDbusLcConsPath" "gDbusPersAdminConsInterface \<noteq> gDbusPersAdminInterface"
    by (simp_all add: gPersAdminConsumerPath_def gDbusLcConsPath_def gDbusPersAdminConsInterface_def gDbusPersAdminInterface_def)
  have "dispatch_message usePas gPersAdminConsumerPath ?msg r = Some (DBUS_HANDLER_RESULT_HANDLED,
      if reason = pclNotifyStatus_created then r
      else case gChangeNotifyCallback r of
          None \<Rightarrow> r
        | Some f \<Rightarrow> r\<lparr>callbacks := callbacks r @ [(f, \<lparr>pclKeyNotify_Status = reason, n_ldbid = ldbid ctx,
              n_resource_id = key, n_user_no = user_no ctx, n_seat_no = seat_no ctx\<rparr>)]\<rparr>)" for usePas and r :: "'r pcl"
    using path name(2,3)
    by (simp add: dispatch_message_def checkPersAdminMsg_def handleObjectPathMessageFallback_def deliver_notification_def
        number_roundtrip call_notify_def)
  then show ?thesis using send cmd
    by (intro exI [of _ "s\<lparr>pipe := [?d]\<rparr>"] exI [of _ "dbus_send ?m (s\<lparr>pipe := []\<rparr>)"] exI [of _ ?m])
      (simp add: dbus_send_def)
qed

theorem notification_roundtrip_witness:
  "\<exists>s1 s2. pers_send_Notification_Signal mem_env ''volume'' \<lparr>ldbid = 0xFF, user_no = 1, seat_no = 2\<rparr> 2
       (pcl_start mem_env mem_start) = (1, s1) \<and>
     mainloop_command mem_env ''1.7'' s1 = Some (True, s2) \<and> length (bus s2) = 1"
proof -
  have a: "pipe (pcl_start mem_env mem_start) = []" "pipe_rc (pcl_start mem_env mem_start) \<noteq> - 1"
    "length ''volume'' < wire_string_size" "length ''volume'' < DbKeyMaxLen mem_env"
    "2 \<in> {pclNotifyStatus_created, pclNotifyStatus_changed, pclNotifyStatus_deleted}"
    by (simp_all add: pcl_start_def wire_string_size_def)
  have "bus (pcl_start mem_env mem_start) = []" by (simp add: pcl_start_def)
  then show ?thesis
    using notification_roundtrip [OF a, of "\<lparr>ldbid = 0xFF, user_no = 1, seat_no = 2\<rparr>" "''1.7''"] by fastforce
qed

end
