(* ===== verification/Data_Invariant.thy ===== *)
theory Data_Invariant
  imports Key Main_Loop
begin

text \<open>
  Invariants of the state that only the handles, the file system and the pipe matter for: every operation
  on data keeps them (\<open>src/persistence_client_library_prct_access.c\<close>, \<open>_db_access.c\<close>, \<open>_key.c\<close>,
  \<open>_custom_loader.c\<close>, \<open>_lc_interface.c\<close>, \<open>_pas_interface.c\<close>), because these operations change neither handles
  nor files and write only well-formed commands (\<open>command_ok\<close>) to the pipe. The locale states the interface,
  \<open>Reachable\<close> interprets it.
\<close>

lemma command_ok_cut: "command_ok d \<Longrightarrow> command_ok (d\<lparr>mstring := take n (mstring d)\<rparr>)"
  by (cases "cmd d") (auto simp: command_ok_def)

section \<open>The interface\<close>

locale data_invariant =
  fixes I :: "'w pcl \<Rightarrow> bool"
  assumes frame: "I s \<Longrightarrow> hnd t = hnd s \<Longrightarrow> fsys t = fsys s \<Longrightarrow> pipe t = pipe s \<Longrightarrow> I t"
    and send: "I s \<Longrightarrow> command_ok d \<Longrightarrow> I (s\<lparr>pipe := pipe s @ [d]\<rparr>)"
begin

lemma frame_iff: "hnd t = hnd s \<Longrightarrow> fsys t = fsys s \<Longrightarrow> pipe t = pipe s \<Longrightarrow> I t \<longleftrightarrow> I s"
  using frame [of s t] frame [of t s] by auto

lemma upd [simp]:
  "I (s\<lparr>world := w\<rparr>) = I s" "I (s\<lparr>gResource_table := a\<rparr>) = I s" "I (s\<lparr>gResourceOpen := b\<rparr>) = I s"
  "I (s\<lparr>gHandlesDB := c\<rparr>) = I s" "I (s\<lparr>gHandlesDBCreated := e\<rparr>) = I s" "I (s\<lparr>gPersCustomFuncs := f\<rparr>) = I s"
  "I (s\<lparr>gChangeNotifyCallback := g\<rparr>) = I s" "I (s\<lparr>gCustomLibArray := l\<rparr>) = I s"
  "I (s\<lparr>gpCustomTokenArray := m\<rparr>) = I s" "I (s\<lparr>gPlugin_callback_async_t := n\<rparr>) = I s"
  "I (s\<lparr>gLockAccess := k\<rparr>) = I s" "I (s\<lparr>gDbusPendingRvalue := p\<rparr>) = I s" "I (s\<lparr>bus := q\<rparr>) = I s"
  "I (s\<lparr>callbacks := r\<rparr>) = I s" "I (s\<lparr>gAppId := x\<rparr>) = I s" "I (s\<lparr>gPclInitialized := i\<rparr>) = I s"
  "I (s\<lparr>gShutdownMode := j\<rparr>) = I s" "I (s\<lparr>gMaxKeyValDataSize := u\<rparr>) = I s"
  "I (s\<lparr>gpTokenArray := v\<rparr>) = I s" "I (s\<lparr>gRb_tree_bl := y\<rparr>) = I s" "I (s\<lparr>gPollInfo := z\<rparr>) = I s"
  "I (s\<lparr>pipe_rc := pr\<rparr>) = I s"
  by (rule frame_iff; simp)+

lemma bus_kept [simp]: "I (dbus_send m s) = I s"
  by (simp add: dbus_send_def)

lemma deliver_NM: "I s \<Longrightarrow> command_ok d \<Longrightarrow> I (snd (deliverToMainloop_NM d s))"
  using send [of s "d\<lparr>mstring := take wire_string_size (mstring d)\<rparr>"] command_ok_cut [of d]
  by (simp add: deliverToMainloop_NM_def)

lemma deliver: "I s \<Longrightarrow> command_ok d \<Longrightarrow> I (snd (deliverToMainloop d s))"
  by (simp add: deliver_eq deliver_NM)

section \<open>Configuration tables and databases\<close>

lemma table: "get_resource_cfg_table E rct grp s = Some (h, t) \<Longrightarrow> I s \<Longrightarrow> I t"
  by (auto simp: get_resource_cfg_table_def Let_def case_prod_beta split: Option.bind_splits if_splits)

lemma rct_entry: "read_rct_entry E h info rid k p s = Some (r, t) \<Longrightarrow> I s \<Longrightarrow> I t"
  by (auto simp: read_rct_entry_def Let_def case_prod_beta split: Option.bind_splits if_splits)

lemma db_context: "get_db_context E info rid isFile k p s = Some (r, t) \<Longrightarrow> I s \<Longrightarrow> I t"
  by (auto simp: get_db_context_def Let_def case_prod_beta dest!: table rct_entry split: Option.bind_splits)

lemma db_get: "database_get E info p ty s = Some (r, t) \<Longrightarrow> I s \<Longrightarrow> I t"
  by (auto simp: database_get_def Let_def case_prod_beta split: Option.bind_splits if_splits option.splits)

lemma defaults_loop: "pers_get_defaults_loop E p k info buf n job is r s = Some (x, t) \<Longrightarrow> I s \<Longrightarrow> I t"
proof (induction "is" arbitrary: buf r s)
  case Nil
  then show ?case by simp
next
  case (Cons i "is")
  then show ?case
    by (fastforce simp: Let_def case_prod_beta dest: db_get split: Option.bind_splits if_splits)
qed

lemma defaults: "pers_get_defaults E p k info buf n job s = Some (x, t) \<Longrightarrow> I s \<Longrightarrow> I t"
  unfolding pers_get_defaults_def by (rule defaults_loop)

lemma signal_sent:
  "I s \<Longrightarrow> length key < wire_string_size \<Longrightarrow> I (snd (pers_send_Notification_Signal c key ctx reason s))"
  by (auto simp: pers_send_Notification_Signal_def Let_def case_prod_beta snprintf_def command_ok_def intro!: deliver)

lemma notify_on_change:
  "I s \<Longrightarrow> length key < wire_string_size \<Longrightarrow> I (snd (persistence_notify_on_change c key lid u st cb pol s))"
  by (auto simp: persistence_notify_on_change_def Let_def case_prod_beta snprintf_def command_ok_def intro!: deliver)

section \<open>Plugins\<close>

lemma init_plugin_kept: "init_plugin E ty f s = (r, t) \<Longrightarrow> I t = I s"
  by (auto simp: init_plugin_def split: PersInitType_e.splits option.splits)

lemma library: "load_custom_library E i s = Some (r, t) \<Longrightarrow> I s \<Longrightarrow> I t"
  by (auto simp: load_custom_library_def Let_def case_prod_beta dest!: init_plugin_kept
      split: Option.bind_splits if_splits)

lemma available: "plugin_available E f g i s = Some (r, t) \<Longrightarrow> I s \<Longrightarrow> I t"
  by (auto simp: plugin_available_def Let_def dest: library
      split: Option.bind_splits if_splits PersLoadingType_e.splits)

lemma custom_libraries: "get_custom_libraries c file s = Some (r, t) \<Longrightarrow> I s \<Longrightarrow> I t"
  by (auto simp: get_custom_libraries_def fillCustomCharTokenArray_def Let_def
      split: Option.bind_splits if_splits mapped_file.splits)

lemma invalidated: "invalidate_all is s = Some t \<Longrightarrow> I s \<Longrightarrow> I t"
  by (induction "is" arbitrary: s) (auto simp: invalidate_custom_plugin_def split: Option.bind_splits)

lemma init_plugins: "load_init_plugins E is r s = Some (x, t) \<Longrightarrow> I s \<Longrightarrow> I t"
proof (induction "is" arbitrary: r s)
  case Nil
  then show ?case by simp
next
  case (Cons i "is")
  then show ?case by (auto dest: library split: Option.bind_splits if_splits)
qed

lemma plugins: "load_custom_plugins E file cb s = Some (r, t) \<Longrightarrow> I s \<Longrightarrow> I t"
  by (auto simp: load_custom_plugins_def dest!: custom_libraries invalidated init_plugins
      split: Option.bind_splits if_splits)

section \<open>Data\<close>

lemma data_read: "persistence_get_data E p k rid info buf n s = Some (r, t) \<Longrightarrow> I s \<Longrightarrow> I t"
  unfolding persistence_get_data_def
  by (auto simp: Let_def case_prod_beta dest!: db_get defaults available split: Option.bind_splits if_splits)

lemma data_size: "persistence_get_data_size E p k rid info s = Some (r, t) \<Longrightarrow> I s \<Longrightarrow> I t"
  unfolding persistence_get_data_size_def
  by (auto simp: Let_def case_prod_beta dest!: db_get defaults available split: Option.bind_splits if_splits)

lemma data_written:
  "persistence_set_data E p k rid info buf n s = Some (r, t) \<Longrightarrow> I s \<Longrightarrow> length rid < wire_string_size \<Longrightarrow> I t"
  unfolding persistence_set_data_def
  by (auto simp: Let_def case_prod_beta dest!: db_get available intro!: signal_sent split: Option.bind_splits if_splits)

lemma data_deleted:
  "persistence_delete_data E p k rid info s = Some (r, t) \<Longrightarrow> I s \<Longrightarrow> length rid < wire_string_size \<Longrightarrow> I t"
  unfolding persistence_delete_data_def
  by (auto simp: Let_def case_prod_beta dest!: db_get available intro!: signal_sent split: Option.bind_splits if_splits)

section \<open>The key API\<close>

lemma context_read: "key_context E junk lid rid u st s = Some (r, t) \<Longrightarrow> I s \<Longrightarrow> I t"
  by (auto simp: key_context_def dest: db_context)

lemma key_read: "pclKeyReadData E junk lid rid u st buf n s = Some (r, t) \<Longrightarrow> I s \<Longrightarrow> I t"
  by (auto simp: pclKeyReadData_def dest!: context_read data_read split: Option.bind_splits if_splits)

lemma key_size: "pclKeyGetSize E junk lid rid u st s = Some (r, t) \<Longrightarrow> I s \<Longrightarrow> I t"
  by (auto simp: pclKeyGetSize_def dest!: context_read data_size split: Option.bind_splits if_splits)

lemma key_written:
  "pclKeyWriteData E junk lid rid u st buf n s = Some (r, t) \<Longrightarrow> I s \<Longrightarrow> length rid < wire_string_size \<Longrightarrow> I t"
  by (auto simp: pclKeyWriteData_def dest!: context_read data_written split: Option.bind_splits if_splits)

lemma key_deleted:
  "pclKeyDelete E junk lid rid u st s = Some (r, t) \<Longrightarrow> I s \<Longrightarrow> length rid < wire_string_size \<Longrightarrow> I t"
  by (auto simp: pclKeyDelete_def dest!: context_read data_deleted split: Option.bind_splits if_splits)

lemma key_notify:
  "regNotifyOnChange E junk lid rid u st cb pol s = Some (r, t) \<Longrightarrow> I s \<Longrightarrow> length rid < wire_string_size \<Longrightarrow> I t"
  by (auto simp: regNotifyOnChange_def dest!: context_read intro!: notify_on_change
      split: Option.bind_splits if_splits) (metis notify_on_change snd_conv)

section \<open>Messages and registration\<close>

lemma lifecycle_message: "checkLifecycleMsg m s = (r, t) \<Longrightarrow> I s \<Longrightarrow> I t"
  by (auto simp: checkLifecycleMsg_def msg_lifecycleRequest_def check_lc_request_def Let_def case_prod_beta command_ok_def
      wire_string_size_def intro!: deliver_NM split: if_splits list.splits dbus_arg.splits)

lemma admin_message: "checkPersAdminMsg m s = (r, t) \<Longrightarrow> I s \<Longrightarrow> I t"
  by (auto simp: checkPersAdminMsg_def msg_persAdminRequest_def check_pas_request_def pers_unlock_access_def Let_def
      case_prod_beta command_ok_def wire_string_size_def intro!: deliver_NM split: if_splits list.splits dbus_arg.splits)

lemma notification_kept: "deliver_notification m s = (r, t) \<Longrightarrow> I s \<Longrightarrow> I t"
  by (auto simp: deliver_notification_def call_notify_def
      split: option.splits list.splits dbus_arg.splits if_splits)

lemma message: "dispatch_message usePas path m s = Some (r, t) \<Longrightarrow> I s \<Longrightarrow> I t"
  by (auto simp: dispatch_message_def handleObjectPathMessageFallback_def signal_persModeChange_def Let_def
      dest: lifecycle_message admin_message notification_kept split: prod.splits if_splits list.splits dbus_arg.splits)

lemma lifecycle_registration: "I s \<Longrightarrow> rt \<in> {0, 1} \<Longrightarrow> I (snd (lc_registration rt m s))"
  by (auto simp: lc_registration_def command_ok_def wire_string_size_def intro!: deliver)

lemma admin_registration: "I s \<Longrightarrow> rt \<in> {0, 1} \<Longrightarrow> I (snd (pas_registration rt m s))"
  by (auto simp: pas_registration_def Let_def case_prod_beta command_ok_def wire_string_size_def intro!: deliver)

end

end
