(* ===== verification/Fs_Invariant.thy ===== *)
theory Fs_Invariant
  imports File_Safety
begin

text \<open>
  The file system stays well formed (\<open>fs_wf\<close>): every call of \<open>Posix_Fs\<close>, and with them every function of
  \<open>src/persistence_client_library_backup_filelist.c\<close> that works on files, keeps inodes below the next free
  one, one name for each file, descriptors on existing inodes and their number within the limit.
  The lemmas are collected in \<open>wf_keep\<close>.
\<close>

named_theorems wf_keep \<comment> \<open>an operation keeps the file system well formed\<close>

section \<open>Calls\<close>

lemma fs_wf_errno [simp]: "fs_wf (f\<lparr>fs_errno := e\<rparr>) = fs_wf f"
  by (simp add: fs_wf_def)

lemma fs_fail_wf [wf_keep]: "fs_wf f \<Longrightarrow> fs_wf (snd (fs_fail e f))"
  by (simp add: fs_fail_def)

lemma new_fd_wf:
  assumes "fs_wf f" and "n < fs_next f" and "free_fd (fs_fds f) < fs_maxfd f"
  shows "fs_wf (snd (new_fd n m f))"
proof -
  let ?d = "\<lparr>of_ino = n, of_pos = 0, of_read = (m \<noteq> O_WRONLY), of_write = (m \<noteq> O_RDONLY)\<rparr>"
  let ?g = "f\<lparr>fs_fds := put_fd (fs_fds f) (free_fd (fs_fds f)) ?d\<rparr>"
  have "length (put_fd (fs_fds f) (free_fd (fs_fds f)) ?d) \<le> fs_maxfd f"
    using assms(1,3) free_fd_le [of "fs_fds f"] by (auto simp: put_fd_def fs_wf_def)
  moreover have "of_ino d < fs_next f" if "get_fd ?g k = Some d" for k d
    using that assms(1,2) unfolding get_fd_put by (auto simp: fs_wf_def split: if_splits)
  ultimately show ?thesis using assms(1) by (simp add: new_fd_def Let_def fs_wf_def)
qed

lemma fs_wf_fresh:
  assumes "fs_wf f"
  shows "fs_wf (f\<lparr>fs_names := (fs_names f)(r \<mapsto> Reg (fs_next f)), fs_data := x, fs_disk := y,
    fs_next := fs_next f + 1\<rparr>)"
proof -
  have "\<And>r n. fs_names f r = Some (Reg n) \<Longrightarrow> n < fs_next f" "\<And>k d. get_fd f k = Some d \<Longrightarrow> of_ino d < fs_next f"
    using assms unfolding fs_wf_def by blast+
  then show ?thesis using assms unfolding fs_wf_def by (auto simp: less_Suc_eq)
qed

lemma fs_open_wf [wf_keep]:
  assumes wf: "fs_wf f"
  shows "fs_wf (snd (fs_open p m c t f))"
proof (cases "fs_names f (resolve p)")
  case None
  then show ?thesis using wf fs_wf_fresh [OF wf]
    by (auto simp: fs_open_def Let_def intro!: new_fd_wf wf_keep)
next
  case (Some node)
  have "node = Reg n \<Longrightarrow> n < fs_next f" for n using wf Some by (auto simp: fs_wf_def)
  then show ?thesis using wf Some
    by (auto simp: fs_open_def Let_def intro!: new_fd_wf wf_keep split: fs_node.split)
qed

lemma fs_open_result_wf: "fs_open p m c t f = (h, g) \<Longrightarrow> fs_wf f \<Longrightarrow> fs_wf g"
  using fs_open_wf by (metis snd_conv)

lemma fs_close_wf [wf_keep]: "fs_wf f \<Longrightarrow> fs_wf (snd (fs_close fd f))"
  by (simp add: fs_wf_def)

lemma fs_remove_wf [wf_keep]: "fs_wf f \<Longrightarrow> fs_wf (snd (fs_remove p f))"
  by (auto simp: fs_wf_def fs_remove_names)

lemma fs_fsync_wf [wf_keep]: "fs_wf f \<Longrightarrow> fs_wf (snd (fs_fsync fd f))"
  by simp

lemma fs_mkdir_wf [wf_keep]: "fs_wf f \<Longrightarrow> fs_wf (fs_mkdir p f)"
  by (auto simp: fs_mkdir_def fs_wf_def)

lemma fs_lseek_wf [wf_keep]: "fs_wf f \<Longrightarrow> fs_wf (snd (fs_lseek fd off w f))"
  by (auto simp: fs_lseek_def Let_def intro: fs_wf_set_pos split: option.split)

lemma fs_read_wf [wf_keep]: "fs_wf f \<Longrightarrow> fs_wf (snd (fs_read fd n f))"
  by (auto simp: fs_read_def Let_def intro: fs_wf_set_pos split: option.split)

lemma fs_write_wf [wf_keep]: "fs_wf f \<Longrightarrow> fs_wf (snd (fs_write fd bs f))"
  by (auto simp: fs_write_def intro: fs_wf_set_pos split: option.split)

lemma fs_sendfile_wf [wf_keep]: "fs_wf f \<Longrightarrow> fs_wf (snd (fs_sendfile o_fd i_fd n f))"
  by (auto simp: fs_sendfile_def Let_def case_prod_beta intro!: wf_keep split: option.split)

section \<open>Backup and recovery\<close>

lemma copy_wf [wf_keep]: "fs_wf f \<Longrightarrow> fs_wf (snd (pclBackupDoFileCopy a b f))"
  by (simp add: pclBackupDoFileCopy_def Let_def case_prod_beta wf_keep)

lemma create_folders_wf [wf_keep]: "fs_wf f \<Longrightarrow> fs_wf (snd (create_folders p ts f))"
  by (induction ts arbitrary: p f) (simp_all add: Let_def wf_keep)

lemma pclCreateFile_wf: "pclCreateFile c p f = Some (h, g) \<Longrightarrow> fs_wf f \<Longrightarrow> fs_wf g"
  by (auto simp: pclCreateFile_def Let_def case_prod_beta intro!: create_folders_wf intro: fs_open_result_wf
      split: Option.bind_splits if_splits)

lemma csum_same: "pclCalcCrc32Csum fd [] f = Some (r, x, g) \<Longrightarrow> g = f"
proof -
  assume a: "pclCalcCrc32Csum fd [] f = Some (r, x, g)"
  then obtain d where "get_fd f fd = Some d"
    by (auto simp: pclCalcCrc32Csum_def fs_fstat_def split: Option.bind_splits)
  from pclCalcCrc32Csum_open [OF this] a show ?thesis by simp
qed

lemma recover_wf [wf_keep]: "fs_wf f \<Longrightarrow> fs_wf (snd (pclRecoverFromBackup b p f))"
  by (simp add: pclRecoverFromBackup_def Let_def case_prod_beta wf_keep)

lemma recover_result_wf: "pclRecoverFromBackup b p f = (h, g) \<Longrightarrow> fs_wf f \<Longrightarrow> fs_wf g"
  using recover_wf by (metis snd_conv)

lemma check_original_wf: "check_original p m x f = Some (h, g) \<Longrightarrow> fs_wf f \<Longrightarrow> fs_wf g"
  by (auto simp: check_original_def Let_def case_prod_beta dest!: csum_same intro!: wf_keep
      split: Option.bind_splits if_splits)

lemma read_csum_wf [wf_keep]: "fs_wf f \<Longrightarrow> fs_wf (snd (read_csum fd f))"
  by (simp add: read_csum_def Let_def case_prod_beta wf_keep)

lemma verify_both_wf: "verify_both p b k m f = Some (h, g) \<Longrightarrow> fs_wf f \<Longrightarrow> fs_wf g"
  by (auto simp: verify_both_def Let_def case_prod_beta dest!: csum_same intro!: wf_keep
      intro: check_original_wf recover_result_wf split: Option.bind_splits if_splits)

lemma verify_csum_only_wf: "verify_csum_only p k m f = Some (h, g) \<Longrightarrow> fs_wf f \<Longrightarrow> fs_wf g"
  by (auto simp: verify_csum_only_def Let_def case_prod_beta elim!: check_original_wf intro!: wf_keep
      split: Option.bind_splits if_splits)

lemma verify_backup_only_wf: "verify_backup_only p b m f = Some (h, g) \<Longrightarrow> fs_wf f \<Longrightarrow> fs_wf g"
  by (auto simp: verify_backup_only_def Let_def case_prod_beta dest!: csum_same elim!: check_original_wf
      intro!: wf_keep split: Option.bind_splits if_splits)

lemma verify_wf: "pclVerifyConsistency p b k m f = Some (h, g) \<Longrightarrow> fs_wf f \<Longrightarrow> fs_wf g"
  by (auto simp: pclVerifyConsistency_def Let_def intro!: wf_keep
      dest: verify_both_wf verify_csum_only_wf verify_backup_only_wf split: Option.bind_splits if_splits)

lemma pclCreateBackup_wf: "pclCreateBackup c p fd k x f = Some (r, g) \<Longrightarrow> fs_wf f \<Longrightarrow> fs_wf g"
  by (auto simp: pclCreateBackup_def Let_def case_prod_beta dest!: pclCreateFile_wf intro!: wf_keep
      split: Option.bind_splits if_splits)

section \<open>The file API\<close>

lemma on_fs_sel [simp]:
  "fsys (snd (on_fs g s)) = snd (g (fsys s))" "hnd (snd (on_fs g s)) = hnd s" "pipe (snd (on_fs g s)) = pipe s"
  by (simp_all add: on_fs_def case_prod_beta)

lemma sys_write_wf: "sys_write fd b n f = Some (r, g) \<Longrightarrow> fs_wf f \<Longrightarrow> fs_wf g"
  using fs_write_wf [of f fd "take (nat n) b"] by (auto simp: sys_write_def split: if_splits)

lemma default_data_wf [wf_keep]: "fs_wf f \<Longrightarrow> fs_wf (snd (pclFileGetDefaultData c app h rid pol f))"
  by (simp add: pclFileGetDefaultData_def Let_def case_prod_beta wf_keep)

end
