(* ===== verification/Reachable.thy ===== *)
theory Reachable
  imports Data_Invariant Fs_Invariant Shutdown
begin

text \<open>
  The library as a whole: every call of its interface (\<open>src/persistence_client_library.c\<close>, \<open>_key.c\<close>,
  \<open>_file.c\<close>), every message from the bus and every command of the main loop is a step
  (\<open>lib_step\<close>); a state is reachable from static storage by any sequence of them, in any order.
  \<open>state_ok\<close> holds in every reachable state, and with it the main loop can carry out whatever it
  finds in the pipe.
\<close>

section \<open>The invariant\<close>

definition handles_bounded :: "handle_state \<Rightarrow> bool" where
  "handles_bounded h \<longleftrightarrow> mutex_rc h = (\<lambda>_. 0) \<and> 0 < gHandleIdx h \<and> gHandleIdx h < int MaxPersHandle \<and>
     0 \<le> gFreeHandleIdxHead h \<and> gFreeHandleIdxHead h \<le> int MaxPersHandle \<and>
     (\<forall>k. length (resource_id (gKeyHandleArray h k)) < wire_string_size)"

definition state_ok :: "'w pcl \<Rightarrow> bool" where
  "state_ok s \<longleftrightarrow> handles_bounded (hnd s) \<and> fs_wf (fsys s) \<and> (\<forall>d \<in> set (pipe s). command_ok d)"

interpretation kept: data_invariant state_ok
  by unfold_locales (auto simp: state_ok_def)

lemma state_ok_hnd: "state_ok s \<Longrightarrow> handles_bounded h \<Longrightarrow> state_ok (s\<lparr>hnd := h\<rparr>)"
  by (simp add: state_ok_def)

lemma state_ok_fsys: "state_ok s \<Longrightarrow> fs_wf f \<Longrightarrow> state_ok (s\<lparr>fsys := f\<rparr>)"
  by (simp add: state_ok_def)

lemma state_okD: "state_ok s \<Longrightarrow> handles_bounded (hnd s)" "state_ok s \<Longrightarrow> fs_wf (fsys s)"
  by (simp_all add: state_ok_def)

lemma on_fs_ok: "state_ok s \<Longrightarrow> fs_wf (snd (g (fsys s))) \<Longrightarrow> state_ok (snd (on_fs g s))"
  by (simp add: state_ok_def)

section \<open>Handles\<close>

named_theorems handles_keep \<comment> \<open>an operation keeps the handle tables in order\<close>

lemma pool_take_ok [handles_keep]: "get_persistence_handle_idx h = Some (i, g) \<Longrightarrow> handles_bounded h \<Longrightarrow> handles_bounded g"
  by (auto simp: get_persistence_handle_idx_def handles_bounded_def Let_def split: Option.bind_splits if_splits)

lemma pool_give_ok [handles_keep]: "set_persistence_handle_close_idx i h = Some g \<Longrightarrow> handles_bounded h \<Longrightarrow> handles_bounded g"
  by (auto simp: set_persistence_handle_close_idx_def handles_bounded_def split: Option.bind_splits if_splits)

lemma pool_reset_ok: "handles_bounded h \<Longrightarrow> handles_bounded (close_all_persistence_handle h)"
  by (simp add: close_all_persistence_handle_def handles_bounded_def c_const)

lemma key_table_init_ok: "handles_bounded h \<Longrightarrow> handles_bounded (init_key_handle_array h)"
  by (simp add: init_key_handle_array_def handles_bounded_def key_handle_zero_def wire_string_size_def)

lemma key_entry_ok:
  "set_key_handle_data c i rid lid u st h = Some (r, g) \<Longrightarrow> handles_bounded h \<Longrightarrow> length rid < wire_string_size \<Longrightarrow> handles_bounded g"
  by (auto simp: set_key_handle_data_def handles_bounded_def dest!: wr_SomeD split: Option.bind_splits if_splits)

lemma key_clear_ok [handles_keep]: "clear_key_handle_array i h = Some g \<Longrightarrow> handles_bounded h \<Longrightarrow> handles_bounded g"
  by (auto simp: clear_key_handle_array_def handles_bounded_def key_handle_zero_def wire_string_size_def dest!: wr_SomeD
      split: Option.bind_splits if_splits)

lemma file_entry_ok [handles_keep]:
  "set_file_handle_data c i p b k x h = Some (r, g) \<Longrightarrow> handles_bounded h \<Longrightarrow> handles_bounded g"
  "set_file_backup_status i v h = Some g \<Longrightarrow> handles_bounded h \<Longrightarrow> handles_bounded g"
  "set_file_cache_status i v h = Some g \<Longrightarrow> handles_bounded h \<Longrightarrow> handles_bounded g"
  by (auto simp: set_file_handle_data_def set_file_backup_status_def set_file_cache_status_def handles_bounded_def
      split: Option.bind_splits if_splits)

lemma path_entry_ok [handles_keep]:
  "set_ossfile_handle_data c i p n b k x h = Some (r, g) \<Longrightarrow> handles_bounded h \<Longrightarrow> handles_bounded g"
  "set_ossfile_file_path i x h = Some g \<Longrightarrow> handles_bounded h \<Longrightarrow> handles_bounded g"
  by (auto simp: set_ossfile_handle_data_def set_ossfile_file_path_def handles_bounded_def
      split: Option.bind_splits if_splits)

lemma open_flags_ok [handles_keep]:
  "add_open_fd i d h = Some g \<Longrightarrow> handles_bounded h \<Longrightarrow> handles_bounded g"
  "add_open_handle i d h = Some g \<Longrightarrow> handles_bounded h \<Longrightarrow> handles_bounded g"
  by (auto simp: add_open_fd_def add_open_handle_def handles_bounded_def split: Option.bind_splits)

lemma key_entry_short:
  "get_key_handle_data i key_handle_zero h = Some (r, k) \<Longrightarrow> handles_bounded h \<Longrightarrow> length (resource_id k) < wire_string_size"
  by (auto simp: get_key_handle_data_def handles_bounded_def key_handle_zero_def wire_string_size_def dest!: rd_SomeD
      split: Option.bind_splits if_splits)

section \<open>Key handles\<close>

lemma handle_open_ok:
  "pclKeyHandleOpen E junk lid rid u st s = Some (r, t) \<Longrightarrow> state_ok s \<Longrightarrow> length rid < wire_string_size \<Longrightarrow> state_ok t"
  by (auto simp: pclKeyHandleOpen_def dest!: kept.context_read intro!: state_ok_hnd
      split: Option.bind_splits if_splits) (metis key_entry_ok pool_take_ok state_okD(1))

lemma handle_close_ok: "pclKeyHandleClose i s = Some (r, t) \<Longrightarrow> state_ok s \<Longrightarrow> state_ok t"
  by (auto simp: pclKeyHandleClose_def intro!: state_ok_hnd split: Option.bind_splits if_splits)
    (metis key_clear_ok pool_give_ok state_okD(1))

lemma with_handle_ok:
  assumes "with_key_handle i bad op s = Some (r, t)" and ok: "state_ok s"
    and step: "\<And>k. length (resource_id k) < wire_string_size \<Longrightarrow> op k s = Some (r, t) \<Longrightarrow> state_ok t"
  shows "state_ok t"
proof -
  have "t = s \<or> (\<exists>q k. get_key_handle_data i key_handle_zero (hnd s) = Some (q, k) \<and> op k s = Some (r, t))"
    using assms(1) by (auto simp: with_key_handle_def split: Option.bind_splits if_splits)
  then show ?thesis using ok step key_entry_short [OF _ state_okD(1) [OF ok]] by blast
qed

lemma handle_read_ok: "pclKeyHandleReadData E junk i buf n s = Some (r, t) \<Longrightarrow> state_ok s \<Longrightarrow> state_ok t"
  unfolding pclKeyHandleReadData_def by (erule (1) with_handle_ok) (rule kept.key_read)

lemma handle_size_ok: "pclKeyHandleGetSize E junk i s = Some (r, t) \<Longrightarrow> state_ok s \<Longrightarrow> state_ok t"
  unfolding pclKeyHandleGetSize_def by (erule (1) with_handle_ok) (rule kept.key_size)

lemma handle_write_ok: "pclKeyHandleWriteData E junk i buf n s = Some (r, t) \<Longrightarrow> state_ok s \<Longrightarrow> state_ok t"
  unfolding pclKeyHandleWriteData_def by (erule (1) with_handle_ok) (rule kept.key_written)

lemma handle_notify_ok: "handleRegNotifyOnChange E junk i cb pol s = Some (r, t) \<Longrightarrow> state_ok s \<Longrightarrow> state_ok t"
  unfolding handleRegNotifyOnChange_def by (erule (1) with_handle_ok) (rule kept.key_notify)

lemma key_callback_ok:
  "pclKeyRegisterNotifyOnChange E junk lid rid u st cb s = Some (r, t) \<Longrightarrow> state_ok s \<Longrightarrow> length rid < wire_string_size \<Longrightarrow> state_ok t"
  "pclKeyUnRegisterNotifyOnChange E junk lid rid u st cb s = Some (r, t) \<Longrightarrow> state_ok s \<Longrightarrow> length rid < wire_string_size \<Longrightarrow> state_ok t"
  by (auto simp: pclKeyRegisterNotifyOnChange_def pclKeyUnRegisterNotifyOnChange_def dest: kept.key_notify split: if_splits)

lemma handle_callback_ok:
  "pclKeyHandleRegisterNotifyOnChange E junk i cb s = Some (r, t) \<Longrightarrow> state_ok s \<Longrightarrow> state_ok t"
  "pclKeyHandleUnRegisterNotifyOnChange E junk i cb s = Some (r, t) \<Longrightarrow> state_ok s \<Longrightarrow> state_ok t"
  by (auto simp: pclKeyHandleRegisterNotifyOnChange_def pclKeyHandleUnRegisterNotifyOnChange_def
      dest: handle_notify_ok split: if_splits)

section \<open>Files\<close>

lemma file_context_ok: "file_context E junk lid rid u st s = Some (r, t) \<Longrightarrow> state_ok s \<Longrightarrow> state_ok t"
  by (auto simp: file_context_def dest: kept.db_context)

lemma file_close_ok: "pclFileClose E fd s = Some (r, t) \<Longrightarrow> state_ok s \<Longrightarrow> state_ok t"
  by (auto simp: pclFileClose_def on_fs_def case_prod_beta state_ok_def intro!: wf_keep dest!: open_flags_ok
      split: Option.bind_splits if_splits)

lemma file_read_ok: "pclFileReadData fd buf n s = Some (r, t) \<Longrightarrow> state_ok s \<Longrightarrow> state_ok t"
  using fs_read_wf [of "fsys s" fd "nat n"]
  by (auto simp: pclFileReadData_def intro!: state_ok_fsys dest: state_okD split: if_splits prod.splits)

lemma file_seek_ok: "pclFileSeek fd off w s = (r, t) \<Longrightarrow> state_ok s \<Longrightarrow> state_ok t"
  using on_fs_ok [of s "fs_lseek fd off w"] fs_lseek_wf [of "fsys s" fd off w]
  by (auto simp: pclFileSeek_def dest: state_okD split: if_splits)

lemma file_remove_ok: "pclFileRemove E junk lid rid u st s = Some (r, t) \<Longrightarrow> state_ok s \<Longrightarrow> state_ok t"
  by (auto simp: pclFileRemove_def dest!: file_context_ok intro: state_okD
      split: Option.bind_splits if_splits) (metis fs_remove_wf on_fs_ok snd_conv state_okD(2))

lemma backup_before_write_ok: "backup_before_write E fd s = Some t \<Longrightarrow> state_ok s \<Longrightarrow> state_ok t"
  by (auto simp: backup_before_write_def state_ok_def dest!: csum_same pclCreateBackup_wf file_entry_ok
      split: Option.bind_splits if_splits)

lemma file_write_ok: "pclFileWriteData E fd buf n s = Some (r, t) \<Longrightarrow> state_ok s \<Longrightarrow> state_ok t"
  by (auto simp: pclFileWriteData_def Let_def dest!: backup_before_write_ok sys_write_wf dest: state_okD
      intro!: state_ok_fsys wf_keep split: Option.bind_splits if_splits)

lemma created_ok: "create_with_defaults E p rid pol c s = Some (h, t) \<Longrightarrow> state_ok s \<Longrightarrow> state_ok t"
  by (auto simp: create_with_defaults_def state_ok_def dest!: pclCreateFile_wf file_entry_ok intro!: wf_keep
      split: Option.bind_splits if_splits)

lemma registered_ok: "register_fd E h p b k w s = Some (r, t) \<Longrightarrow> state_ok s \<Longrightarrow> state_ok t"
  by (auto simp: register_fd_def state_ok_def dest!: file_entry_ok open_flags_ok intro!: wf_keep
      split: Option.bind_splits if_splits)

lemma checked_ok: "check_before_open E ck raw p b k h0 s = Some (r, t) \<Longrightarrow> state_ok s \<Longrightarrow> state_ok t"
  by (auto simp: check_before_open_def state_ok_def dest!: verify_wf split: Option.bind_splits if_splits)

lemma configured_ok: "open_configured E info rid k p b c s = Some (r, t) \<Longrightarrow> state_ok s \<Longrightarrow> state_ok t"
proof -
  assume s: "state_ok s" and o: "open_configured E info rid k p b c s = Some (r, t)"
  have op: "state_ok u \<Longrightarrow> on_fs (fs_open p m False False) u = (x, v) \<Longrightarrow> state_ok v" for u v x m
    using fs_open_wf [of "fsys u" p m False False] by (auto simp: on_fs_def case_prod_beta state_ok_def)
  show "state_ok t" using o s
    by (auto simp: open_configured_def Let_def dest!: checked_ok created_ok registered_ok dest: op
        split: Option.bind_splits if_splits prod.splits)
qed

lemma file_new_ok:
  "state_ok s \<Longrightarrow> pclCreateFile E p (fsys s) = Some (x, f) \<Longrightarrow> set_file_cache_status x 1 (hnd s) = Some h \<Longrightarrow>
   state_ok (s\<lparr>fsys := f, hnd := h\<rparr>)"
  by (auto simp: state_ok_def dest!: pclCreateFile_wf file_entry_ok)

lemma file_open_ok: "pclFileOpen E junk lid rid u st s = Some (r, t) \<Longrightarrow> state_ok s \<Longrightarrow> state_ok t"
  by (auto simp: pclFileOpen_def Let_def dest!: file_context_ok configured_ok
      split: Option.bind_splits if_splits) (metis file_new_ok registered_ok)+

lemma path_file_ok: "create_path_file E p rid pol s = Some t \<Longrightarrow> state_ok s \<Longrightarrow> state_ok t"
  by (auto simp: create_path_file_def dest!: created_ok dest: state_okD intro!: on_fs_ok wf_keep
      split: Option.bind_splits if_splits)

lemma closed_ok: "state_ok s \<Longrightarrow> state_ok (if c then snd (on_fs (fs_close fd) s) else s)"
  using fs_close_wf [of "fsys s" fd] by (simp add: state_ok_def)

lemma path_configured_ok: "path_configured E info rid p s = Some (r, t) \<Longrightarrow> state_ok s \<Longrightarrow> state_ok t"
  by (auto simp: path_configured_def Let_def bind_eq_Some_conv on_fs_def case_prod_beta dest!: checked_ok
      path_file_ok [OF _ state_ok_hnd] pool_take_ok pool_give_ok open_flags_ok path_entry_ok
      intro!: state_ok_hnd state_ok_fsys wf_keep dest: state_okD split: if_splits)

lemma path_unconfigured_ok: "path_unconfigured E rid u st s = Some (r, t) \<Longrightarrow> state_ok s \<Longrightarrow> state_ok t"
  by (auto simp: path_unconfigured_def Let_def intro!: state_ok_hnd
      dest!: handles_keep dest: state_okD split: Option.bind_splits if_splits)

lemma path_create_ok: "pclFileCreatePath E junk lid rid u st s = Some (r, t) \<Longrightarrow> state_ok s \<Longrightarrow> state_ok t"
  by (auto simp: pclFileCreatePath_def dest!: file_context_ok dest: path_configured_ok path_unconfigured_ok
      split: Option.bind_splits if_splits)

lemma path_release_ok: "pclFileReleasePath E i s = Some (r, t) \<Longrightarrow> state_ok s \<Longrightarrow> state_ok t"
  by (auto simp: pclFileReleasePath_def on_fs_def case_prod_beta state_ok_def intro!: wf_keep dest!: handles_keep
      split: Option.bind_splits if_splits)

section \<open>Lifecycle and the main loop\<close>

lemma blacklist_ok: "readBlacklistConfigFile nm mapped mem s = Some (r, t) \<Longrightarrow> state_ok s \<Longrightarrow> state_ok t"
proof -
  have a: "createAndStoreFileNames mem a = Some b \<Longrightarrow> fsys b = fsys a \<and> (state_ok a \<longrightarrow> state_ok b)" for a b :: "'a pcl"
    by (auto simp: createAndStoreFileNames_def Let_def bind_eq_Some_conv case_prod_beta split: prod.splits if_splits)
  show "readBlacklistConfigFile nm mapped mem s = Some (r, t) \<Longrightarrow> state_ok s \<Longrightarrow> state_ok t"
    by (auto simp: readBlacklistConfigFile_def fillFileBackupCharTokenArray_def Let_def bind_eq_Some_conv case_prod_beta
        intro!: state_ok_fsys wf_keep dest!: a dest: state_okD split: option.splits if_splits)
qed

lemma unload_ok: "state_ok s \<Longrightarrow> state_ok (unload_plugins E s)"
  unfolding unload_plugins_def
  by (rule fold_keeps) (auto simp: unload_plugin_def Let_def case_prod_beta split: option.splits)

lemma shutdown_ok: "state_ok s \<Longrightarrow> state_ok (process_prepare_shutdown E c s)"
proof -
  assume s: "state_ok s"
  have f: "state_ok u \<Longrightarrow> state_ok (shutdown_files c u)" for u :: "'a pcl"
    unfolding shutdown_files_def
    by (rule fold_keeps) (auto simp: shutdown_fd_def intro!: state_ok_fsys wf_keep dest: state_okD)
  have r: "state_ok u \<Longrightarrow> state_ok (pers_rct_close_all E u)" for u :: "'a pcl"
    unfolding pers_rct_close_all_def
    by (rule fold_keeps) (auto simp: close_rct_def invalidate_resource_cfg_table_def bind_eq_Some_conv split: option.splits)
  have d: "state_ok u \<Longrightarrow> state_ok (database_close_all E u)" for u :: "'a pcl"
    unfolding database_close_all_def
    by (rule fold_keeps, rule fold_keeps) (auto simp: close_database_def Let_def case_prod_beta)
  show ?thesis using s
    by (auto simp: process_prepare_shutdown_def Let_def pers_lock_access_def
        intro!: f r d unload_ok state_ok_hnd pool_reset_ok state_okD(1) [OF s])
qed

lemma command_kept: "process_command E me d s = Some (g, t) \<Longrightarrow> state_ok s \<Longrightarrow> state_ok t"
  by (cases "cmd d")
    (auto simp: process_command_def process_send_pas_request_def process_block_and_write_data_back_def pers_lock_access_def
      process_send_lifecycle_request_def process_send_notification_signal_def process_reg_notification_signal_def
      process_send_pas_register_def process_send_lifecycle_register_def Let_def bind_eq_Some_conv
      intro!: shutdown_ok split: option.splits if_splits)

lemma loop_command_ok: "mainloop_command E me s = Some (g, t) \<Longrightarrow> state_ok s \<Longrightarrow> state_ok t"
proof -
  have "state_ok s \<Longrightarrow> pipe s = d # ds \<Longrightarrow> state_ok (s\<lparr>pipe := ds\<rparr>)" for d ds
    by (simp add: state_ok_def)
  then show "mainloop_command E me s = Some (g, t) \<Longrightarrow> state_ok s \<Longrightarrow> state_ok t"
    by (auto simp: mainloop_command_def dest: command_kept split: list.splits)
qed

lemma init_ok: "pclInitLibrary E V app mode s = Some (r, t) \<Longrightarrow> state_ok s \<Longrightarrow> state_ok t"
proof -
  have d: "state_ok u \<Longrightarrow> state_ok (snd (setup_dbus_mainloop a b c p u))" for a b c p and u :: "'a pcl"
    by (auto simp: setup_dbus_mainloop_def state_ok_def)
  have r: "state_ok u \<Longrightarrow> state_ok (snd (init_services V mode u))" for u :: "'a pcl"
    by (auto simp: init_services_def register_lifecycle_def register_pers_admin_service_def Let_def case_prod_beta
        intro!: kept.lifecycle_registration kept.admin_registration)
  have f: "init_finish E V app u = Some (x, v) \<Longrightarrow> state_ok u \<Longrightarrow> state_ok v" for u x v
    by (auto simp: init_finish_def pers_unlock_access_def Let_def bind_eq_Some_conv dest!: kept.plugins
        intro!: state_ok_hnd key_table_init_ok dest: state_okD)
  show "pclInitLibrary E V app mode s = Some (r, t) \<Longrightarrow> state_ok s \<Longrightarrow> state_ok t"
    by (auto simp: pclInitLibrary_def Let_def bind_eq_Some_conv case_prod_beta dest!: blacklist_ok f intro!: d r
        split: if_splits option.splits) (metis d r snd_conv)+
qed

lemma deinit_ok: "pclDeinitLibrary E V s = (r, t) \<Longrightarrow> state_ok s \<Longrightarrow> state_ok t"
proof -
  have q: "state_ok u \<Longrightarrow> state_ok (snd (deliverToMainloop_NM \<lparr>cmd = CMD_QUIT, params = [], mstring = []\<rparr> u))" for u :: "'a pcl"
    by (rule kept.deliver_NM) (simp_all add: command_ok_def)
  show "pclDeinitLibrary E V s = (r, t) \<Longrightarrow> state_ok s \<Longrightarrow> state_ok t"
    by (auto simp: pclDeinitLibrary_def unregister_lifecycle_def unregister_pers_admin_service_def Let_def case_prod_beta
        intro!: q shutdown_ok unload_ok kept.lifecycle_registration kept.admin_registration split: if_splits)
qed

lemma lifecycle_set_ok: "pclLifecycleSet E mode s = (r, t) \<Longrightarrow> state_ok s \<Longrightarrow> state_ok t"
  by (auto simp: pclLifecycleSet_def pers_unlock_access_def intro!: shutdown_ok split: if_splits)

section \<open>Steps and reachable states\<close>

text \<open>A step is one call, message or command that returns. What the environment decides is left open in
  each: the junk of uninitialised locals, the messages, the answers of the system (\<open>init_env\<close>), what other
  processes do to the databases (\<open>world\<close>), whether the pipe can be written. Resource ids that go to the
  main loop are shorter than the bytes that are sent of them.\<close>

inductive lib_step :: "('w, 'e) perscom_scheme \<Rightarrow> 'w pcl \<Rightarrow> 'w pcl \<Rightarrow> bool" for E where
  step_init: "pclInitLibrary E V app mode s = Some (r, t) \<Longrightarrow> lib_step E s t"
| step_deinit: "pclDeinitLibrary E V s = (r, t) \<Longrightarrow> lib_step E s t"
| step_lifecycle: "pclLifecycleSet E mode s = (r, t) \<Longrightarrow> lib_step E s t"
| step_key_read: "pclKeyReadData E junk lid rid u st buf n s = Some (rb, t) \<Longrightarrow> lib_step E s t"
| step_key_size: "pclKeyGetSize E junk lid rid u st s = Some (r, t) \<Longrightarrow> lib_step E s t"
| step_key_write: "pclKeyWriteData E junk lid rid u st buf n s = Some (r, t) \<Longrightarrow> length rid < wire_string_size \<Longrightarrow> lib_step E s t"
| step_key_delete: "pclKeyDelete E junk lid rid u st s = Some (r, t) \<Longrightarrow> length rid < wire_string_size \<Longrightarrow> lib_step E s t"
| step_key_register:
    "pclKeyRegisterNotifyOnChange E junk lid rid u st cb s = Some (r, t) \<Longrightarrow> length rid < wire_string_size \<Longrightarrow> lib_step E s t"
| step_key_unregister:
    "pclKeyUnRegisterNotifyOnChange E junk lid rid u st cb s = Some (r, t) \<Longrightarrow> length rid < wire_string_size \<Longrightarrow> lib_step E s t"
| step_handle_open: "pclKeyHandleOpen E junk lid rid u st s = Some (r, t) \<Longrightarrow> length rid < wire_string_size \<Longrightarrow> lib_step E s t"
| step_handle_close: "pclKeyHandleClose i s = Some (r, t) \<Longrightarrow> lib_step E s t"
| step_handle_read: "pclKeyHandleReadData E junk i buf n s = Some (rb, t) \<Longrightarrow> lib_step E s t"
| step_handle_size: "pclKeyHandleGetSize E junk i s = Some (r, t) \<Longrightarrow> lib_step E s t"
| step_handle_write: "pclKeyHandleWriteData E junk i buf n s = Some (r, t) \<Longrightarrow> lib_step E s t"
| step_handle_register: "pclKeyHandleRegisterNotifyOnChange E junk i cb s = Some (r, t) \<Longrightarrow> lib_step E s t"
| step_handle_unregister: "pclKeyHandleUnRegisterNotifyOnChange E junk i cb s = Some (r, t) \<Longrightarrow> lib_step E s t"
| step_file_open: "pclFileOpen E junk lid rid u st s = Some (r, t) \<Longrightarrow> lib_step E s t"
| step_file_close: "pclFileClose E fd s = Some (r, t) \<Longrightarrow> lib_step E s t"
| step_file_read: "pclFileReadData fd buf n s = Some (rb, t) \<Longrightarrow> lib_step E s t"
| step_file_write: "pclFileWriteData E fd buf n s = Some (r, t) \<Longrightarrow> lib_step E s t"
| step_file_seek: "pclFileSeek fd off whence s = (r, t) \<Longrightarrow> lib_step E s t"
| step_file_remove: "pclFileRemove E junk lid rid u st s = Some (r, t) \<Longrightarrow> lib_step E s t"
| step_path_create: "pclFileCreatePath E junk lid rid u st s = Some (rp, t) \<Longrightarrow> lib_step E s t"
| step_path_release: "pclFileReleasePath E i s = Some (r, t) \<Longrightarrow> lib_step E s t"
| step_message: "dispatch_message usePas path m s = Some (r, t) \<Longrightarrow> lib_step E s t"
| step_command: "mainloop_command E me s = Some (goes_on, t) \<Longrightarrow> lib_step E s t"
| step_environment: "lib_step E s (s\<lparr>world := w, pipe_rc := rc\<rparr>)"

inductive reachable :: "('w, 'e) perscom_scheme \<Rightarrow> 'w pcl \<Rightarrow> bool" for E where
  reachable_start: "fs_wf f \<Longrightarrow> reachable E ((pcl_start E w)\<lparr>fsys := f\<rparr>)"
| reachable_step: "reachable E s \<Longrightarrow> lib_step E s t \<Longrightarrow> reachable E t"

inductive_cases lib_stepE: "lib_step E s t"
inductive_simps reachable_iff: "reachable E s"

lemma state_ok_start: "fs_wf f \<Longrightarrow> state_ok ((pcl_start c w)\<lparr>fsys := f\<rparr>)"
  by (simp add: state_ok_def handles_bounded_def pcl_start_def handle_init_def key_handle_zero_def wire_string_size_def c_const)

lemma lib_step_ok: "lib_step E s t \<Longrightarrow> state_ok s \<Longrightarrow> state_ok t"
  by (erule lib_stepE)
    (blast dest: init_ok deinit_ok lifecycle_set_ok kept.key_read kept.key_size kept.key_written kept.key_deleted
       key_callback_ok handle_open_ok handle_close_ok handle_read_ok handle_size_ok handle_write_ok handle_callback_ok
       file_open_ok file_close_ok file_read_ok file_write_ok file_seek_ok file_remove_ok path_create_ok path_release_ok
       kept.message loop_command_ok | simp)+

lemma reachable_ok: "reachable E s \<Longrightarrow> state_ok s"
  by (induction rule: reachable.induct) (blast intro: state_ok_start lib_step_ok)+

lemma start_reachable: "reachable E (pcl_start E w)"
proof -
  have "fs_wf (fs_start [])" by (auto simp: fs_wf_def fs_start_def get_fd_def nth_replicate split: if_splits)
  then have "reachable E ((pcl_start E w)\<lparr>fsys := fs_start []\<rparr>)" by (rule reachable_start)
  moreover have "(pcl_start E w)\<lparr>fsys := fs_start []\<rparr> = pcl_start E w" by (simp add: pcl_start_def)
  ultimately show ?thesis by simp
qed

section \<open>The main loop in a reachable state\<close>

lemma served: "state_ok s \<Longrightarrow> \<exists>g t. mainloop_command E me s = Some (g, t) \<and> state_ok t"
proof -
  assume ok: "state_ok s"
  have "\<exists>g t. mainloop_command E me s = Some (g, t)"
  proof (cases "pipe s")
    case Nil
    then show ?thesis by (auto simp: mainloop_command_def)
  next
    case (Cons d ds)
    then have "command_ok d" using ok by (simp add: state_ok_def)
    then show ?thesis using process_command_ok [of d E me "s\<lparr>pipe := ds\<rparr>"] Cons by (auto simp: mainloop_command_def)
  qed
  then show ?thesis using loop_command_ok ok by blast
qed

lemma run_served: "state_ok s \<Longrightarrow> \<exists>g t. mainloop_run E me n s = Some (g, t)"
proof (induction n arbitrary: s)
  case 0
  then show ?case by auto
next
  case (Suc n)
  from served [OF Suc.prems] obtain g t where "mainloop_command E me s = Some (g, t)" "state_ok t" by blast
  then show ?case using Suc.IH [of t] by (cases g) auto
qed

text \<open>A pipe with a quit in it.\<close>

lemma loop_quits:
  assumes ok: "state_ok s" and q: "\<exists>d \<in> set (pipe s). cmd d = CMD_QUIT"
    and rs: "\<forall>r \<in> set rs. pipe_round r" "length (pipe s) \<le> length rs" and tab: "table_ok pipefd (gPollInfo s)"
  shows "\<exists>t. mainLoop E usePas me pipefd rs s = Some (False, t)"
proof -
  obtain ds x rest where p: "pipe s = ds @ x # rest" "cmd x = CMD_QUIT" "\<forall>d \<in> set ds. cmd d \<noteq> CMD_QUIT"
    using split_list_first_prop [OF q] by blast
  then have "\<forall>d \<in> set ds. command_ok d \<and> cmd d \<noteq> CMD_QUIT" "length ds < length rs"
    using ok rs(2) by (auto simp: state_ok_def)
  then show ?thesis using mainLoop_pipe [OF rs(1) tab p(1) _ p(2), of E me usePas] by blast
qed

text \<open>The shutdown touches neither the pipe's condition nor the poll table.\<close>

definition loop_part :: "'w pcl \<Rightarrow> int \<times> tPollInfo" where
  "loop_part s = (pipe_rc s, gPollInfo s)"

lemma unload_loop_part: "loop_part (unload_plugins E s) = loop_part s"
  unfolding unload_plugins_def
  by (rule fold_keeps [where I = "\<lambda>u. loop_part u = loop_part s"])
    (auto simp: unload_plugin_def loop_part_def Let_def split: option.splits prod.splits)

lemma shutdown_loop_part: "loop_part (process_prepare_shutdown E c s) = loop_part s"
proof -
  have f: "loop_part (shutdown_files c u) = loop_part u" for u :: "'a pcl"
    unfolding shutdown_files_def
    by (rule fold_keeps [where I = "\<lambda>v. loop_part v = loop_part u"]) (simp_all add: shutdown_fd_def loop_part_def)
  have r: "loop_part (pers_rct_close_all E u) = loop_part u" for u :: "'a pcl"
    unfolding pers_rct_close_all_def
    by (rule fold_keeps [where I = "\<lambda>v. loop_part v = loop_part u"])
      (auto simp: close_rct_def invalidate_resource_cfg_table_def loop_part_def split: option.splits Option.bind_splits)
  have d: "loop_part (database_close_all E u) = loop_part u" for u :: "'a pcl"
    unfolding database_close_all_def
    by (rule fold_keeps [where I = "\<lambda>v. loop_part v = loop_part u"], rule fold_keeps [where I = "\<lambda>v. loop_part v = loop_part u"])
      (auto simp: close_database_def loop_part_def Let_def split: prod.splits)
  have "loop_part (u\<lparr>hnd := h\<rparr>) = loop_part u" for u :: "'a pcl" and h by (simp add: loop_part_def)
  then show ?thesis
    by (simp add: process_prepare_shutdown_def Let_def f r d unload_loop_part) (simp add: loop_part_def pers_lock_access_def)
qed

lemma deinit_quits:
  assumes o: "pclDeinitLibrary E V s = (r, t)" and i: "gPclInitialized s = 1" and rc: "pipe_rc s \<noteq> - 1"
  shows "(\<exists>d \<in> set (pipe t). cmd d = CMD_QUIT) \<and> gPollInfo t = gPollInfo s"
proof -
  let ?q = "\<lparr>cmd = CMD_QUIT, params = [], mstring = []\<rparr>"
  have l: "loop_part (snd (lc_registration k m u)) = loop_part u" "loop_part (snd (pas_registration k m u)) = loop_part u"
    for k m and u :: "'a pcl"
    by (auto simp: lc_registration_def pas_registration_def deliver_eq deliverToMainloop_NM_def loop_part_def Let_def)
  obtain u where u: "t = (snd (deliverToMainloop_NM ?q u))\<lparr>gPclInitialized := 0\<rparr>" "loop_part u = loop_part s"
    using o i by (auto simp: pclDeinitLibrary_def unregister_lifecycle_def unregister_pers_admin_service_def Let_def
        case_prod_beta shutdown_loop_part unload_loop_part l split: if_splits)
  then show ?thesis using rc by (auto simp: deliverToMainloop_NM_def loop_part_def)
qed

text \<open>The bound on the resource ids is sharp: a longer one stops the main loop.\<close>

lemma long_id_breaks_loop:
  assumes "wire_string_size \<le> length rid" and "wire_string_size < DbKeyMaxLen c" and "reason < 4"
    and "pipe s = []" and "pipe_rc s \<noteq> - 1"
  shows "mainloop_command E me (snd (pers_send_Notification_Signal c rid ctx reason s)) = None"
proof -
  have "length (take wire_string_size (snprintf (DbKeyMaxLen c) rid)) = wire_string_size"
    using assms(1,2) by (simp add: snprintf_def)
  then show ?thesis using assms(3-5)
    by (simp add: pers_send_Notification_Signal_def deliver_eq deliverToMainloop_NM_def mainloop_command_def
        process_command_def four_params_def param_def pipe_string_def)
qed

section \<open>Properties\<close>

lemma init_demo_reachable:
  "\<exists>s'. pclInitLibrary mem_env plain_env ''app'' 1 (pcl_start mem_env mem_start) = Some (1, s') \<and> reachable mem_env s' \<and>
     gPclInitialized s' = 1 \<and> gPollInfo s' = poll_init 5 \<and> pipe_rc s' = 0"
proof -
  obtain s' where s': "pclInitLibrary mem_env plain_env ''app'' 1 (pcl_start mem_env mem_start) = Some (1, s')"
      "gPclInitialized s' = 1" "gPollInfo s' = poll_init 5" "pipe_rc s' = 0"
    using init_demo by blast
  have "reachable mem_env s'" by (rule reachable_step [OF start_reachable step_init [OF s'(1)]])
  with s' show ?thesis by blast
qed





text \<open>C7: the last deinitialisation ends the main loop. In a reachable state with one user of the library
  left, if the pipe can be written, then after \<open>pclDeinitLibrary\<close> the loop comes to its end within as many
  rounds as there are commands in the pipe, so the join of the thread returns.\<close>

theorem deinit_ends_main_loop:
  assumes "reachable E s" and "pclDeinitLibrary E V s = (r, t)" and "gPclInitialized s = 1" and "pipe_rc s \<noteq> - 1"
    and "table_ok pipefd (gPollInfo s)" and "\<forall>x \<in> set rs. pipe_round x" and "length (pipe t) \<le> length rs"
  shows "\<exists>u. mainLoop E usePas me pipefd rs t = Some (False, u)"
proof -
  have "state_ok t" using deinit_ok [OF assms(2)] reachable_ok [OF assms(1)] .
  then show ?thesis using loop_quits [OF _ _ assms(6,7)] deinit_quits [OF assms(2-4)] assms(5) by simp
qed

theorem deinit_ends_main_loop_witness:
  "\<exists>s' r t rs u. pclInitLibrary mem_env plain_env ''app'' 1 (pcl_start mem_env mem_start) = Some (1, s') \<and>
     pclDeinitLibrary mem_env plain_env s' = (r, t) \<and> mainLoop mem_env False ''1.7'' 5 rs t = Some (False, u)"
proof -
  obtain s' where s': "pclInitLibrary mem_env plain_env ''app'' 1 (pcl_start mem_env mem_start) = Some (1, s')"
      "reachable mem_env s'" "gPclInitialized s' = 1" "gPollInfo s' = poll_init 5" "pipe_rc s' = 0"
    using init_demo_reachable by blast
  obtain r t where d: "pclDeinitLibrary mem_env plain_env s' = (r, t)" by fastforce
  have "table_ok 5 (gPollInfo s')"
    using s'(4) by (simp add: table_ok_def poll_inv_def poll_init_def poll_zero_def poll_entry_def)
  moreover have "\<forall>x \<in> set (replicate (length (pipe t)) quiet_round). pipe_round x"
    by (simp add: quiet_round_def pipe_round_def)
  ultimately show ?thesis
    using deinit_ends_main_loop [OF s'(2) d s'(3), of 5 "replicate (length (pipe t)) quiet_round" False "''1.7''"] s'(1,5) d
    by auto
qed

end
