(* ===== verification/Handshake.thy ===== *)
theory Handshake
  imports Pcl_State
begin

text \<open>
  The handshake between the callers of \<open>deliverToMainloop\<close> and the main loop
  (\<open>src/persistence_client_library_dbus_service.c\<close>): a caller writes its command while it holds
  \<open>gMainCondMtx\<close> and waits for \<open>gMainLoopCond\<close>; the loop reads a command, carries it out while it holds
  \<open>gMainCondMtx\<close>, and signals. \<open>deliverToMainloop_NM\<close> only writes.

  The threads take their steps in any order. Commands get numbers in the order in which they are written; a
  caller remembers the number of its own. Caller 0 is the main loop thread itself, when the callback of the
  client, which the loop calls, calls the library again. \<open>faults\<close> says what else may happen: commands
  written without waiting, writes that fail, and wake-ups without a signal, which POSIX allows.
\<close>

section \<open>State\<close>

datatype thread = Caller nat | Loop_thread

text \<open>Where a caller is in \<open>deliverToMainloop\<close>: with the first mutex, with both, after the write, waiting,
  woken but without the mutex, back from the wait, with the second mutex given back.\<close>

datatype caller_pc =
  Outside | Delivering | Locked | Written nat | Waiting nat | Woken nat | Back nat | Unlocked nat

type_synonym command = "nat \<times> MainLoopData"

datatype loop_pc =
  Polling | In_callback | Received command | Working command | Switched command | Signalled command | Ended

record sync_state =
  commands :: "command list"
  next_number :: nat
  gDeliverpMtx :: "nat option"
  gMainCondMtx :: "thread option"
  caller :: "nat \<Rightarrow> caller_pc"
  looper :: loop_pc
  carried_out :: "nat set"

record faults =
  asynchronous :: bool
  failing_writes :: bool
  spurious_wakeups :: bool

definition sync_start :: sync_state where
  "sync_start = \<lparr>commands = [], next_number = 0, gDeliverpMtx = None, gMainCondMtx = None,
     caller = (\<lambda>_. Outside), looper = Polling, carried_out = {}\<rparr>"

definition set_caller :: "nat \<Rightarrow> caller_pc \<Rightarrow> sync_state \<Rightarrow> sync_state" where
  "set_caller i p s = s\<lparr>caller := (caller s)(i := p)\<rparr>"

text \<open>Once the loop has ended, the pipe is closed.\<close>

definition write_command :: "MainLoopData \<Rightarrow> bool \<Rightarrow> sync_state \<Rightarrow> sync_state" where
  "write_command d works s =
     s\<lparr>commands := (if works \<and> looper s \<noteq> Ended then commands s @ [(next_number s, d)] else commands s),
       next_number := next_number s + 1\<rparr>"

section \<open>Steps\<close>

text \<open>\<open>deliverToMainloop\<close>.\<close>

inductive caller_step :: "faults \<Rightarrow> nat \<Rightarrow> sync_state \<Rightarrow> sync_state \<Rightarrow> bool" for F i where
  lock_deliver: "caller s i = Outside \<Longrightarrow> gDeliverpMtx s = None \<Longrightarrow> i = 0 \<longrightarrow> looper s = In_callback \<Longrightarrow>
     caller_step F i s (set_caller i Delivering (s\<lparr>gDeliverpMtx := Some i\<rparr>))"
| lock_cond: "caller s i = Delivering \<Longrightarrow> gMainCondMtx s = None \<Longrightarrow>
     caller_step F i s (set_caller i Locked (s\<lparr>gMainCondMtx := Some (Caller i)\<rparr>))"
| write_own: "caller s i = Locked \<Longrightarrow> works \<or> failing_writes F \<Longrightarrow>
     caller_step F i s (set_caller i (Written (next_number s)) (write_command d works s))"
| cond_wait: "caller s i = Written n \<Longrightarrow>
     caller_step F i s (set_caller i (Waiting n) (s\<lparr>gMainCondMtx := None\<rparr>))"
| wake_up: "caller s i = Waiting n \<Longrightarrow> spurious_wakeups F \<Longrightarrow> caller_step F i s (set_caller i (Woken n) s)"
| relock: "caller s i = Woken n \<Longrightarrow> gMainCondMtx s = None \<Longrightarrow>
     caller_step F i s (set_caller i (Back n) (s\<lparr>gMainCondMtx := Some (Caller i)\<rparr>))"
| unlock_cond: "caller s i = Back n \<Longrightarrow>
     caller_step F i s (set_caller i (Unlocked n) (s\<lparr>gMainCondMtx := None\<rparr>))"
| unlock_deliver: "caller s i = Unlocked n \<Longrightarrow>
     caller_step F i s (set_caller i Outside (s\<lparr>gDeliverpMtx := None\<rparr>))"

text \<open>The main loop around one command, and the callback of the client.\<close>

inductive loop_step :: "sync_state \<Rightarrow> sync_state \<Rightarrow> bool" where
  read_command: "looper s = Polling \<Longrightarrow> commands s = c # cs \<Longrightarrow> loop_step s (s\<lparr>commands := cs, looper := Received c\<rparr>)"
| loop_lock: "looper s = Received c \<Longrightarrow> gMainCondMtx s = None \<Longrightarrow>
     loop_step s (s\<lparr>gMainCondMtx := Some Loop_thread, looper := Working c\<rparr>)"
| loop_switch: "looper s = Working c \<Longrightarrow>
     loop_step s (s\<lparr>carried_out := insert (fst c) (carried_out s), looper := Switched c\<rparr>)"
| signal_waiter: "looper s = Switched c \<Longrightarrow> caller s i = Waiting n \<Longrightarrow>
     loop_step s (set_caller i (Woken n) (s\<lparr>looper := Signalled c\<rparr>))"
| signal_nobody: "looper s = Switched c \<Longrightarrow> \<forall>i n. caller s i \<noteq> Waiting n \<Longrightarrow> loop_step s (s\<lparr>looper := Signalled c\<rparr>)"
| loop_unlock: "looper s = Signalled c \<Longrightarrow>
     loop_step s (s\<lparr>gMainCondMtx := None, looper := (if cmd (snd c) = CMD_QUIT then Ended else Polling)\<rparr>)"
| callback_starts: "looper s = Polling \<Longrightarrow> loop_step s (s\<lparr>looper := In_callback\<rparr>)"
| callback_ends: "looper s = In_callback \<Longrightarrow> caller s 0 = Outside \<Longrightarrow> loop_step s (s\<lparr>looper := Polling\<rparr>)"

inductive sync_step :: "faults \<Rightarrow> sync_state \<Rightarrow> sync_state \<Rightarrow> bool" for F where
  by_caller: "caller_step F i s t \<Longrightarrow> sync_step F s t"
| by_loop: "loop_step s t \<Longrightarrow> sync_step F s t"
| deliver_NM: "asynchronous F \<Longrightarrow> works \<or> failing_writes F \<Longrightarrow> sync_step F s (write_command d works s)"

inductive sync_reach :: "faults \<Rightarrow> sync_state \<Rightarrow> bool" for F where
  sync_reach_start: "sync_reach F sync_start"
| sync_reach_step: "sync_reach F s \<Longrightarrow> sync_step F s t \<Longrightarrow> sync_reach F t"

inductive_cases caller_stepE: "caller_step F i s t"
inductive_cases loop_stepE: "loop_step s t"
inductive_cases sync_stepE: "sync_step F s t"

lemma set_caller_sel [simp]:
  "caller (set_caller i p s) = (caller s)(i := p)" "commands (set_caller i p s) = commands s"
  "next_number (set_caller i p s) = next_number s" "gDeliverpMtx (set_caller i p s) = gDeliverpMtx s"
  "gMainCondMtx (set_caller i p s) = gMainCondMtx s" "looper (set_caller i p s) = looper s"
  "carried_out (set_caller i p s) = carried_out s"
  by (simp_all add: set_caller_def)

lemma write_command_sel [simp]:
  "caller (write_command d w s) = caller s" "next_number (write_command d w s) = next_number s + 1"
  "gDeliverpMtx (write_command d w s) = gDeliverpMtx s" "gMainCondMtx (write_command d w s) = gMainCondMtx s"
  "looper (write_command d w s) = looper s" "carried_out (write_command d w s) = carried_out s"
  "set (commands (write_command d w s)) = set (commands s) \<union> (if w \<and> looper s \<noteq> Ended then {(next_number s, d)} else {})"
  by (simp_all add: write_command_def)

section \<open>The mutexes\<close>

text \<open>Who is inside \<open>deliverToMainloop\<close> holds the first mutex; the second is held exactly where the code
  holds it. After a signal, and until the mutex is given back, nobody waits.\<close>

definition holds_cond :: "caller_pc \<Rightarrow> bool" where
  "holds_cond p \<longleftrightarrow> p = Locked \<or> (\<exists>n. p = Written n \<or> p = Back n)"

definition loop_holds :: "loop_pc \<Rightarrow> bool" where
  "loop_holds l \<longleftrightarrow> (\<exists>c. l = Working c \<or> l = Switched c \<or> l = Signalled c)"

definition mutex_inv :: "sync_state \<Rightarrow> bool" where
  "mutex_inv s \<longleftrightarrow> (\<forall>i. caller s i \<noteq> Outside \<longleftrightarrow> gDeliverpMtx s = Some i) \<and>
     (\<forall>i. holds_cond (caller s i) \<longleftrightarrow> gMainCondMtx s = Some (Caller i)) \<and>
     (loop_holds (looper s) \<longleftrightarrow> gMainCondMtx s = Some Loop_thread) \<and>
     (\<forall>c i n. looper s = Signalled c \<longrightarrow> caller s i \<noteq> Waiting n)"

lemma pc_sel [simp]:
  "\<not> holds_cond Outside" "\<not> holds_cond Delivering" "holds_cond Locked" "holds_cond (Written n)" "\<not> holds_cond (Waiting n)"
  "\<not> holds_cond (Woken n)" "holds_cond (Back n)" "\<not> holds_cond (Unlocked n)"
  "\<not> loop_holds Polling" "\<not> loop_holds In_callback" "\<not> loop_holds (Received c)" "loop_holds (Working c)"
  "loop_holds (Switched c)" "loop_holds (Signalled c)" "\<not> loop_holds Ended"
  by (simp_all add: holds_cond_def loop_holds_def)

lemma mutex_inv_start: "mutex_inv sync_start"
  by (simp add: mutex_inv_def sync_start_def)

lemma mutex_inv_caller: "caller_step F i s t \<Longrightarrow> mutex_inv s \<Longrightarrow> mutex_inv t"
  by (erule caller_stepE; simp add: mutex_inv_def; metis caller_pc.distinct pc_sel option.distinct(1) option.inject thread.inject thread.distinct)

lemma mutex_inv_loop: "loop_step s t \<Longrightarrow> mutex_inv s \<Longrightarrow> mutex_inv t"
  by (erule loop_stepE; simp add: mutex_inv_def; metis caller_pc.distinct pc_sel option.distinct(1) option.inject thread.inject thread.distinct)

lemma mutex_inv_step: "sync_step F s t \<Longrightarrow> mutex_inv s \<Longrightarrow> mutex_inv t"
proof (erule sync_stepE)
  show "mutex_inv s \<Longrightarrow> t = write_command d works s \<Longrightarrow> mutex_inv t" for d works by (simp add: mutex_inv_def)
qed (blast intro: mutex_inv_caller mutex_inv_loop)+

lemma mutex_inv_reach: "sync_reach F s \<Longrightarrow> mutex_inv s"
  by (induction rule: sync_reach.induct) (auto intro: mutex_inv_start mutex_inv_step)

lemma one_inside: "mutex_inv s \<Longrightarrow> caller s i \<noteq> Outside \<Longrightarrow> caller s j \<noteq> Outside \<Longrightarrow> i = j"
  unfolding mutex_inv_def by (metis option.inject)

section \<open>No signal is lost\<close>

text \<open>A command is pending until the loop has signalled that it is done.\<close>

definition in_loop :: "nat \<Rightarrow> loop_pc \<Rightarrow> bool" where
  "in_loop n l \<longleftrightarrow> (\<exists>d. l = Received (n, d) \<or> l = Working (n, d) \<or> l = Switched (n, d))"

definition pending :: "nat \<Rightarrow> sync_state \<Rightarrow> bool" where
  "pending n s \<longleftrightarrow> n \<in> fst ` set (commands s) \<or> in_loop n (looper s)"

definition waits_for :: "caller_pc \<Rightarrow> nat \<Rightarrow> bool" where
  "waits_for p n \<longleftrightarrow> p = Written n \<or> p = Waiting n"

definition signal_inv :: "sync_state \<Rightarrow> bool" where
  "signal_inv s \<longleftrightarrow> (\<forall>i n. waits_for (caller s i) n \<longrightarrow> pending n s \<or> looper s = Ended)"

lemma waits_sel [simp]:
  "\<not> waits_for Outside n" "\<not> waits_for Delivering n" "\<not> waits_for Locked n" "waits_for (Written m) n \<longleftrightarrow> m = n"
  "waits_for (Waiting m) n \<longleftrightarrow> m = n" "\<not> waits_for (Woken m) n" "\<not> waits_for (Back m) n" "\<not> waits_for (Unlocked m) n"
  by (auto simp: waits_for_def)

lemma in_loop_sel [simp]:
  "\<not> in_loop n Polling" "\<not> in_loop n In_callback" "in_loop n (Received c) \<longleftrightarrow> fst c = n" "in_loop n (Working c) \<longleftrightarrow> fst c = n"
  "in_loop n (Switched c) \<longleftrightarrow> fst c = n" "\<not> in_loop n (Signalled c)" "\<not> in_loop n Ended"
  by (cases c; auto simp: in_loop_def)+

lemma signal_inv_caller:
  assumes "caller_step F i s t" and "\<not> failing_writes F" and g: "signal_inv s"
  shows "signal_inv t"
  using assms(1)
proof cases
  case (cond_wait n)
  then have "pending n s \<or> looper s = Ended" using g unfolding signal_inv_def by (metis waits_sel(4))
  then show ?thesis using g cond_wait by (auto simp: signal_inv_def pending_def)
qed (use g assms(2) in \<open>auto simp: signal_inv_def pending_def image_Un\<close>)

lemma signal_inv_loop:
  assumes "loop_step s t" and m: "mutex_inv s" and g: "signal_inv s"
  shows "signal_inv t"
proof -
  have w: "caller s j \<noteq> Written n" if "loop_holds (looper s)" for j n
    using m that unfolding mutex_inv_def by (metis option.inject pc_sel(4) thread.distinct(1))
  have u: "caller s j = Waiting k \<Longrightarrow> caller s i = Waiting n \<Longrightarrow> i = j" for i j k n
    using one_inside [OF m] by (metis caller_pc.distinct)
  show ?thesis using assms(1)
  proof cases
    case (signal_waiter c i n)
    then show ?thesis using w u by (auto simp: signal_inv_def waits_for_def)
  next
    case (signal_nobody c)
    then show ?thesis using w by (auto simp: signal_inv_def waits_for_def)
  next
    case (loop_unlock c)
    then have "\<forall>j n. \<not> waits_for (caller s j) n" using w m by (auto simp: waits_for_def mutex_inv_def)
    then show ?thesis using loop_unlock by (auto simp: signal_inv_def)
  qed (use g in \<open>auto simp: signal_inv_def pending_def\<close>)
qed

lemma signal_inv_reach: "sync_reach F s \<Longrightarrow> \<not> failing_writes F \<Longrightarrow> signal_inv s"
proof (induction rule: sync_reach.induct)
  case sync_reach_start
  then show ?case by (simp add: signal_inv_def sync_start_def)
next
  case (sync_reach_step s t)
  from sync_reach_step.hyps(2) show ?case
  proof cases
    case by_caller
    then show ?thesis using signal_inv_caller sync_reach_step by blast
  next
    case by_loop
    then show ?thesis using signal_inv_loop mutex_inv_reach sync_reach_step by blast
  next
    case deliver_NM
    then show ?thesis using sync_reach_step by (auto simp: signal_inv_def pending_def image_Un)
  qed
qed

section \<open>Nobody returns early when all wait\<close>

text \<open>The numbers are unique.\<close>

definition number_inv :: "sync_state \<Rightarrow> bool" where
  "number_inv s \<longleftrightarrow> distinct (map fst (commands s)) \<and> (\<forall>n. pending n s \<longrightarrow> n < next_number s) \<and>
     (\<forall>n. in_loop n (looper s) \<longrightarrow> n \<notin> fst ` set (commands s))"

lemma number_inv_step: "sync_step F s t \<Longrightarrow> number_inv s \<Longrightarrow> number_inv t"
proof -
  have w: "number_inv s \<Longrightarrow> number_inv (write_command d works s)" for d works
    by (auto simp: number_inv_def pending_def write_command_def less_Suc_eq)
  have c: "caller_step F i s t \<Longrightarrow> number_inv s \<Longrightarrow> number_inv t" for i
  proof -
    have "number_inv (set_caller i p u) = number_inv u" for p u by (simp add: number_inv_def pending_def)
    moreover have "number_inv (u\<lparr>gDeliverpMtx := x\<rparr>) = number_inv u" "number_inv (u\<lparr>gMainCondMtx := y\<rparr>) = number_inv u" for u x y
      by (simp_all add: number_inv_def pending_def)
    ultimately show "caller_step F i s t \<Longrightarrow> number_inv s \<Longrightarrow> number_inv t" by (auto elim!: caller_stepE intro: w)
  qed
  have l: "loop_step s t \<Longrightarrow> number_inv s \<Longrightarrow> number_inv t"
    by (erule loop_stepE) (auto simp: number_inv_def pending_def)
  show "sync_step F s t \<Longrightarrow> number_inv s \<Longrightarrow> number_inv t" by (erule sync_stepE) (auto intro: w c l)
qed

lemma number_inv_reach: "sync_reach F s \<Longrightarrow> number_inv s"
proof (induction rule: sync_reach.induct)
  case sync_reach_start
  then show ?case by (simp add: number_inv_def pending_def sync_start_def)
qed (rule number_inv_step)

definition early_inv :: "sync_state \<Rightarrow> bool" where
  "early_inv s \<longleftrightarrow> (\<forall>n. pending n s \<longrightarrow> (\<exists>i. waits_for (caller s i) n)) \<and>
     (\<forall>c. looper s = Switched c \<longrightarrow> fst c \<in> carried_out s) \<and>
     (\<forall>i n. caller s i \<in> {Woken n, Back n, Unlocked n} \<longrightarrow> n \<in> carried_out s)"

lemma early_inv_move:
  assumes e: "early_inv s" and c: "caller t = (caller s)(i := p)"
    and o: "commands t = commands s" "looper t = looper s" "carried_out t = carried_out s"
    and w: "\<And>n. waits_for p n \<longleftrightarrow> waits_for (caller s i) n"
    and d: "\<And>n. p \<in> {Woken n, Back n, Unlocked n} \<Longrightarrow> n \<in> carried_out s"
  shows "early_inv t"
proof -
  have "(\<exists>j. waits_for (caller t j) n) \<longleftrightarrow> (\<exists>j. waits_for (caller s j) n)" for n
    using c w by (metis fun_upd_apply)
  moreover have "pending n t = pending n s" for n by (simp add: pending_def o)
  moreover have "caller t j \<in> {Woken n, Back n, Unlocked n} \<Longrightarrow> n \<in> carried_out s" for j n
    using c d e by (cases "j = i") (auto simp: early_inv_def)
  ultimately show ?thesis using e by (simp add: early_inv_def o)
qed

lemma early_inv_caller:
  assumes "caller_step F i s t" and "\<not> spurious_wakeups F" and "mutex_inv s" and e: "early_inv s"
  shows "early_inv t"
  using assms(1)
proof cases
  case (write_own works d)
  have n: "\<not> pending n s" for n using e write_own one_inside [OF assms(3), of i] unfolding early_inv_def
    by (metis caller_pc.distinct waits_sel(1,3))
  have "\<exists>j. waits_for (caller t j) k" if "pending k t" for k
  proof -
    have "k = next_number s" using that n [of k] write_own by (auto simp: pending_def image_Un split: if_splits)
    then have "waits_for (caller t i) k" using write_own by simp
    then show ?thesis ..
  qed
  moreover have "caller t j \<in> {Woken k, Back k, Unlocked k} \<Longrightarrow> k \<in> carried_out t" for j k
    using e write_own by (auto simp: early_inv_def split: if_splits)
  ultimately show ?thesis using e write_own by (auto simp: early_inv_def)
next
  case (relock n)
  then show ?thesis using e by (intro early_inv_move [OF e, where i = i and p = "Back n"]) (auto simp: early_inv_def)
next
  case (unlock_cond n)
  then show ?thesis using e by (intro early_inv_move [OF e, where i = i and p = "Unlocked n"]) (auto simp: early_inv_def)
qed (use assms(2) in \<open>auto intro!: early_inv_move [OF e]\<close>)

lemma early_inv_loop:
  assumes "loop_step s t" and m: "mutex_inv s" and u: "number_inv s" and e: "early_inv s"
  shows "early_inv t"
  using assms(1)
proof cases
  case (signal_waiter c i n)
  have c: "pending (fst c) s" "fst c \<in> carried_out s" using signal_waiter e by (auto simp: pending_def early_inv_def)
  have only: "k = n" if k: "pending k s" for k
  proof -
    obtain l where l: "waits_for (caller s l) k" using k e by (auto simp: early_inv_def)
    then have "caller s l \<noteq> Outside" "caller s i \<noteq> Outside" using signal_waiter by auto
    then have "l = i" by (rule one_inside [OF m])
    then show ?thesis using l signal_waiter by simp
  qed
  have "\<not> pending k t" for k
  proof
    assume "pending k t"
    then have k: "k \<in> fst ` set (commands s)" using signal_waiter by (simp add: pending_def)
    then have "k = fst c" using only c(1) by (auto simp: pending_def)
    then show False using k u signal_waiter by (auto simp: number_inv_def)
  qed
  moreover have "n \<in> carried_out s" using only c by blast
  ultimately show ?thesis using e signal_waiter by (auto simp: early_inv_def)
next
  case (signal_nobody c)
  then show ?thesis using e by (auto simp: early_inv_def pending_def)
qed (use e in \<open>auto simp: early_inv_def pending_def\<close>)

lemma early_inv_reach:
  "sync_reach F s \<Longrightarrow> \<not> asynchronous F \<Longrightarrow> \<not> spurious_wakeups F \<Longrightarrow> early_inv s"
proof (induction rule: sync_reach.induct)
  case sync_reach_start
  then show ?case by (simp add: early_inv_def pending_def sync_start_def)
next
  case (sync_reach_step s t)
  from sync_reach_step.hyps(2) show ?case
  proof cases
    case by_caller
    then show ?thesis using early_inv_caller mutex_inv_reach sync_reach_step by blast
  next
    case by_loop
    then show ?thesis using early_inv_loop mutex_inv_reach number_inv_reach sync_reach_step by blast
  next
    case deliver_NM
    then show ?thesis using sync_reach_step.prems by simp
  qed
qed

section \<open>The loop wakes who waits\<close>

lemma switched_wakes:
  assumes "looper s = Switched c" and "caller s i = Waiting n"
  shows "\<exists>t. loop_step\<^sup>*\<^sup>* s t \<and> caller t i = Woken n"
  using signal_waiter [OF assms] by (intro exI [of _ "set_caller i (Woken n) (s\<lparr>looper := Signalled c\<rparr>)"]) auto

lemma working_wakes:
  assumes l: "looper s = Working c" and w: "caller s i = Waiting n"
  shows "\<exists>t. loop_step\<^sup>*\<^sup>* s t \<and> caller t i = Woken n"
  using loop_switch [OF l] switched_wakes [of "s\<lparr>carried_out := insert (fst c) (carried_out s), looper := Switched c\<rparr>" c i n] w
  by (auto intro: converse_rtranclp_into_rtranclp)

lemma received_wakes:
  assumes m: "mutex_inv s" and l: "looper s = Received c" and w: "caller s i = Waiting n"
  shows "\<exists>t. loop_step\<^sup>*\<^sup>* s t \<and> caller t i = Woken n"
proof -
  have "gMainCondMtx s \<noteq> Some Loop_thread" using m l unfolding mutex_inv_def by (metis pc_sel(11))
  moreover have out: "j \<noteq> i \<Longrightarrow> caller s j = Outside" for j using w one_inside [OF m, of i j] by fastforce
  have "\<not> holds_cond (caller s j)" for j using w out [of j] by (cases "j = i") auto
  then have "gMainCondMtx s \<noteq> Some (Caller j)" for j using m unfolding mutex_inv_def by metis
  ultimately have "gMainCondMtx s = None" by (metis not_Some_eq thread.exhaust)
  from loop_lock [OF l this] show ?thesis
    using working_wakes [of "s\<lparr>gMainCondMtx := Some Loop_thread, looper := Working c\<rparr>" c i n] w
    by (auto intro: converse_rtranclp_into_rtranclp)
qed

lemma loop_wakes:
  assumes r: "sync_reach F s" "\<not> failing_writes F" and w: "caller s i = Waiting n"
    and l: "looper s \<noteq> In_callback" "looper s \<noteq> Ended"
  shows "\<exists>t. loop_step\<^sup>*\<^sup>* s t \<and> caller t i = Woken n"
proof -
  have m: "mutex_inv s" by (rule mutex_inv_reach [OF r(1)])
  show ?thesis
  proof (cases "looper s")
    case Polling
    have "pending n s" using signal_inv_reach [OF r] w l(2) unfolding signal_inv_def by (metis waits_sel(5))
    then obtain c cs where c: "commands s = c # cs" using Polling by (cases "commands s") (auto simp: pending_def)
    let ?t = "s\<lparr>commands := cs, looper := Received c\<rparr>"
    have st: "loop_step s ?t" by (rule read_command [OF Polling c])
    have "sync_reach F ?t" by (rule sync_reach_step [OF r(1) by_loop [OF st]])
    from received_wakes [OF mutex_inv_reach [OF this], of c i n] w st show ?thesis
      by (auto intro: converse_rtranclp_into_rtranclp)
  next
    case (Signalled c)
    then show ?thesis using m w by (simp add: mutex_inv_def)
  qed (use l w m received_wakes working_wakes switched_wakes in blast)+
qed

section \<open>A callback that waits\<close>

lemma stuck_step:
  assumes "sync_step F s t" and "mutex_inv s" and "\<not> spurious_wakeups F" and l: "looper s = In_callback" "caller s 0 = Waiting n"
  shows "looper t = In_callback \<and> caller t = caller s"
proof -
  have g: "gDeliverpMtx s = Some 0" "\<And>i. i \<noteq> 0 \<Longrightarrow> caller s i = Outside"
    using assms(2) l(2) one_inside [OF assms(2), of 0] by (auto simp: mutex_inv_def)
  show ?thesis using assms(1)
  proof cases
    case (by_caller i)
    then show ?thesis using g(1) g(2) [of i] l assms(3) by (cases "i = 0") (auto elim!: caller_stepE)
  next
    case by_loop
    then show ?thesis using l by (auto elim!: loop_stepE)
  next
    case deliver_NM
    then show ?thesis using l by simp
  qed
qed

lemma stuck:
  assumes "(sync_step F)\<^sup>*\<^sup>* s t" and "sync_reach F s" and "\<not> spurious_wakeups F"
    and "looper s = In_callback" "caller s 0 = Waiting n"
  shows "sync_reach F t \<and> looper t = In_callback \<and> caller t = caller s"
  using assms
proof (induction rule: rtranclp_induct)
  case base
  then show ?case by simp
next
  case (step t u)
  then have "sync_reach F t" "looper t = In_callback" "caller t = caller s" by simp_all
  with step show ?case using stuck_step [OF step.hyps(2) mutex_inv_reach] by (auto intro: sync_reach_step)
qed

section \<open>Runs\<close>

text \<open>A call up to the wait, and a round of the loop up to the return of the caller it wakes.\<close>

lemma call_waits:
  assumes r: "sync_reach F s" and "caller s i = Outside" and "gDeliverpMtx s = None" and "gMainCondMtx s = None"
    and "i = 0 \<longrightarrow> looper s = In_callback"
  shows "sync_reach F (set_caller i (Waiting (next_number s))
    ((write_command d True s)\<lparr>gDeliverpMtx := Some i, gMainCondMtx := None\<rparr>))"
proof -
  let ?s1 = "set_caller i Delivering (s\<lparr>gDeliverpMtx := Some i\<rparr>)"
  have s1: "sync_reach F ?s1" by (rule sync_reach_step [OF r by_caller [OF lock_deliver]]) (use assms in simp_all)
  let ?s2 = "set_caller i Locked (?s1\<lparr>gMainCondMtx := Some (Caller i)\<rparr>)"
  have s2: "sync_reach F ?s2" by (rule sync_reach_step [OF s1 by_caller [OF lock_cond]]) (use assms in simp_all)
  let ?s3 = "set_caller i (Written (next_number ?s2)) (write_command d True ?s2)"
  have s3: "sync_reach F ?s3" by (rule sync_reach_step [OF s2 by_caller [OF write_own]]) simp_all
  let ?s4 = "set_caller i (Waiting (next_number s)) (?s3\<lparr>gMainCondMtx := None\<rparr>)"
  have "sync_reach F ?s4" by (rule sync_reach_step [OF s3 by_caller [OF cond_wait]]) simp
  moreover have "?s4 = set_caller i (Waiting (next_number s))
    ((write_command d True s)\<lparr>gDeliverpMtx := Some i, gMainCondMtx := None\<rparr>)"
    by (simp add: set_caller_def write_command_def)
  ultimately show ?thesis by simp
qed

lemma loop_serves:
  assumes r: "sync_reach F s" and "looper s = Polling" and "commands s = c # cs" and "gMainCondMtx s = None"
    and "caller s i = Waiting n"
  shows "\<exists>l. sync_reach F (set_caller i (Unlocked n)
    (s\<lparr>commands := cs, carried_out := insert (fst c) (carried_out s), looper := l, gMainCondMtx := None\<rparr>))"
proof -
  let ?s1 = "s\<lparr>commands := cs, looper := Received c\<rparr>"
  have s1: "sync_reach F ?s1" by (rule sync_reach_step [OF r by_loop [OF read_command]]) (use assms in simp_all)
  let ?s2 = "?s1\<lparr>gMainCondMtx := Some Loop_thread, looper := Working c\<rparr>"
  have s2: "sync_reach F ?s2" by (rule sync_reach_step [OF s1 by_loop [OF loop_lock]]) (use assms in simp_all)
  let ?s3 = "?s2\<lparr>carried_out := insert (fst c) (carried_out ?s2), looper := Switched c\<rparr>"
  have s3: "sync_reach F ?s3" by (rule sync_reach_step [OF s2 by_loop [OF loop_switch]]) simp
  let ?s4 = "set_caller i (Woken n) (?s3\<lparr>looper := Signalled c\<rparr>)"
  have s4: "sync_reach F ?s4" by (rule sync_reach_step [OF s3 by_loop [OF signal_waiter]]) (use assms in simp_all)
  let ?l = "if cmd (snd c) = CMD_QUIT then Ended else Polling"
  let ?s5 = "?s4\<lparr>gMainCondMtx := None, looper := ?l\<rparr>"
  have s5: "sync_reach F ?s5" by (rule sync_reach_step [OF s4 by_loop [OF loop_unlock]]) simp
  let ?s6 = "set_caller i (Back n) (?s5\<lparr>gMainCondMtx := Some (Caller i)\<rparr>)"
  have s6: "sync_reach F ?s6" by (rule sync_reach_step [OF s5 by_caller [OF relock]]) simp_all
  let ?s7 = "set_caller i (Unlocked n) (?s6\<lparr>gMainCondMtx := None\<rparr>)"
  have "sync_reach F ?s7" by (rule sync_reach_step [OF s6 by_caller [OF unlock_cond]]) simp
  moreover have "?s7 = set_caller i (Unlocked n)
    (s\<lparr>commands := cs, carried_out := insert (fst c) (carried_out s), looper := ?l, gMainCondMtx := None\<rparr>)"
    by (simp add: set_caller_def)
  ultimately show ?thesis by (intro exI [of _ ?l]) (simp only:)
qed

text \<open>Caller 1 waits, at the start; caller 0 waits, in a callback.\<close>

definition one_waits :: "MainLoopData \<Rightarrow> sync_state" where
  "one_waits d = set_caller 1 (Waiting 0) ((write_command d True sync_start)\<lparr>gDeliverpMtx := Some 1, gMainCondMtx := None\<rparr>)"

definition callback_waits :: "MainLoopData \<Rightarrow> sync_state" where
  "callback_waits d = set_caller 0 (Waiting 0)
     ((write_command d True (sync_start\<lparr>looper := In_callback\<rparr>))\<lparr>gDeliverpMtx := Some 0, gMainCondMtx := None\<rparr>)"

lemma one_waits_reach: "sync_reach F (one_waits d)"
  using call_waits [OF sync_reach_start, where F = F and i = 1 and d = d] by (simp add: sync_start_def one_waits_def)

lemma callback_waits_reach: "sync_reach F (callback_waits d)"
proof -
  have "sync_reach F (sync_start\<lparr>looper := In_callback\<rparr>)"
    by (rule sync_reach_step [OF sync_reach_start by_loop [OF callback_starts]]) (simp add: sync_start_def)
  from call_waits [OF this, of 0 d] show ?thesis by (simp add: sync_start_def callback_waits_def)
qed

lemma one_waits_sel [simp]:
  "caller (one_waits d) (Suc 0) = Waiting 0" "looper (one_waits d) = Polling" "commands (one_waits d) = [(0, d)]"
  "gMainCondMtx (one_waits d) = None" "carried_out (one_waits d) = {}"
  by (simp_all add: one_waits_def sync_start_def write_command_def)

lemma callback_waits_sel [simp]: "caller (callback_waits d) 0 = Waiting 0" "looper (callback_waits d) = In_callback"
  by (simp_all add: callback_waits_def sync_start_def)

section \<open>Properties\<close>

definition no_faults :: faults where
  "no_faults = \<lparr>asynchronous = False, failing_writes = False, spurious_wakeups = False\<rparr>"

text \<open>C8: no signal is lost. As long as writes to the pipe succeed, the main loop by itself, with no help of any
  other thread, brings every caller that waits in \<open>deliverToMainloop\<close> back: in every reachable state in which the
  loop has not ended and does not run a callback.\<close>

theorem waiting_caller_is_woken:
  assumes "sync_reach F s" and "\<not> failing_writes F" and "caller s i = Waiting n"
    and "looper s \<noteq> In_callback" and "looper s \<noteq> Ended"
  shows "\<exists>t. loop_step\<^sup>*\<^sup>* s t \<and> caller t i = Woken n"
  using assms by (rule loop_wakes)

theorem waiting_caller_is_woken_witness:
  "\<exists>t. loop_step\<^sup>*\<^sup>* (one_waits \<lparr>cmd = CMD_NONE, params = [], mstring = []\<rparr>) t \<and> caller t 1 = Woken 0"
  by (rule waiting_caller_is_woken [OF one_waits_reach [of no_faults]]) (simp_all add: no_faults_def)

text \<open>C9: when every command is written by \<open>deliverToMainloop\<close> and there are no spurious wake-ups, it returns
  only after the main loop has carried out the command, as it is meant to.\<close>

theorem deliver_returns_when_done:
  assumes "sync_reach F s" and "\<not> asynchronous F" and "\<not> spurious_wakeups F" and "caller s i = Unlocked n"
  shows "n \<in> carried_out s"
  using early_inv_reach [OF assms(1-3)] assms(4) by (auto simp: early_inv_def)

theorem deliver_returns_when_done_witness:
  "\<exists>s. sync_reach no_faults s \<and> caller s 1 = Unlocked 0 \<and> 0 \<in> carried_out s"
proof -
  let ?d = "\<lparr>cmd = CMD_NONE, params = [], mstring = []\<rparr>"
  obtain l where s: "sync_reach no_faults (set_caller 1 (Unlocked 0)
      ((one_waits ?d)\<lparr>commands := [], carried_out := insert (fst (0::nat, ?d)) {}, looper := l, gMainCondMtx := None\<rparr>))"
    using loop_serves [OF one_waits_reach, of ?d "(0, ?d)" "[]" 1 0 no_faults] by auto
  then show ?thesis using deliver_returns_when_done [OF s, of 1 0] by (auto simp: no_faults_def)
qed

text \<open>C31: one command written by \<open>deliverToMainloop_NM\<close> breaks this: the signal for it wakes the caller behind it,
  which returns while its own command is still in the pipe.\<close>

theorem deliver_returns_early:
  "\<exists>s. sync_reach (no_faults\<lparr>asynchronous := True\<rparr>) s \<and> caller s 1 = Unlocked 1 \<and> 1 \<notin> carried_out s \<and>
     commands s = [(1, d)]"
proof -
  let ?F = "no_faults\<lparr>asynchronous := True\<rparr>" and ?s1 = "write_command a True sync_start"
  have s1: "sync_reach ?F ?s1"
    by (rule sync_reach_step [OF sync_reach_start deliver_NM]) (simp_all add: no_faults_def)
  let ?s2 = "set_caller 1 (Waiting 1) ((write_command d True ?s1)\<lparr>gDeliverpMtx := Some 1, gMainCondMtx := None\<rparr>)"
  have "sync_reach ?F ?s2" using call_waits [OF s1, of 1 d] by (simp add: sync_start_def write_command_def)
  from loop_serves [OF this, of "(0, a)" "[(1, d)]" 1 1] obtain l where
    "sync_reach ?F (set_caller 1 (Unlocked 1) (?s2\<lparr>commands := [(1, d)], carried_out := {0}, looper := l, gMainCondMtx := None\<rparr>))"
    by (auto simp: sync_start_def write_command_def)
  then show ?thesis by (intro exI [of _ "set_caller 1 (Unlocked 1) (?s2\<lparr>commands := [(1, d)], carried_out := {0}, looper := l, gMainCondMtx := None\<rparr>)"]) simp
qed

text \<open>C32: a callback that calls a function which delivers a command deadlocks the library: it waits in the main loop
  thread for a signal that only the main loop could send. From then on nothing but further calls of
  \<open>deliverToMainloop_NM\<close> happens, and every other caller stays out for good.\<close>

theorem callback_deadlocks:
  assumes "sync_reach F s" and "\<not> spurious_wakeups F" and "looper s = In_callback" and "caller s 0 = Waiting n"
    and "(sync_step F)\<^sup>*\<^sup>* s t"
  shows "looper t = In_callback \<and> caller t = caller s"
  using stuck [OF assms(5,1-4)] by simp

theorem callback_deadlocks_witness:
  "\<exists>t. (sync_step (no_faults\<lparr>asynchronous := True\<rparr>))\<^sup>*\<^sup>* (callback_waits \<lparr>cmd = CMD_NONE, params = [], mstring = []\<rparr>) t \<and>
     length (commands t) = 2 \<and> caller t 0 = Waiting 0"
proof -
  let ?F = "no_faults\<lparr>asynchronous := True\<rparr>" and ?d = "\<lparr>cmd = CMD_NONE, params = [], mstring = []\<rparr>"
  let ?t = "write_command ?d True (callback_waits ?d)"
  have "sync_step ?F (callback_waits ?d) ?t" by (rule deliver_NM) (simp_all add: no_faults_def)
  then have st: "(sync_step ?F)\<^sup>*\<^sup>* (callback_waits ?d) ?t" by (rule r_into_rtranclp)
  have "caller ?t = caller (callback_waits ?d)"
    using callback_deadlocks [OF callback_waits_reach [of ?F] _ _ _ st] by (simp add: no_faults_def)
  moreover have "length (commands ?t) = 2" by (simp add: write_command_def callback_waits_def sync_start_def)
  ultimately show ?thesis using st by (intro exI [of _ ?t]) simp
qed

end
