(* ===== verification/Startup.thy ===== *)
theory Startup
  imports Pas_Interface Lc_Interface
begin

text \<open>
  The threads at the start and at the end of a session: the client's thread in \<open>pclInitLibrary\<close> and
  \<open>pclDeinitLibrary\<close> (\<open>src/persistence_client_library.c\<close>), and the thread of the main loop that
  \<open>setup_dbus_mainloop\<close> creates (\<open>src/persistence_client_library_dbus_service.c\<close>). They synchronise with

  \<^item> \<open>gDbusInitializedMtx\<close> and \<open>gDbusInitializedCond\<close>: the client waits until the loop is set up;
  \<^item> \<open>gDbusPendingRegMtx\<close>, used as a semaphore: the client takes it twice, and \<open>msg_pending_func\<close> in the
    other thread gives it back when the administration service has answered a registration;
  \<^item> the pipe, and \<open>pthread_join\<close> at the end.

  The steps of the two threads interleave in any order. A delivery is one step to write the
  command and one of the loop to carry it out and let the caller go on (\<open>Handshake\<close> shows why that is so).
  Mutexes are those of glibc: any thread may unlock, as the library needs it. Unlocking never blocks, so
  an unlock is one step with what follows. The steps are those of a session that starts when no main loop is alive.
\<close>

section \<open>State\<close>

datatype service = Lifecycle_service | Admin_service

datatype request = Register bool service | Quit_request

text \<open>The client: outside; in \<open>pclInitLibrary\<close> with \<open>gDbusPendingRegMtx\<close>; in \<open>setup_dbus_mainloop\<close> with
  \<open>gDbusInitializedMtx\<close>, after creating the thread, waiting, woken, and with the mutex again; before and after
  writing a registration (\<open>True\<close>) or its withdrawal (\<open>False\<close>); waiting for the reply; initialised; before and after
  writing the quit command.\<close>

datatype client_pc =
  Idle | Starting | Connecting | Created | Waiting_init | Woken_init | Back_init
| Sending bool service | Delivered bool service | Awaiting bool | Running | Quitting | Joining

text \<open>The thread of the main loop: not there; created; with \<open>gDbusInitializedMtx\<close>; having the pipe as well; having
  signalled, with the outcome of its set-up; in the loop; behind the loop; ended.\<close>

datatype thread_pc =
  No_thread | New_thread | Setting_up | Piped | Signalled_init bool | In_loop | Behind_loop | Thread_ended

datatype holder = Client_thread | Main_thread

text \<open>\<open>asked\<close> counts the registrations sent to the administration service, \<open>answers\<close> are its replies
  (-1 for an error or a time-out), the last one is in \<open>gDbusPendingRvalue\<close>. \<open>outcome\<close> is what \<open>pclInitLibrary\<close> returns.\<close>

record start_state =
  client :: client_pc
  main_thread :: thread_pc
  pending_locked :: bool
  init_owner :: "holder option"
  requests :: "request list"
  asked :: nat
  answers :: "int list"
  outcome :: int

record session_config =
  with_lifecycle :: bool
  with_pas :: bool

text \<open>What else may happen: a wake-up without a signal in the wait for the main loop, and a set-up of the loop that fails (no bus, no pipe, a
  refused object path).\<close>

record start_faults =
  spurious_init :: bool
  setup_fails :: bool

definition start_up :: start_state where
  "start_up = \<lparr>client = Idle, main_thread = No_thread, pending_locked = False, init_owner = None, requests = [],
     asked = 0, answers = [], outcome = 0\<rparr>"

definition no_loop :: "start_state \<Rightarrow> bool" where
  "no_loop s \<longleftrightarrow> main_thread s = No_thread \<or> main_thread s = Thread_ended"

text \<open>Writing to the pipe; before the loop has created it and after the loop has closed it the command is
  lost, which the callers do not see.\<close>

definition write_request :: "request \<Rightarrow> start_state \<Rightarrow> start_state" where
  "write_request c s =
     (if main_thread s = Piped \<or> main_thread s = Signalled_init True \<or> main_thread s = In_loop \<or> main_thread s = Behind_loop then s\<lparr>requests := requests s @ [c]\<rparr> else s)"

section \<open>Steps of the client\<close>

text \<open>\<open>setup_dbus_mainloop\<close>. When connecting or creating the thread fails, \<open>pclInitLibrary\<close> gives
  \<open>gDbusPendingRegMtx\<close> back.\<close>

definition first_service :: "session_config \<Rightarrow> bool \<Rightarrow> client_pc" where
  "first_service V reg =
     (if with_lifecycle V then Sending reg Lifecycle_service
      else if with_pas V then Sending reg Admin_service
      else if reg then Running else Quitting)"

definition next_service :: "session_config \<Rightarrow> bool \<Rightarrow> client_pc" where
  "next_service V reg = (if with_pas V then Sending reg Admin_service else if reg then Running else Quitting)"

inductive setup_step :: "session_config \<Rightarrow> start_faults \<Rightarrow> start_state \<Rightarrow> start_state \<Rightarrow> bool" for V F where
  lock_init: "client s = Starting \<Longrightarrow> init_owner s = None \<Longrightarrow>
     setup_step V F s (s\<lparr>client := Connecting, init_owner := Some Client_thread\<rparr>)"
| connect_fails: "client s = Connecting \<Longrightarrow>
     setup_step V F s (s\<lparr>client := Idle, init_owner := None, pending_locked := False, outcome := EPERS_DBUS_MAINLOOP\<rparr>)"
| create_thread: "client s = Connecting \<Longrightarrow> setup_step V F s (s\<lparr>client := Created, main_thread := New_thread\<rparr>)"
| wait_init: "client s = Created \<Longrightarrow> setup_step V F s (s\<lparr>client := Waiting_init, init_owner := None\<rparr>)"
| spurious: "client s = Waiting_init \<Longrightarrow> spurious_init F \<Longrightarrow> setup_step V F s (s\<lparr>client := Woken_init\<rparr>)"
| relock_init: "client s = Woken_init \<Longrightarrow> init_owner s = None \<Longrightarrow>
     setup_step V F s (s\<lparr>client := Back_init, init_owner := Some Client_thread\<rparr>)"
| setup_returns: "client s = Back_init \<Longrightarrow>
     setup_step V F s (s\<lparr>client := first_service V True, init_owner := None\<rparr>)"

text \<open>\<open>register_lifecycle\<close>, \<open>register_pers_admin_service\<close> and their counterparts: write the command; and for the
  administration service take \<open>gDbusPendingRegMtx\<close> a second time. A registration that was answered with -1 ends
  \<open>pclInitLibrary\<close>; how a withdrawal was answered does not matter.\<close>

inductive service_step :: "start_state \<Rightarrow> start_state \<Rightarrow> bool" where
  write_service: "client s = Sending reg sv \<Longrightarrow>
     service_step s (write_request (Register reg sv) (s\<lparr>client := Delivered reg sv\<rparr>))"
| registered: "client s = Awaiting True \<Longrightarrow> \<not> pending_locked s \<Longrightarrow>
     service_step s (if last (answers s) = - 1
       then s\<lparr>client := Idle, pending_locked := False, outcome := EPERS_REGISTER_ADMIN\<rparr>
       else s\<lparr>client := Running, pending_locked := True\<rparr>)"
| unregistered: "client s = Awaiting False \<Longrightarrow> \<not> pending_locked s \<Longrightarrow>
     service_step s (s\<lparr>client := Quitting, pending_locked := True\<rparr>)"

text \<open>The two calls of the client, and the end of \<open>pclDeinitLibrary\<close>: quit, join, unlock both mutexes.\<close>

inductive call_step :: "session_config \<Rightarrow> start_state \<Rightarrow> start_state \<Rightarrow> bool" for V where
  call_init: "client s = Idle \<Longrightarrow> no_loop s \<Longrightarrow> \<not> pending_locked s \<Longrightarrow>
     call_step V s (s\<lparr>client := Starting, pending_locked := True, outcome := 1\<rparr>)"
| call_deinit: "client s = Running \<Longrightarrow> call_step V s (s\<lparr>client := first_service V False\<rparr>)"

inductive quit_step :: "start_state \<Rightarrow> start_state \<Rightarrow> bool" where
  write_quit: "client s = Quitting \<Longrightarrow> quit_step s (write_request Quit_request (s\<lparr>client := Joining\<rparr>))"
| join_thread: "client s = Joining \<Longrightarrow> main_thread s = Thread_ended \<Longrightarrow>
     quit_step s (s\<lparr>client := Idle, pending_locked := False, init_owner := None\<rparr>)"

section \<open>Steps of the main loop's thread\<close>

text \<open>\<open>pthread_cond_signal (&gDbusInitializedCond)\<close>.\<close>

definition signal_init :: "start_state \<Rightarrow> start_state" where
  "signal_init s = (if client s = Waiting_init then s\<lparr>client := Woken_init\<rparr> else s)"

text \<open>Carrying out a registration: the request to the administration service is sent, and the caller goes on.\<close>

definition serve :: "session_config \<Rightarrow> bool \<Rightarrow> service \<Rightarrow> start_state \<Rightarrow> start_state" where
  "serve V reg sv s =
     (let s = (case sv of Lifecycle_service \<Rightarrow> s | Admin_service \<Rightarrow> s\<lparr>asked := asked s + 1\<rparr>) in
      case client s of
        Delivered r Lifecycle_service \<Rightarrow> s\<lparr>client := next_service V r\<rparr>
      | Delivered r Admin_service \<Rightarrow> s\<lparr>client := Awaiting r\<rparr>
      | _ \<Rightarrow> s)"

inductive thread_step :: "session_config \<Rightarrow> start_faults \<Rightarrow> start_state \<Rightarrow> start_state \<Rightarrow> bool" for V F where
  thread_locks: "main_thread s = New_thread \<Longrightarrow> init_owner s = None \<Longrightarrow>
     thread_step V F s (s\<lparr>main_thread := Setting_up, init_owner := Some Main_thread\<rparr>)"
| makes_pipe: "main_thread s = Setting_up \<Longrightarrow> thread_step V F s (s\<lparr>main_thread := Piped, requests := []\<rparr>)"
| setup_succeeds: "main_thread s = Piped \<Longrightarrow>
     thread_step V F s (signal_init (s\<lparr>main_thread := Signalled_init True\<rparr>))"
| setup_gives_up: "main_thread s = Setting_up \<or> main_thread s = Piped \<Longrightarrow> setup_fails F \<Longrightarrow>
     thread_step V F s (signal_init (s\<lparr>main_thread := Signalled_init False, requests := []\<rparr>))"
| thread_unlocks: "main_thread s = Signalled_init ok \<Longrightarrow>
     thread_step V F s (s\<lparr>main_thread := (if ok then In_loop else Thread_ended), init_owner := None\<rparr>)"
| serves: "main_thread s = In_loop \<Longrightarrow> requests s = Register reg sv # cs \<Longrightarrow>
     thread_step V F s (serve V reg sv (s\<lparr>requests := cs\<rparr>))"
| reply_arrives: "main_thread s = In_loop \<Longrightarrow> length (answers s) < asked s \<Longrightarrow>
     thread_step V F s (s\<lparr>answers := answers s @ [v], pending_locked := False\<rparr>)"
| leaves_loop: "main_thread s = In_loop \<Longrightarrow> requests s = Quit_request # cs \<Longrightarrow>
     thread_step V F s (s\<lparr>main_thread := Behind_loop, requests := cs\<rparr>)"
| thread_ends: "main_thread s = Behind_loop \<Longrightarrow>
     thread_step V F s (signal_init (s\<lparr>main_thread := Thread_ended, init_owner := None, requests := []\<rparr>))"

section \<open>Runs\<close>

text \<open>The steps inside a call, and all steps.\<close>

inductive inner_step :: "session_config \<Rightarrow> start_faults \<Rightarrow> start_state \<Rightarrow> start_state \<Rightarrow> bool" for V F where
  "setup_step V F s t \<Longrightarrow> inner_step V F s t"
| "service_step s t \<Longrightarrow> inner_step V F s t"
| "quit_step s t \<Longrightarrow> inner_step V F s t"
| "thread_step V F s t \<Longrightarrow> inner_step V F s t"

inductive start_reach :: "session_config \<Rightarrow> start_faults \<Rightarrow> start_state \<Rightarrow> bool" for V F where
  start_reach_start: "start_reach V F start_up"
| start_reach_call: "start_reach V F s \<Longrightarrow> call_step V s t \<Longrightarrow> start_reach V F t"
| start_reach_inner: "start_reach V F s \<Longrightarrow> inner_step V F s t \<Longrightarrow> start_reach V F t"

inductive_cases setup_stepE: "setup_step V F s t"
inductive_cases service_stepE: "service_step s t"
inductive_cases call_stepE: "call_step V s t"
inductive_cases quit_stepE: "quit_step s t"
inductive_cases thread_stepE: "thread_step V F s t"
inductive_cases inner_stepE: "inner_step V F s t"

section \<open>The invariant\<close>

text \<open>The sessions that cannot hang: no wake-up without a signal, and the set-up of the loop fails at most when no
  service is to be registered. The thread is then where the rest of the session needs it: in the loop, or ended if
  its set-up may fail.\<close>

definition sound_start :: "session_config \<Rightarrow> start_faults \<Rightarrow> bool" where
  "sound_start V F \<longleftrightarrow> \<not> spurious_init F \<and> (setup_fails F \<longrightarrow> \<not> with_lifecycle V \<and> \<not> with_pas V)"

definition settled :: "bool \<Rightarrow> start_state \<Rightarrow> bool" where
  "settled f s \<longleftrightarrow> main_thread s = In_loop \<or> f \<and> main_thread s = Thread_ended"

text \<open>Where the other thread can be while the client is where it is, who holds the mutexes, what is in the pipe and
  which answers are due; \<open>f\<close> tells whether the set-up may fail.\<close>

fun phase_inv :: "bool \<Rightarrow> client_pc \<Rightarrow> start_state \<Rightarrow> bool" where
  "phase_inv f Idle s = (\<not> pending_locked s \<and> init_owner s = None \<and> requests s = [] \<and> asked s = length (answers s) \<and>
     (if outcome s = EPERS_REGISTER_ADMIN then main_thread s = In_loop else no_loop s))"
| "phase_inv f Starting s = (pending_locked s \<and> init_owner s = None \<and> requests s = [] \<and> asked s = length (answers s) \<and> no_loop s)"
| "phase_inv f Connecting s =
     (pending_locked s \<and> init_owner s = Some Client_thread \<and> requests s = [] \<and> asked s = length (answers s) \<and> no_loop s)"
| "phase_inv f Created s = (pending_locked s \<and> init_owner s = Some Client_thread \<and> requests s = [] \<and>
     asked s = length (answers s) \<and> main_thread s = New_thread)"
| "phase_inv f Waiting_init s = (pending_locked s \<and> requests s = [] \<and> asked s = length (answers s) \<and>
     (main_thread s = New_thread \<and> init_owner s = None \<or>
      (main_thread s = Setting_up \<or> main_thread s = Piped) \<and> init_owner s = Some Main_thread))"
| "phase_inv f Woken_init s = (pending_locked s \<and> requests s = [] \<and> asked s = length (answers s) \<and>
     ((main_thread s = Signalled_init True \<or> f \<and> main_thread s = Signalled_init False) \<and> init_owner s = Some Main_thread \<or>
      settled f s \<and> init_owner s = None))"
| "phase_inv f Back_init s = (pending_locked s \<and> init_owner s = Some Client_thread \<and> requests s = [] \<and>
     asked s = length (answers s) \<and> settled f s)"
| "phase_inv f (Sending reg sv) s = (\<not> f \<and>
     pending_locked s \<and> init_owner s = None \<and> requests s = [] \<and> asked s = length (answers s) \<and> main_thread s = In_loop)"
| "phase_inv f (Delivered reg sv) s = (\<not> f \<and> pending_locked s \<and> init_owner s = None \<and>
     requests s = [Register reg sv] \<and> asked s = length (answers s) \<and> main_thread s = In_loop)"
| "phase_inv f (Awaiting reg) s = (\<not> f \<and> init_owner s = None \<and> requests s = [] \<and>
     asked s = length (answers s) + (if pending_locked s then 1 else 0) \<and> main_thread s = In_loop)"
| "phase_inv f Running s =
     (pending_locked s \<and> init_owner s = None \<and> requests s = [] \<and> asked s = length (answers s) \<and> settled f s)"
| "phase_inv f Quitting s =
     (pending_locked s \<and> init_owner s = None \<and> requests s = [] \<and> asked s = length (answers s) \<and> settled f s)"
| "phase_inv f Joining s = (pending_locked s \<and> init_owner s = None \<and> asked s = length (answers s) \<and>
     (main_thread s = In_loop \<and> requests s = [Quit_request] \<or>
      main_thread s = Behind_loop \<and> requests s = [] \<or> main_thread s = Thread_ended \<and> requests s = []))"

definition session_inv :: "start_faults \<Rightarrow> start_state \<Rightarrow> bool" where
  "session_inv F s \<longleftrightarrow> phase_inv (setup_fails F) (client s) s \<and> (client s \<noteq> Idle \<longrightarrow> outcome s \<noteq> EPERS_REGISTER_ADMIN)"

text \<open>Every step of a sound session keeps it.\<close>

lemmas session_defs =
  session_inv_def settled_def no_loop_def first_service_def next_service_def write_request_def signal_init_def serve_def

lemma setup_step_keeps:
  assumes "setup_step V F s t" "session_inv F s" "sound_start V F"
  shows "session_inv F t"
  using assms by (auto simp: session_defs sound_start_def elim!: setup_stepE split: if_splits)

lemma service_step_keeps:
  assumes "service_step s t" "session_inv F s"
  shows "session_inv F t"
  using assms by (auto simp: session_defs elim!: service_stepE split: if_splits)

lemma call_step_keeps:
  assumes "call_step V s t" "session_inv F s" "sound_start V F"
  shows "session_inv F t"
  using assms by (auto simp: session_defs sound_start_def elim!: call_stepE split: if_splits)

lemma quit_step_keeps:
  assumes "quit_step s t" "session_inv F s"
  shows "session_inv F t"
  using assms by (auto simp: session_defs elim!: quit_stepE)

lemma serve_keeps:
  assumes "session_inv F s" "requests s = Register reg sv # cs"
  shows "session_inv F (serve V reg sv (s\<lparr>requests := cs\<rparr>))"
  using assms by (cases "client s") (auto simp: session_defs split: service.splits if_splits)

lemma thread_step_keeps:
  assumes "thread_step V F s t" "session_inv F s"
  shows "session_inv F t"
  using assms(1)
proof (rule thread_stepE)
  fix reg sv cs
  assume "t = serve V reg sv (s\<lparr>requests := cs\<rparr>)" "requests s = Register reg sv # cs"
  with assms(2) show ?thesis by (simp add: serve_keeps)
qed (use assms(2) in \<open>cases "client s"; auto simp: session_defs split: if_splits\<close>)+

lemma inner_step_keeps:
  assumes "inner_step V F s t" "session_inv F s" "sound_start V F"
  shows "session_inv F t"
  using assms by (auto elim!: inner_stepE intro: setup_step_keeps service_step_keeps quit_step_keeps thread_step_keeps)

lemma start_reach_inv:
  assumes "start_reach V F s" "sound_start V F"
  shows "session_inv F s"
  using assms
proof induction
  case start_reach_start
  show ?case by (simp add: session_inv_def start_up_def no_loop_def)
qed (blast intro: call_step_keeps inner_step_keeps)+

section \<open>Every schedule ends\<close>

text \<open>The steps that remain, at most: no step leads back, with faults or without.\<close>

fun client_rank :: "client_pc \<Rightarrow> nat" where
  "client_rank Starting = 100"
| "client_rank Connecting = 95"
| "client_rank Created = 80"
| "client_rank Waiting_init = 79"
| "client_rank Woken_init = 78"
| "client_rank Back_init = 77"
| "client_rank (Sending reg Lifecycle_service) = 70"
| "client_rank (Delivered reg Lifecycle_service) = 60"
| "client_rank (Sending reg Admin_service) = 50"
| "client_rank (Delivered reg Admin_service) = 40"
| "client_rank (Awaiting reg) = 30"
| "client_rank Quitting = 20"
| "client_rank Joining = 10"
| "client_rank _ = 0"

fun thread_rank :: "thread_pc \<Rightarrow> nat" where
  "thread_rank No_thread = 0"
| "thread_rank New_thread = 6"
| "thread_rank Setting_up = 5"
| "thread_rank Piped = 4"
| "thread_rank (Signalled_init ok) = 3"
| "thread_rank In_loop = 2"
| "thread_rank Behind_loop = 1"
| "thread_rank Thread_ended = 0"

definition session_rank :: "start_state \<Rightarrow> nat" where
  "session_rank s =
     client_rank (client s) + thread_rank (main_thread s) + 5 * length (requests s) + (asked s - length (answers s))"

lemmas rank_defs = session_rank_def first_service_def next_service_def write_request_def signal_init_def

lemma setup_step_descends: "setup_step V F s t \<Longrightarrow> session_rank t < session_rank s"
  by (auto simp: rank_defs elim!: setup_stepE; cases "main_thread s"; simp)

lemma service_step_descends: "service_step s t \<Longrightarrow> session_rank t < session_rank s"
proof (erule service_stepE)
  fix reg sv
  assume "t = write_request (Register reg sv) (s\<lparr>client := Delivered reg sv\<rparr>)" "client s = Sending reg sv"
  then show ?thesis by (cases sv) (auto simp: rank_defs)
qed (auto simp: session_rank_def)

lemma quit_step_descends: "quit_step s t \<Longrightarrow> session_rank t < session_rank s"
  by (auto simp: rank_defs elim!: quit_stepE)

lemma serve_descends: "session_rank (serve V reg sv s) < session_rank s + 5"
  by (cases "client s") (auto simp: rank_defs serve_def Let_def split: service.splits)

lemma thread_step_descends: "thread_step V F s t \<Longrightarrow> session_rank t < session_rank s"
proof (erule thread_stepE)
  fix reg sv cs
  assume "t = serve V reg sv (s\<lparr>requests := cs\<rparr>)" "requests s = Register reg sv # cs"
  then show ?thesis using serve_descends [of V reg sv "s\<lparr>requests := cs\<rparr>"] by (simp add: session_rank_def)
qed (auto simp: rank_defs)

lemma inner_step_descends: "inner_step V F s t \<Longrightarrow> session_rank t < session_rank s"
  by (erule inner_stepE) (blast intro: setup_step_descends service_step_descends quit_step_descends thread_step_descends)+

text \<open>Outside of the loop the thread of the main loop always goes on; without faults there is a next step until the
  client is outside of both calls.\<close>

lemma thread_goes_on:
  assumes "main_thread s = New_thread \<longrightarrow> init_owner s = None"
    "main_thread s \<notin> {No_thread, In_loop, Thread_ended}"
  shows "\<exists>t. thread_step V F s t"
proof (cases "main_thread s")
  case New_thread
  with assms show ?thesis by (blast intro: thread_locks)
next
  case (Signalled_init ok)
  then show ?thesis by (blast intro: thread_unlocks)
qed (use assms in \<open>auto intro: makes_pipe setup_succeeds thread_ends\<close>)

lemma awaited_reply:
  assumes "client s = Awaiting reg" "session_inv F s"
  shows "(\<exists>t. service_step s t) \<or> (\<exists>t. thread_step V F s t)"
proof (cases "pending_locked s")
  case True
  with assms have "main_thread s = In_loop" "length (answers s) < asked s" by (auto simp: session_inv_def)
  then show ?thesis using reply_arrives by blast
next
  case False
  from assms(1) have "client s = Awaiting True \<or> client s = Awaiting False" by (cases reg) auto
  with False show ?thesis using registered unregistered by blast
qed

lemma inner_step_exists:
  assumes "session_inv F s" "client s \<noteq> Idle" "client s \<noteq> Running"
  shows "\<exists>t. inner_step V F s t"
proof -
  have "(\<exists>t. setup_step V F s t) \<or> (\<exists>t. service_step s t) \<or> (\<exists>t. quit_step s t) \<or> (\<exists>t. thread_step V F s t)"
  proof (cases "client s")
    case (Sending reg sv)
    then show ?thesis using write_service by blast
  next
    case (Delivered reg sv)
    with assms have "main_thread s = In_loop" "requests s = Register reg sv # []" by (auto simp: session_inv_def)
    then show ?thesis using serves by blast
  next
    case (Awaiting reg)
    then show ?thesis using awaited_reply assms(1) by blast
  next
    case Joining
    with assms consider "main_thread s = In_loop" "requests s = Quit_request # []" | "main_thread s = Behind_loop"
      | "main_thread s = Thread_ended" by (auto simp: session_inv_def)
    then show ?thesis using Joining leaves_loop thread_ends join_thread by cases blast+
  next
    case Waiting_init
    with assms show ?thesis using thread_goes_on [of s] by (auto simp: session_inv_def)
  next
    case Woken_init
    with assms consider "main_thread s = Signalled_init True \<or> main_thread s = Signalled_init False" | "init_owner s = None"
      by (auto simp: session_inv_def)
    then show ?thesis
    proof cases
      case 1
      then show ?thesis using thread_goes_on [of s] by auto
    next
      case 2
      then show ?thesis using Woken_init relock_init by blast
    qed
  next
    case Starting
    with assms have "init_owner s = None" by (simp add: session_inv_def)
    with Starting show ?thesis using lock_init by blast
  qed (use assms write_quit create_thread wait_init setup_returns in blast)+
  then show ?thesis by (blast intro: inner_step.intros)
qed

text \<open>All schedules of the inner steps bring the client out of its call: it is out already, or there is a step and
  every step leads to such a state.\<close>

inductive must_return :: "session_config \<Rightarrow> start_faults \<Rightarrow> start_state \<Rightarrow> bool" for V F where
  is_out: "client s = Idle \<or> client s = Running \<Longrightarrow> must_return V F s"
| all_return: "inner_step V F s t \<Longrightarrow> (\<And>u. inner_step V F s u \<Longrightarrow> must_return V F u) \<Longrightarrow> must_return V F s"

inductive_cases must_returnE: "must_return V F s"

lemma session_inv_returns:
  assumes "sound_start V F" "session_inv F s"
  shows "must_return V F s"
  using assms(2)
proof (induction "session_rank s" arbitrary: s rule: less_induct)
  case less
  show ?case
  proof (cases "client s = Idle \<or> client s = Running")
    case True
    then show ?thesis by (rule is_out)
  next
    case False
    with less.prems obtain t where "inner_step V F s t" using inner_step_exists [of F s V] by blast
    then show ?thesis
      by (rule all_return) (use less assms(1) in \<open>blast intro: inner_step_descends inner_step_keeps\<close>)
  qed
qed

text \<open>A state in the middle of a call without a next step, and every state from which one gets there without
  leaving the call, need not return.\<close>

lemma stuck_hangs:
  assumes "client s \<noteq> Idle" "client s \<noteq> Running" "\<And>t. \<not> inner_step V F s t"
  shows "\<not> must_return V F s"
  using assms by (blast elim: must_returnE)

lemma step_hangs:
  assumes "\<not> must_return V F t" "inner_step V F s t" "client s \<noteq> Idle" "client s \<noteq> Running"
  shows "\<not> must_return V F s"
  using assms by (blast elim: must_returnE)

text \<open>The states of the first session in which nothing has been asked, sent or answered.\<close>

definition first_session :: "client_pc \<Rightarrow> thread_pc \<Rightarrow> holder option \<Rightarrow> start_state" where
  "first_session c m h = \<lparr>client = c, main_thread = m, pending_locked = True, init_owner = h, requests = [],
     asked = 0, answers = [], outcome = 1\<rparr>"

lemma first_session_sel [simp]:
  "client (first_session c m h) = c" "main_thread (first_session c m h) = m" "init_owner (first_session c m h) = h"
  "requests (first_session c m h) = []" "asked (first_session c m h) = 0" "answers (first_session c m h) = []"
  by (simp_all add: first_session_def)

lemma first_session_upd [simp]:
  "(first_session c m h)\<lparr>client := c'\<rparr> = first_session c' m h"
  "(first_session c m h)\<lparr>main_thread := m'\<rparr> = first_session c m' h"
  "(first_session c m h)\<lparr>init_owner := h'\<rparr> = first_session c m h'"
  "(first_session c m h)\<lparr>requests := []\<rparr> = first_session c m h"
  by (simp_all add: first_session_def)

text \<open>The start, up to the wait.\<close>

lemma first_session_waits:
  "start_reach V F (first_session Starting No_thread None)"
  "start_reach V F (first_session Connecting No_thread (Some Client_thread))"
  "start_reach V F (first_session Created New_thread (Some Client_thread))"
  "start_reach V F (first_session Waiting_init New_thread None)"
proof -
  have "call_step V start_up (first_session Starting No_thread None)"
    using call_init [of start_up V] by (simp add: start_up_def first_session_def no_loop_def)
  then show 1: "start_reach V F (first_session Starting No_thread None)"
    by (rule start_reach_call [OF start_reach_start])
  show 2: "start_reach V F (first_session Connecting No_thread (Some Client_thread))"
    using lock_init [of "first_session Starting No_thread None" V F] 
    by (auto intro: start_reach_inner [OF 1] inner_step.intros)
  show 3: "start_reach V F (first_session Created New_thread (Some Client_thread))"
    using create_thread [of "first_session Connecting No_thread (Some Client_thread)" V F]
    by (auto intro: start_reach_inner [OF 2] inner_step.intros)
  show "start_reach V F (first_session Waiting_init New_thread None)"
    using wait_init [of "first_session Created New_thread (Some Client_thread)" V F]
    by (auto intro: start_reach_inner [OF 3] inner_step.intros)
qed

text \<open>From a state with the thread still to run, the loop is set up, and then waits for commands for ever.\<close>

lemma loop_alone_hangs:
  assumes "c = Joining \<or> c = Delivered True sv"
  shows "\<not> must_return V F (first_session c New_thread None)"
proof -
  have "\<not> must_return V F (first_session c In_loop None)"
    using assms
    by (intro stuck_hangs) (auto elim!: inner_stepE setup_stepE service_stepE quit_stepE thread_stepE)
  moreover have "inner_step V F (first_session c New_thread None) (first_session c Setting_up (Some Main_thread))"
    "inner_step V F (first_session c Setting_up (Some Main_thread)) (first_session c Piped (Some Main_thread))"
    "inner_step V F (first_session c Piped (Some Main_thread)) (first_session c (Signalled_init True) (Some Main_thread))"
    "inner_step V F (first_session c (Signalled_init True) (Some Main_thread)) (first_session c In_loop None)"
    using assms thread_locks [of "first_session c New_thread None" V F]
      makes_pipe [of "first_session c Setting_up (Some Main_thread)" V F]
      setup_succeeds [of "first_session c Piped (Some Main_thread)" V F]
      thread_unlocks [of "first_session c (Signalled_init True) (Some Main_thread)" True V F]
    by (auto intro!: inner_step.intros(4) simp: signal_init_def)
  moreover have "c \<noteq> Idle" "c \<noteq> Running" using assms by auto
  ultimately show ?thesis by (metis step_hangs first_session_sel(1))
qed

text \<open>A set-up that fails, and a wake-up that comes too early, bring \<open>setup_dbus_mainloop\<close> back all the same.\<close>

lemma early_return_reached:
  assumes "setup_fails F \<and> m = Thread_ended \<or> spurious_init F \<and> m = New_thread"
  shows "start_reach V F (first_session (first_service V True) m None)"
proof -
  have "start_reach V F (first_session Woken_init m None)"
    using assms
  proof
    assume f: "setup_fails F \<and> m = Thread_ended"
    have "start_reach V F (first_session Waiting_init Setting_up (Some Main_thread))"
      using thread_locks [of "first_session Waiting_init New_thread None" V F]
      by (auto intro: start_reach_inner [OF first_session_waits(4)] inner_step.intros)
    then have "start_reach V F (first_session Woken_init (Signalled_init False) (Some Main_thread))"
      by (rule start_reach_inner)
        (use f setup_gives_up [of "first_session Waiting_init Setting_up (Some Main_thread)" F V]
          in \<open>auto intro: inner_step.intros simp: signal_init_def\<close>)
    then show ?thesis
      by (rule start_reach_inner)
        (use f thread_unlocks [of "first_session Woken_init (Signalled_init False) (Some Main_thread)" False V F]
          in \<open>auto intro: inner_step.intros\<close>)
  next
    assume "spurious_init F \<and> m = New_thread"
    then show ?thesis
      using spurious [of "first_session Waiting_init New_thread None" F V]
      by (auto intro: start_reach_inner [OF first_session_waits(4)] inner_step.intros)
  qed
  then have "start_reach V F (first_session Back_init m (Some Client_thread))"
    by (rule start_reach_inner)
      (use relock_init [of "first_session Woken_init m None" V F] in \<open>auto intro: inner_step.intros\<close>)
  then show ?thesis
    by (rule start_reach_inner)
      (use setup_returns [of "first_session Back_init m (Some Client_thread)" V F] in \<open>auto intro: inner_step.intros\<close>)
qed

lemma lost_registration_hangs:
  assumes "m = Thread_ended \<or> m = New_thread"
  shows "\<not> must_return V F (first_session (Sending True sv) m None)"
proof -
  have "\<not> must_return V F (first_session (Delivered True sv) m None)"
    using assms
  proof
    assume "m = Thread_ended"
    then show ?thesis
      by (intro stuck_hangs) (auto elim!: inner_stepE setup_stepE service_stepE quit_stepE thread_stepE)
  qed (simp add: loop_alone_hangs)
  moreover have "inner_step V F (first_session (Sending True sv) m None) (first_session (Delivered True sv) m None)"
    using assms write_service [of "first_session (Sending True sv) m None" True sv]
    by (auto intro!: inner_step.intros(2) simp: write_request_def)
  ultimately show ?thesis by (rule step_hangs) simp_all
qed

lemma unsound_start_hangs:
  assumes "\<not> sound_start V F"
  shows "\<exists>s. start_reach V F s \<and> \<not> must_return V F s"
proof (cases "with_lifecycle V \<or> with_pas V")
  case True
  then obtain sv where "first_service V True = Sending True sv"
    by (cases "with_lifecycle V") (simp_all add: first_service_def)
  with assms early_return_reached [of F _ V] lost_registration_hangs [of _ V F sv]
  show ?thesis unfolding sound_start_def by metis
next
  case False
  then have n: "first_service V True = Running" "first_service V False = Quitting" by (auto simp: first_service_def)
  have "start_reach V F (first_session Quitting New_thread None)"
    by (rule start_reach_call [OF early_return_reached [of F New_thread]])
      (use False assms n call_deinit [of "first_session Running New_thread None" V] in \<open>auto simp: sound_start_def\<close>)
  moreover have "\<not> must_return V F (first_session Quitting New_thread None)"
    by (rule step_hangs [OF loop_alone_hangs [of Joining]])
      (use write_quit [of "first_session Quitting New_thread None"]
        in \<open>auto intro!: inner_step.intros(3) simp: write_request_def\<close>)
  ultimately show ?thesis by blast
qed

text \<open>A session that registers with the administration service, up to the reply.\<close>

lemma registration_reached:
  assumes "with_pas V" "\<not> with_lifecycle V"
  shows "start_reach V F ((first_session (Awaiting True) In_loop None)\<lparr>asked := 1, answers := [v], pending_locked := False\<rparr>)"
proof -
  have "start_reach V F (first_session Waiting_init Setting_up (Some Main_thread))"
    using thread_locks [of "first_session Waiting_init New_thread None" V F]
    by (auto intro: start_reach_inner [OF first_session_waits(4)] inner_step.intros)
  then have "start_reach V F (first_session Waiting_init Piped (Some Main_thread))"
    by (rule start_reach_inner)
      (use makes_pipe [of "first_session Waiting_init Setting_up (Some Main_thread)" V F] in \<open>auto intro: inner_step.intros\<close>)
  then have "start_reach V F (first_session Woken_init (Signalled_init True) (Some Main_thread))"
    by (rule start_reach_inner)
      (use setup_succeeds [of "first_session Waiting_init Piped (Some Main_thread)" V F]
        in \<open>auto intro: inner_step.intros simp: signal_init_def\<close>)
  then have "start_reach V F (first_session Woken_init In_loop None)"
    by (rule start_reach_inner)
      (use thread_unlocks [of "first_session Woken_init (Signalled_init True) (Some Main_thread)" True V F]
        in \<open>auto intro: inner_step.intros\<close>)
  then have "start_reach V F (first_session Back_init In_loop (Some Client_thread))"
    by (rule start_reach_inner)
      (use relock_init [of "first_session Woken_init In_loop None" V F] in \<open>auto intro: inner_step.intros\<close>)
  then have "start_reach V F (first_session (Sending True Admin_service) In_loop None)"
    by (rule start_reach_inner)
      (use assms setup_returns [of "first_session Back_init In_loop (Some Client_thread)" V F]
        in \<open>auto intro: inner_step.intros simp: first_service_def\<close>)
  then have "start_reach V F ((first_session (Delivered True Admin_service) In_loop None)\<lparr>requests := [Register True Admin_service]\<rparr>)"
    by (rule start_reach_inner)
      (use write_service [of "first_session (Sending True Admin_service) In_loop None" True Admin_service]
        in \<open>auto intro: inner_step.intros simp: write_request_def\<close>)
  then have "start_reach V F ((first_session (Awaiting True) In_loop None)\<lparr>asked := 1\<rparr>)"
    by (rule start_reach_inner)
      (use serves [of "(first_session (Delivered True Admin_service) In_loop None)\<lparr>requests := [Register True Admin_service]\<rparr>"
          True Admin_service "[]" V F] in \<open>auto intro!: inner_step.intros(4) simp: serve_def first_session_def\<close>)
  then show ?thesis
    by (rule start_reach_inner)
      (use reply_arrives [of "(first_session (Awaiting True) In_loop None)\<lparr>asked := 1\<rparr>" V F v]
        in \<open>auto intro: inner_step.intros simp: first_session_def\<close>)
qed

lemma refusal_reached:
  assumes "with_pas V" "\<not> with_lifecycle V"
  shows "start_reach V F ((first_session Idle In_loop None)\<lparr>asked := 1, answers := [- 1], pending_locked := False,
    outcome := EPERS_REGISTER_ADMIN\<rparr>)"
  using registration_reached [OF assms, of F "- 1"]
  by (rule start_reach_inner)
    (use registered [of "(first_session (Awaiting True) In_loop None)\<lparr>asked := 1, answers := [- 1], pending_locked := False\<rparr>"]
      in \<open>auto intro: inner_step.intros simp: first_session_def\<close>)

section \<open>Properties\<close>

text \<open>C10: the calls return. Every schedule of the two threads, in every session of any number of initialisations and
  deinitialisations, brings the client's thread out of \<open>pclInitLibrary\<close> and \<open>pclDeinitLibrary\<close> after finitely many
  steps, exactly when the wait for the main loop does not end without a signal and its set-up does not fail as long as
  a registration at the lifecycle manager or the administration service is to follow. Otherwise there is a schedule
  that leaves the client waiting for ever: the failure is not reported by \<open>setup_dbus_mainloop\<close>, the
  command is written to a closed pipe, and nobody signals \<open>gMainLoopCond\<close>.\<close>

theorem startup_returns:
  "(\<forall>s. start_reach V F s \<longrightarrow> must_return V F s) \<longleftrightarrow>
     \<not> spurious_init F \<and> (setup_fails F \<longrightarrow> \<not> with_lifecycle V \<and> \<not> with_pas V)"
  using session_inv_returns start_reach_inv unsound_start_hangs unfolding sound_start_def by metis

text \<open>A failing set-up with a registration to follow.\<close>

theorem startup_returns_witness:
  "\<exists>s. start_reach \<lparr>with_lifecycle = True, with_pas = False\<rparr> \<lparr>spurious_init = False, setup_fails = True\<rparr> s \<and>
     \<not> must_return \<lparr>with_lifecycle = True, with_pas = False\<rparr> \<lparr>spurious_init = False, setup_fails = True\<rparr> s"
  using startup_returns [of "\<lparr>with_lifecycle = True, with_pas = False\<rparr>" "\<lparr>spurious_init = False, setup_fails = True\<rparr>"]
  by simp

text \<open>C12: the reply a call waits for. \<open>gDbusPendingRegMtx\<close>, locked by the client and unlocked by the other thread, does
  what a semaphore would do: \<open>register_pers_admin_service\<close> and \<open>unregister_pers_admin_service\<close> get behind their second
  lock only when every request so far has been answered, so that the value they read is the reply to their own.\<close>

theorem registration_answered:
  assumes "start_reach V F s" "\<not> spurious_init F" "setup_fails F \<longrightarrow> \<not> with_lifecycle V \<and> \<not> with_pas V"
    and "client s = Awaiting reg" "service_step s t"
  shows "length (answers s) = asked s"
proof -
  from assms(1-3) have "session_inv F s" by (simp add: start_reach_inv sound_start_def)
  moreover from assms(5,4) have "\<not> pending_locked s" by cases auto
  ultimately show ?thesis using assms(4) by (simp add: session_inv_def)
qed

theorem registration_answered_witness:
  "length (answers ((first_session (Awaiting True) In_loop None)\<lparr>asked := 1, answers := [7], pending_locked := False\<rparr>)) =
   asked ((first_session (Awaiting True) In_loop None)\<lparr>asked := 1, answers := [7], pending_locked := False\<rparr>)"
  by (rule registration_answered [OF registration_reached
      [of "\<lparr>with_lifecycle = False, with_pas = True\<rparr>" "\<lparr>spurious_init = False, setup_fails = False\<rparr>" 7] _ _ _ registered])
    simp_all

text \<open>C11: after a session. When the client is outside, both mutexes are free, no command is left and no main loop is
  alive, so that the next \<open>pclInitLibrary\<close> can start, unless the administration service has refused the registration:
  then \<open>pclInitLibrary\<close> has returned with the main loop running and nobody to join it.\<close>

theorem session_leaves_nothing:
  assumes "start_reach V F s" "\<not> spurious_init F" "setup_fails F \<longrightarrow> \<not> with_lifecycle V \<and> \<not> with_pas V"
    and "client s = Idle"
  shows "(\<not> pending_locked s \<and> init_owner s = None \<and> requests s = [] \<and> no_loop s) \<longleftrightarrow> outcome s \<noteq> EPERS_REGISTER_ADMIN"
proof -
  from assms(1-3) have "session_inv F s" by (simp add: start_reach_inv sound_start_def)
  with assms(4) show ?thesis by (auto simp: session_inv_def no_loop_def split: if_splits)
qed

text \<open>A refused registration.\<close>

theorem session_leaves_nothing_witness:
  "\<not> no_loop ((first_session Idle In_loop None)\<lparr>asked := 1, answers := [- 1], pending_locked := False,
     outcome := EPERS_REGISTER_ADMIN\<rparr>)"
  using session_leaves_nothing [OF refusal_reached
      [of "\<lparr>with_lifecycle = False, with_pas = True\<rparr>" "\<lparr>spurious_init = False, setup_fails = False\<rparr>"]]
  by (simp add: first_session_def)

end
