(* ===== verification/Rb_Walk.thy ===== *)
theory Rb_Walk
  imports Rb_Correct
begin

text \<open>
  The traversal of the red-black tree (\<open>src/rbtree.c\<close>, the functions \<open>start\<close>, \<open>move\<close> and their four callers;
  they are written but switched off with \<open>#if 0\<close>): a cursor with the stack of the nodes above it, an array
  of \<open>HEIGHT_LIMIT\<close> entries. The walk is shown to give every item once, in the order of the comparison, and to
  stay within the array, because a red-black tree is not deep.

  A traversal object is the record \<open>jsw_rbtrav\<close>; its field \<open>tree\<close> is never read and left out. What
  \<open>malloc\<close> leaves in a new object is arbitrary.
\<close>

section \<open>Operations\<close>

definition HEIGHT_LIMIT :: nat where
  "HEIGHT_LIMIT = 256"

record jsw_rbtrav =
  tr_it :: nat
  tr_path :: "nat \<Rightarrow> nat"
  tr_top :: nat

text \<open>\<open>trav->path[trav->top++] = trav->it; trav->it = p\<close>.\<close>

definition trav_push :: "nat \<Rightarrow> jsw_rbtrav \<Rightarrow> jsw_rbtrav option" where
  "trav_push p v = do {
     path \<leftarrow> wr HEIGHT_LIMIT (tr_path v) (int (tr_top v)) (tr_it v);
     Some (v\<lparr>tr_path := path, tr_top := tr_top v + 1, tr_it := p\<rparr>)
   }"

definition trav_data :: "'a rbheap \<Rightarrow> jsw_rbtrav \<Rightarrow> ('a option \<times> jsw_rbtrav) option" where
  "trav_data h v = (if tr_it v = 0 then Some (None, v) else map_option (\<lambda>n. (ndata n, v)) (deref h (tr_it v)))"

text \<open>Down to the last node in a direction.\<close>

partial_function (option) trav_down :: "'a rbheap \<Rightarrow> bool \<Rightarrow> jsw_rbtrav \<Rightarrow> jsw_rbtrav option" where
  "trav_down h d v =
     Option.bind (deref h (tr_it v)) (\<lambda>n.
       if link n d \<noteq> 0 then Option.bind (trav_push (link n d) v) (trav_down h d) else Some v)"

declare trav_down.simps [code]

definition rb_start :: "'a rbheap \<Rightarrow> jsw_rbtree \<Rightarrow> bool \<Rightarrow> jsw_rbtrav \<Rightarrow> ('a option \<times> jsw_rbtrav) option" where
  "rb_start h t dir v = do {
     let v = v\<lparr>tr_it := root t, tr_top := 0\<rparr>;
     v \<leftarrow> (if tr_it v \<noteq> 0 then trav_down h dir v else Some v);
     trav_data h v
   }"

text \<open>Up until a link in another direction has been left, or past the root.\<close>

partial_function (option) trav_up :: "'a rbheap \<Rightarrow> bool \<Rightarrow> jsw_rbtrav \<Rightarrow> jsw_rbtrav option" where
  "trav_up h dir v =
     (if tr_top v = 0 then Some (v\<lparr>tr_it := 0\<rparr>)
      else Option.bind (rd HEIGHT_LIMIT (tr_path v) (int (tr_top v) - 1)) (\<lambda>p.
        Option.bind (deref h p) (\<lambda>n.
          if tr_it v = link n dir then trav_up h dir (v\<lparr>tr_it := p, tr_top := tr_top v - 1\<rparr>)
          else Some (v\<lparr>tr_it := p, tr_top := tr_top v - 1\<rparr>))))"

declare trav_up.simps [code]

definition rb_next_to :: "'a rbheap \<Rightarrow> bool \<Rightarrow> jsw_rbtrav \<Rightarrow> ('a option \<times> jsw_rbtrav) option" where
  "rb_next_to h dir v = do {
     n \<leftarrow> deref h (tr_it v);
     v \<leftarrow> (if link n dir \<noteq> 0 then do {
             v \<leftarrow> trav_push (link n dir) v;
             trav_down h (\<not> dir) v
           }
           else trav_up h dir v);
     trav_data h v
   }"

definition jsw_rbtfirst :: "'a rbheap \<Rightarrow> jsw_rbtree \<Rightarrow> jsw_rbtrav \<Rightarrow> ('a option \<times> jsw_rbtrav) option" where
  "jsw_rbtfirst h t v = rb_start h t False v"

definition jsw_rbtlast :: "'a rbheap \<Rightarrow> jsw_rbtree \<Rightarrow> jsw_rbtrav \<Rightarrow> ('a option \<times> jsw_rbtrav) option" where
  "jsw_rbtlast h t v = rb_start h t True v"

definition jsw_rbtnext :: "'a rbheap \<Rightarrow> jsw_rbtrav \<Rightarrow> ('a option \<times> jsw_rbtrav) option" where
  "jsw_rbtnext h v = rb_next_to h True v"

definition jsw_rbtprev :: "'a rbheap \<Rightarrow> jsw_rbtrav \<Rightarrow> ('a option \<times> jsw_rbtrav) option" where
  "jsw_rbtprev h v = rb_next_to h False v"

definition jsw_rbsize :: "jsw_rbtree \<Rightarrow> nat" where
  "jsw_rbsize t = tsize t"

text \<open>How a client uses them: from an item on, until NULL.\<close>

partial_function (option) walk_on ::
  "(jsw_rbtrav \<Rightarrow> ('a option \<times> jsw_rbtrav) option) \<Rightarrow> 'a option \<times> jsw_rbtrav \<Rightarrow> 'a list option" where
  "walk_on step p =
     (case fst p of
        None \<Rightarrow> Some []
      | Some x \<Rightarrow> Option.bind (step (snd p)) (\<lambda>q. Option.bind (walk_on step q) (\<lambda>xs. Some (x # xs))))"

declare walk_on.simps [code]

definition rb_walk :: "'a rbheap \<Rightarrow> jsw_rbtree \<Rightarrow> jsw_rbtrav \<Rightarrow> 'a list option" where
  "rb_walk h t v = Option.bind (jsw_rbtfirst h t v) (walk_on (jsw_rbtnext h))"

definition rb_walk_back :: "'a rbheap \<Rightarrow> jsw_rbtree \<Rightarrow> jsw_rbtrav \<Rightarrow> 'a list option" where
  "rb_walk_back h t v = Option.bind (jsw_rbtlast h t v) (walk_on (jsw_rbtprev h))"

section \<open>Depth\<close>

primrec depth :: "'a rt \<Rightarrow> nat" where
  "depth Lf = 0"
| "depth (Nd a c x f) = max (depth (f False)) (depth (f True)) + 1"

lemma depth_two [simp]: "depth (Nd a c x (two d T s)) = max (depth T) (depth s) + 1"
  by (cases d) (simp_all add: two_def max.commute)

declare depth.simps(2) [simp del]

lemma depth_plug: "length fs + depth T \<le> depth (plug fs T)"
  by (induction fs T rule: plug.induct) (auto intro: order_trans [rotated])

text \<open>A path has at most twice as many nodes as black ones, and there are exponentially many nodes.\<close>

lemma depth_bh: "invc T \<Longrightarrow> invh T \<Longrightarrow> depth T \<le> 2 * bh T + (if isred T then 1 else 0)"
proof (induction T rule: rt_induct [where d = True])
  case (Nd a c x L R)
  then show ?case by (cases c; cases "isred L"; cases "isred R") (auto simp: bh_two)
qed simp

lemma bh_nsize: "invh T \<Longrightarrow> 2 ^ bh T \<le> nsize T + 1"
proof (induction T rule: rt_induct [where d = True])
  case (Nd a c x L R)
  then show ?case by (cases c) (auto simp: bh_two)
qed simp

lemma depth_limit:
  assumes "invc T" and "invh T" and "\<not> isred T" and "nsize T < 2 ^ 128"
  shows "depth T \<le> HEIGHT_LIMIT"
proof -
  have "(2 :: nat) ^ bh T \<le> 2 ^ 128" using bh_nsize [OF assms(2)] assms(4) by linarith
  then have "bh T \<le> 128" by (simp only: power_increasing_iff one_less_numeral_iff semiring_norm)
  then show ?thesis using depth_bh [OF assms(1,2)] assms(3) by (simp add: HEIGHT_LIMIT_def)
qed

section \<open>The order of the walk\<close>

text \<open>The items of a tree when walking in direction \<open>d\<close>.\<close>

primrec inorder :: "bool \<Rightarrow> 'a rt \<Rightarrow> 'a list" where
  "inorder d Lf = []"
| "inorder d (Nd a c x f) = inorder d (f (\<not> d)) @ x # inorder d (f d)"

lemma inorder_two [simp]:
  "inorder d (Nd a c x (two d T s)) = inorder d s @ x # inorder d T"
  "inorder (\<not> d) (Nd a c x (two d T s)) = inorder (\<not> d) T @ x # inorder (\<not> d) s"
  by (simp_all add: two_def)

declare inorder.simps(2) [simp del]

lemma inorder_rev: "inorder (\<not> d) T = rev (inorder d T)"
  by (induction T rule: rt_induct [where d = d]) simp_all

lemma inorder_items: "set (inorder d T) = items T"
  by (induction T rule: rt_induct [where d = d]) auto

lemma inorder_length: "length (inorder d T) = nsize T"
  by (induction T rule: rt_induct [where d = d]) auto

lemma inorder_sorted: "bst k T \<Longrightarrow> sorted_wrt (\<lambda>x y. before d (k y) (k x)) (inorder d T)"
proof (induction T rule: rt_induct [where d = d])
  case (Nd a c x L R)
  then show ?case by (auto simp: sorted_wrt_append inorder_items dest: before_trans)
qed simp

text \<open>What is left to visit above a position.\<close>

fun above :: "bool \<Rightarrow> 'a frame list \<Rightarrow> 'a list" where
  "above d [] = []"
| "above d ((a, c, x, e, s) # fs) = (if e = d then above d fs else x # inorder d s @ above d fs)"

lemma sorted_distinct: "sorted_wrt (\<lambda>x y. key y < (key x :: 'k::linorder)) xs \<Longrightarrow> distinct xs"
  by (induction xs) auto

section \<open>Steps of the walk\<close>

text \<open>The cursor is at the node \<open>T\<close> below the path \<open>fs\<close> in the tree \<open>U\<close> of the heap.\<close>

definition cursor :: "'a rbheap \<Rightarrow> 'a rt \<Rightarrow> jsw_rbtrav \<Rightarrow> 'a frame list \<Rightarrow> 'a rt \<Rightarrow> bool" where
  "cursor h U v fs T \<longleftrightarrow> holds h U \<and> dist U \<and> depth U \<le> HEIGHT_LIMIT \<and> plug fs T = U \<and> T \<noteq> Lf \<and> tr_it v = ra T \<and>
     tr_top v = length fs \<and> (\<forall>i < length fs. tr_path v i = fst (rev fs ! i))"

lemma holds_plugD: "holds h (plug fs T) \<Longrightarrow> holds h T"
  by (induction fs T rule: plug.induct) auto

lemma dist_plugD: "dist (plug fs T) \<Longrightarrow> dist T"
  by (induction fs T rule: plug.induct) auto

lemma cursor_node:
  assumes "cursor h U v fs (Nd a c x (two d L R))"
  shows "deref h (tr_it v) = Some (cell c x (two d (ra L) (ra R)))" "holds h L" "holds h R" "a \<noteq> 0"
    "dist (Nd a c x (two d L R))" "tr_it v = a"
  using assms holds_plugD [of h fs "Nd a c x (two d L R)"] dist_plugD [of fs "Nd a c x (two d L R)"]
  by (auto simp: cursor_def deref_def)

text \<open>One step down, with room in the array.\<close>

lemma cursor_push:
  assumes c: "cursor h U v fs (Nd a c x (two d L R))" and "L \<noteq> Lf"
  shows "\<exists>v'. trav_push (ra L) v = Some v' \<and> cursor h U v' ((a, c, x, d, R) # fs) L"
proof -
  have "length fs < HEIGHT_LIMIT" using c depth_plug [of fs "Nd a c x (two d L R)"] by (auto simp: cursor_def)
  moreover have "tr_it v = a" using c by (simp add: cursor_def)
  ultimately show ?thesis
    using c assms(2) by (auto simp: trav_push_def cursor_def wr_in nth_append less_Suc_eq)
qed

lemma trav_down_goes:
  assumes "cursor h U v fs T"
  shows "\<exists>v' fs' a c x s. trav_down h e v = Some v' \<and> cursor h U v' fs' (Nd a c x (two (\<not> e) s Lf)) \<and>
     inorder (\<not> e) T @ above (\<not> e) fs = x # inorder (\<not> e) s @ above (\<not> e) fs'"
  using assms
proof (induction T arbitrary: v fs rule: rt_induct [where d = e])
  case Lf
  then show ?case by (simp add: cursor_def)
next
  case (Nd a c x L R)
  note n = cursor_node [OF Nd.prems]
  show ?case
  proof (cases "L = Lf")
    case True
    then have "trav_down h e v = Some v" using n by (subst trav_down.simps) simp
    moreover have "two e Lf R = two (\<not> e) R Lf" by (metis two_flip)
    ultimately show ?thesis
      using Nd.prems True by (intro exI [of _ v] exI [of _ fs] exI [of _ a] exI [of _ c] exI [of _ x] exI [of _ R]) simp
  next
    case False
    obtain v1 where v1: "trav_push (ra L) v = Some v1" "cursor h U v1 ((a, c, x, e, R) # fs) L"
      using cursor_push [OF Nd.prems False] by blast
    have "trav_down h e v = trav_down h e v1" using n v1(1) False ra_zero [of h L] by (subst trav_down.simps) simp
    then show ?thesis using Nd.IH(1) [OF v1(2)] by simp
  qed
qed

lemma trav_up_goes:
  assumes "cursor h U v fs T"
  shows "case above d fs of
      [] \<Rightarrow> \<exists>v'. trav_up h d v = Some v' \<and> tr_it v' = 0
    | x # xs \<Rightarrow> \<exists>v' fs' a c s T'. trav_up h d v = Some v' \<and> cursor h U v' fs' (Nd a c x (two d s T')) \<and>
        xs = inorder d s @ above d fs'"
  using assms
proof (induction fs arbitrary: v T)
  case Nil
  then show ?case by (subst trav_up.simps) (simp add: cursor_def)
next
  case (Cons f fs)
  obtain a c x e s where f: "f = (a, c, x, e, s)" by (cases f)
  have len: "length fs < HEIGHT_LIMIT" using Cons.prems depth_plug [of "f # fs" T] by (auto simp: cursor_def)
  let ?v = "v\<lparr>tr_it := a, tr_top := tr_top v - 1\<rparr>"
  have path: "tr_path v i = fst (rev fs ! i)" if "i < length fs" for i
    using Cons.prems that by (auto simp: cursor_def nth_append split: if_splits)
  have cur: "cursor h U ?v fs (Nd a c x (two e T s))"
    using Cons.prems f path by (simp add: cursor_def)
  note n = cursor_node [OF cur]
  have "tr_path v (length fs) = a" "tr_top v = length fs + 1" "tr_it v = ra T" "T \<noteq> Lf"
    using Cons.prems f by (auto simp: cursor_def nth_append)
  then have up: "trav_up h d v = (if tr_it v = two e (ra T) (ra s) d then trav_up h d ?v else Some ?v)"
    using n(1) len by (subst trav_up.simps) (simp add: rd_in)
  have ne: "ra T \<noteq> ra s"
  proof (cases "s = Lf")
    case True
    then show ?thesis using \<open>T \<noteq> Lf\<close> ra_zero [OF n(2)] by simp
  next
    case False
    then show ?thesis using n(5) ra_in [OF \<open>T \<noteq> Lf\<close>] ra_in [of s] by auto
  qed
  show ?case
  proof (cases "e = d")
    case True
    then have "trav_up h d v = trav_up h d ?v" using up \<open>tr_it v = ra T\<close> by simp
    then show ?thesis using Cons.IH [OF cur] f True by (cases "above d fs") auto
  next
    case False
    then have e: "d = (\<not> e)" by auto
    then have "trav_up h d v = Some ?v" using up ne \<open>tr_it v = ra T\<close> by simp
    moreover have "two e T s = two d s T" unfolding e by (metis two_flip)
    moreover have "above d (f # fs) = x # inorder d s @ above d fs" using f False by simp
    ultimately show ?thesis using cur by simp blast
  qed
qed

text \<open>The items that a walk in direction \<open>d\<close> still has before it.\<close>

definition ahead :: "'a rbheap \<Rightarrow> 'a rt \<Rightarrow> bool \<Rightarrow> 'a option \<times> jsw_rbtrav \<Rightarrow> 'a list \<Rightarrow> bool" where
  "ahead h U d p xs \<longleftrightarrow> (case fst p of
      None \<Rightarrow> xs = []
    | Some x \<Rightarrow> \<exists>fs a c s T'. cursor h U (snd p) fs (Nd a c x (two d s T')) \<and> xs = x # inorder d s @ above d fs)"

lemma ahead_node:
  "cursor h U v fs (Nd a c x (two d s T)) \<Longrightarrow> ahead h U d (Some x, v) (x # inorder d s @ above d fs)"
  unfolding ahead_def by simp blast

lemma cursor_data: "cursor h U v fs (Nd a c x (two d s T)) \<Longrightarrow> trav_data h v = Some (Some x, v)"
  by (frule cursor_node(1)) (auto simp: trav_data_def dest: cursor_node(4,6))

lemma next_goes:
  assumes "ahead h U d p (x # xs)"
  shows "\<exists>q. rb_next_to h d (snd p) = Some q \<and> ahead h U d q xs"
proof -
  let ?v = "snd p"
  obtain fs a c s T where c: "cursor h U ?v fs (Nd a c x (two d s T))" "xs = inorder d s @ above d fs"
    using assms by (auto simp: ahead_def split: option.splits)
  note n = cursor_node [OF c(1)]
  show ?thesis
  proof (cases "s = Lf")
    case True
    then have step: "rb_next_to h d ?v = Option.bind (trav_up h d ?v) (trav_data h)"
      using n(1) by (simp add: rb_next_to_def)
    have xs: "xs = above d fs" using c(2) True by simp
    show ?thesis
    proof (cases xs)
      case Nil
      then show ?thesis using trav_up_goes [OF c(1), of d] xs step by (auto simp: trav_data_def ahead_def)
    next
      case (Cons y ys)
      then obtain v' fs' a' c' s' T' where u: "trav_up h d ?v = Some v'" "cursor h U v' fs' (Nd a' c' y (two d s' T'))"
        "ys = inorder d s' @ above d fs'" using trav_up_goes [OF c(1), of d] xs by auto
      then show ?thesis using step cursor_data [OF u(2)] Cons ahead_node [OF u(2)] by simp
    qed
  next
    case False
    obtain v1 where v1: "trav_push (ra s) ?v = Some v1" "cursor h U v1 ((a, c, x, d, T) # fs) s"
      using cursor_push [OF c(1) False] by blast
    obtain v2 fs2 a2 c2 y s2 where v2: "trav_down h (\<not> d) v1 = Some v2" "cursor h U v2 fs2 (Nd a2 c2 y (two d s2 Lf))"
      "inorder d s @ above d ((a, c, x, d, T) # fs) = y # inorder d s2 @ above d fs2"
      using trav_down_goes [OF v1(2), of "\<not> d"] by auto
    have "rb_next_to h d ?v = Some (Some y, v2)"
      using n(1) False ra_zero [OF n(2)] v1(1) v2(1) cursor_data [OF v2(2)] by (simp add: rb_next_to_def)
    then show ?thesis using v2(3) c(2) ahead_node [OF v2(2)] by simp
  qed
qed

lemma walk_on_goes: "ahead h U d p xs \<Longrightarrow> walk_on (rb_next_to h d) p = Some xs"
proof (induction xs arbitrary: p)
  case Nil
  then show ?case by (subst walk_on.simps) (auto simp: ahead_def split: option.splits)
next
  case (Cons x xs)
  obtain q where q: "rb_next_to h d (snd p) = Some q" "ahead h U d q xs" using next_goes [OF Cons.prems] by blast
  moreover have "fst p = Some x" using Cons.prems by (auto simp: ahead_def split: option.splits)
  ultimately show ?case using Cons.IH [OF q(2)] by (subst walk_on.simps) simp
qed

lemma start_goes:
  assumes "holds h U" and "dist U" and "depth U \<le> HEIGHT_LIMIT" and "ra U = root t"
  shows "\<exists>p. rb_start h t (\<not> d) v = Some p \<and> ahead h U d p (inorder d U)"
proof (cases "U = Lf")
  case True
  then show ?thesis using assms(4) by (simp add: rb_start_def trav_data_def ahead_def)
next
  case False
  let ?v = "v\<lparr>tr_it := root t, tr_top := 0\<rparr>"
  have "cursor h U ?v [] U" using assms False by (simp add: cursor_def)
  from trav_down_goes [OF this, of "\<not> d"] obtain v2 fs2 a2 c2 y s2
    where v2: "trav_down h (\<not> d) ?v = Some v2" "cursor h U v2 fs2 (Nd a2 c2 y (two d s2 Lf))"
      "inorder d U = y # inorder d s2 @ above d fs2" by auto
  have "rb_start h t (\<not> d) v = Some (Some y, v2)"
    using assms(1,4) False ra_zero [of h U] v2(1) cursor_data [OF v2(2)] by (simp add: rb_start_def)
  then show ?thesis using v2(3) ahead_node [OF v2(2)] by simp
qed

section \<open>The whole walk\<close>

text \<open>From any tree of the library, walking forward gives every item once, ordered by the comparison, and
  then NULL; walking backward gives the reverse. The array of 256 entries is enough for any number of
  items below $2^{128}$.\<close>

theorem rb_walk_in_order:
  assumes "rb_tree key h t S" and "card S < 2 ^ 128"
  shows "\<exists>xs. rb_walk h t v = Some xs \<and> rb_walk_back h t v = Some (rev xs) \<and> set xs = S \<and>
     sorted_wrt (\<lambda>x y. key y < key x) xs"
proof -
  obtain U where U: "ra U = root t" "holds h U" "dist U" "valid key U" "\<not> isred U" "items U = S"
    using assms(1) by (auto simp: rb_tree_def)
  let ?xs = "inorder True U"
  have s: "sorted_wrt (\<lambda>x y. key y < key x) ?xs"
    using inorder_sorted [of key U True] U(4) by (simp add: valid_def before_def)
  then have "distinct ?xs" by (rule sorted_distinct)
  then have "nsize U = card S" using inorder_items [of True U] inorder_length [of True U] U(6) distinct_card by metis
  then have d: "depth U \<le> HEIGHT_LIMIT" using depth_limit [of U] U(4,5) assms(2) by (simp add: valid_def)
  obtain p where p: "rb_start h t False v = Some p" "ahead h U True p ?xs"
    using start_goes [OF U(2,3) d U(1), of True v] by auto
  obtain q where q: "rb_start h t True v = Some q" "ahead h U False q (rev ?xs)"
    using start_goes [OF U(2,3) d U(1), of False v] inorder_rev [of True U] by auto
  have "rb_walk h t v = Some ?xs" "rb_walk_back h t v = Some (rev ?xs)"
    using p(1) walk_on_goes [OF p(2)] q(1) walk_on_goes [OF q(2)]
    by (simp_all add: rb_walk_def rb_walk_back_def jsw_rbtfirst_def jsw_rbtlast_def jsw_rbtnext_def [abs_def] jsw_rbtprev_def [abs_def])
  then show ?thesis using s U(6) by (simp add: inorder_items)
qed

end
