(* ===== verification/Rb_Erase.thy ===== *)
theory Rb_Erase
  imports Rb_Walk
begin

text \<open>
  Releasing a red-black tree and removing an item (\<open>src/rbtree.c\<close>, \<open>jsw_rbdelete\<close> and \<open>jsw_rberase\<close>, both
  written but switched off with \<open>#if 0\<close>).

  \<open>free\<close> is explicit: the list of the freed nodes. Following a freed pointer is undefined, and so is freeing
  twice. The item's release function \<open>rel\<close> is the list of the items it is called with.
\<close>

section \<open>Releasing the tree\<close>

definition live :: "'a rbheap \<Rightarrow> nat list \<Rightarrow> nat \<Rightarrow> 'a rbnode option" where
  "live h freed p = (if p \<in> set freed then None else deref h p)"

text \<open>The result: the freed nodes and the released items, in order.\<close>

partial_function (option) rbdelete_loop ::
  "'a rbheap \<Rightarrow> nat list \<Rightarrow> 'a list \<Rightarrow> nat \<Rightarrow> (nat list \<times> 'a list) option" where
  "rbdelete_loop h freed rel it =
     (if it = 0 then Some (freed, rel)
      else Option.bind (live h freed it) (\<lambda>n.
        if link0 n = 0 then
          Option.bind (ndata n) (\<lambda>x. rbdelete_loop h (freed @ [it]) (rel @ [x]) (link1 n))
        else Option.bind (live h freed (link0 n)) (\<lambda>s.
          Option.bind (upd it (set_link False (link1 s)) h) (\<lambda>h.
            Option.bind (upd (link0 n) (set_link True it) h) (\<lambda>h.
              rbdelete_loop h freed rel (link0 n))))))"

declare rbdelete_loop.simps [code]

definition jsw_rbdelete :: "'a rbheap \<Rightarrow> jsw_rbtree \<Rightarrow> (nat list \<times> 'a list) option" where
  "jsw_rbdelete h t = rbdelete_loop h [] [] (root t)"

section \<open>Removing an item\<close>

record er_vars =
  e_q :: nat
  e_p :: nat
  e_g :: nat
  e_f :: nat
  e_dir :: bool

text \<open>Move the helpers down, and remember the node with the item.\<close>

definition erase_move :: "('a \<Rightarrow> 'a \<Rightarrow> int) \<Rightarrow> 'a \<Rightarrow> er_vars \<Rightarrow> 'a rbheap \<Rightarrow> er_vars option" where
  "erase_move cmp x v h = do {
     n \<leftarrow> deref h (e_q v);
     let q = link n (e_dir v);
     m \<leftarrow> deref h q;
     y \<leftarrow> ndata m;
     Some \<lparr>e_q = q, e_p = e_q v, e_g = e_p v, e_f = (if cmp y x = 0 then q else e_f v), e_dir = (cmp y x < 0)\<rparr>
   }"

definition paint_node :: "nat \<Rightarrow> int \<Rightarrow> 'a rbheap \<Rightarrow> 'a rbheap option" where
  "paint_node p c h = upd p (\<lambda>n. n\<lparr>red := c\<rparr>) h"

text \<open>Borrow a red node from the sibling \<open>s\<close>, or flip the colours.\<close>

definition erase_borrow :: "bool \<Rightarrow> nat \<Rightarrow> er_vars \<Rightarrow> 'a rbheap \<Rightarrow> 'a rbheap option" where
  "erase_borrow lst s v h = do {
     sn \<leftarrow> deref h s;
     rn \<leftarrow> is_red h (link sn (\<not> lst));
     rl \<leftarrow> is_red h (link sn lst);
     if \<not> rn \<and> \<not> rl then do {
       h \<leftarrow> paint_node (e_p v) 0 h;
       h \<leftarrow> paint_node s 1 h;
       paint_node (e_q v) 1 h
     }
     else do {
       g \<leftarrow> deref h (e_g v);
       let dir2 = (link1 g = e_p v);
       (top, h) \<leftarrow> (if rl then jsw_double (e_p v) lst h else jsw_single (e_p v) lst h);
       h \<leftarrow> upd (e_g v) (set_link dir2 top) h;
       h \<leftarrow> paint_node top 1 h;
       h \<leftarrow> paint_node (e_q v) 1 h;
       n \<leftarrow> deref h top;
       h \<leftarrow> paint_node (link0 n) 0 h;
       paint_node (link1 n) 0 h
     }
   }"

text \<open>Push a red node down; \<open>lst\<close> is the direction in which the current node was reached.\<close>

definition erase_push :: "bool \<Rightarrow> er_vars \<Rightarrow> 'a rbheap \<Rightarrow> (er_vars \<times> 'a rbheap) option" where
  "erase_push lst v h = do {
     q \<leftarrow> deref h (e_q v);
     rq \<leftarrow> is_red h (e_q v);
     rd \<leftarrow> is_red h (link q (e_dir v));
     if \<not> rq \<and> \<not> rd then do {
       rn \<leftarrow> is_red h (link q (\<not> e_dir v));
       if rn then do {
         (s, h) \<leftarrow> jsw_single (e_q v) (e_dir v) h;
         h \<leftarrow> upd (e_p v) (set_link lst s) h;
         Some (v\<lparr>e_p := s\<rparr>, h)
       }
       else do {
         p \<leftarrow> deref h (e_p v);
         let s = link p (\<not> lst);
         if s \<noteq> 0 then do {
           h \<leftarrow> erase_borrow lst s v h;
           Some (v, h)
         }
         else Some (v, h)
       }
     }
     else Some (v, h)
   }"

partial_function (option) rberase_loop ::
  "('a \<Rightarrow> 'a \<Rightarrow> int) \<Rightarrow> 'a \<Rightarrow> er_vars \<Rightarrow> 'a rbheap \<Rightarrow> (er_vars \<times> 'a rbheap) option" where
  "rberase_loop cmp x v h =
     Option.bind (deref h (e_q v)) (\<lambda>n.
       if link n (e_dir v) \<noteq> 0 then
         Option.bind (erase_move cmp x v h) (\<lambda>v'.
           Option.bind (erase_push (e_dir v) v' h) (\<lambda>(v', h'). rberase_loop cmp x v' h'))
       else Some (v, h))"

declare rberase_loop.simps [code]

text \<open>Replace the item found by that of the last node, and unlink that node: the result are the freed node
  and the released item.\<close>

definition erase_found :: "er_vars \<Rightarrow> 'a rbheap \<Rightarrow> ((nat list \<times> 'a list) \<times> 'a rbheap) option" where
  "erase_found v h =
     (if e_f v \<noteq> 0 then do {
        f \<leftarrow> deref h (e_f v);
        x \<leftarrow> ndata f;
        q \<leftarrow> deref h (e_q v);
        h \<leftarrow> upd (e_f v) (\<lambda>n. n\<lparr>ndata := ndata q\<rparr>) h;
        p \<leftarrow> deref h (e_p v);
        q \<leftarrow> deref h (e_q v);
        h \<leftarrow> upd (e_p v) (set_link (link1 p = e_q v) (link q (link0 q = 0))) h;
        Some (([e_q v], [x]), h)
      }
      else Some (([], []), h))"

text \<open>\<open>size\<close> is a \<open>size_t\<close>.\<close>

definition jsw_rberase ::
  "('a \<Rightarrow> 'a \<Rightarrow> int) \<Rightarrow> jsw_rbtree \<Rightarrow> 'a \<Rightarrow> 'a rbheap
     \<Rightarrow> ((int \<times> jsw_rbtree) \<times> (nat list \<times> 'a list) \<times> 'a rbheap) option" where
  "jsw_rberase cmp t x h =
     (if root t \<noteq> 0 then do {
        let head = brk h;
        let h = h\<lparr>nodes := (nodes h)(head := \<lparr>red = 0, ndata = None, link0 = 0, link1 = root t\<rparr>), brk := brk h + 1\<rparr>;
        (v, h) \<leftarrow> rberase_loop cmp x \<lparr>e_q = head, e_p = 0, e_g = 0, e_f = 0, e_dir = True\<rparr> h;
        (fr, h) \<leftarrow> erase_found v h;
        n \<leftarrow> deref h head;
        let t = t\<lparr>root := link1 n\<rparr>;
        h \<leftarrow> (if root t \<noteq> 0 then paint_node (root t) 0 h else Some h);
        Some ((1, t\<lparr>tsize := (tsize t + 2 ^ 64 - 1) mod 2 ^ 64\<rparr>), fr, h)
      }
      else Some ((1, t), ([], []), h))"

section \<open>Releasing frees everything once\<close>

text \<open>The subtree in direction 0, whose size falls with every rotation.\<close>

definition left :: "'a rt \<Rightarrow> 'a rt" where
  "left T = (case T of Lf \<Rightarrow> Lf | Nd a c x f \<Rightarrow> f False)"

lemma left_two [simp]: "left (Nd a c x (two True R L)) = L"
  by (simp add: left_def two_def)

lemma two_upd_links: "(two True p q)(False := q') = two True p q'" "(two True p q)(True := p') = two True p' q"
  by (auto simp: two_def)

definition sizes :: "('a rt \<times> 'a rt) set" where
  "sizes = measures [nsize, \<lambda>T. nsize (left T)]"

lemma wf_sizes: "wf sizes"
  by (simp add: sizes_def)

lemma rbdelete_goes:
  assumes "holds h T" and "dist T" and "set freed \<inter> addrs T = {}"
  shows "\<exists>fs. rbdelete_loop h freed rel (ra T) = Some (freed @ fs, rel @ inorder True T) \<and>
     distinct fs \<and> set fs = addrs T"
  using assms
proof (induction T arbitrary: h freed rel rule: wf_induct_rule [OF wf_sizes])
  case (1 T)
  show ?case
  proof (cases T rule: rt_cases [where d = True])
    case Lf
    then show ?thesis by (subst rbdelete_loop.simps) simp
  next
    case (Nd a c x R L)
    have n: "deref h a = Some (cell c x (two True (ra R) (ra L)))" "0 < a" "a < brk h" "holds h L" "holds h R"
      "a \<notin> set freed" "dist L" "dist R" "a \<notin> addrs L" "a \<notin> addrs R" "addrs R \<inter> addrs L = {}"
      using 1(2-4) Nd by (auto simp: deref_def)
    have lnk: "link0 (cell c x (two True p q)) = q" "link1 (cell c x (two True p q)) = p" for p q
      by (simp_all add: two_def)
    show ?thesis
    proof (cases "L = Lf")
      case True
      have "rbdelete_loop h freed rel a = rbdelete_loop h (freed @ [a]) (rel @ [x]) (ra R)"
        using n True lnk by (subst rbdelete_loop.simps) (simp add: live_def)
      moreover obtain fs where "rbdelete_loop h (freed @ [a]) (rel @ [x]) (ra R) = Some ((freed @ [a]) @ fs, (rel @ [x]) @ inorder True R)"
          "distinct fs" "set fs = addrs R"
        using 1(1) [of R h "freed @ [a]" "rel @ [x]"] 1(4) n Nd by (auto simp: sizes_def)
      ultimately show ?thesis using Nd True n by (intro exI [of _ "a # fs"]) simp
    next
      case False
      then obtain b c' y R' L' where L: "L = Nd b c' y (two True R' L')" by (cases L rule: rt_cases [where d = True]) auto
      have m: "nodes h b = cell c' y (two True (ra R') (ra L'))" "0 < b" "b < brk h" "holds h R'" "holds h L'" "b \<notin> set freed" "a \<noteq> b"
        using n(4,9) 1(4) Nd L by auto
      let ?T = "Nd b c' y (two True (Nd a c x (two True R R')) L')"
      let ?h1 = "h\<lparr>nodes := (nodes h)(a := cell c x (two True (ra R) (ra R')))\<rparr>"
      let ?h2 = "?h1\<lparr>nodes := (nodes ?h1)(b := cell c' y (two True a (ra L')))\<rparr>"
      have na: "nodes h a = cell c x (two True (ra R) b)" using n(1-3) L by (simp add: deref_def)
      have u: "upd a (set_link False (ra R')) h = Some ?h1" "upd b (set_link True a) ?h1 = Some ?h2"
        using n(2,3) m na by (auto simp: upd_def two_upd_links)
      have step: "rbdelete_loop h freed rel a = rbdelete_loop ?h2 freed rel b"
      proof -
        have "live h freed a = Some (cell c x (two True (ra R) b))" "live h freed b = Some (cell c' y (two True (ra R') (ra L')))"
          using n m na by (simp_all add: live_def deref_def)
        moreover have "a \<noteq> 0" "b \<noteq> 0" using n(2) m(2) by simp_all
        ultimately show ?thesis using u lnk by (subst rbdelete_loop.simps) simp
      qed
      have "b \<notin> addrs R" "a \<notin> addrs R'" "b \<notin> addrs R'" "a \<notin> addrs L'" "b \<notin> addrs L'" using n(7-11) L by auto
      moreover have same: "holds ?h2 V" if "holds h V" "a \<notin> addrs V" "b \<notin> addrs V" for V
        by (rule holds_cong [OF that(1)]) (use that(2,3) in auto)
      ultimately have "holds ?h2 R" "holds ?h2 R'" "holds ?h2 L'" using n(5,10) m(4,5) by blast+
      then have "holds ?h2 ?T" using n(2,3) m(2,3,7) by simp
      moreover have "dist ?T" using n(7-11) L m(7) by auto
      moreover have "addrs ?T = addrs T" "inorder True ?T = inorder True T" using Nd L by auto
      moreover have "(?T, T) \<in> sizes" using Nd L by (simp add: sizes_def)
      ultimately show ?thesis using 1(1) [of ?T ?h2 freed rel] 1(4) step Nd by auto
    qed
  qed
qed

lemma finite_addrs: "finite (addrs T)"
  by (induction T rule: rt_induct [where d = True]) simp_all

lemma card_addrs: "dist T \<Longrightarrow> card (addrs T) = nsize T"
proof (induction T rule: rt_induct [where d = True])
  case (Nd a c x L R)
  then have "card (addrs L \<union> addrs R) = nsize L + nsize R"
    using card_Un_disjoint [OF finite_addrs finite_addrs, of L R] by simp
  then show ?case using Nd.prems by (simp add: finite_addrs)
qed simp

text \<open>Releasing a tree frees each of its nodes exactly once, never follows a freed pointer, and hands every
  item to the release function exactly once, in the order of the comparison.\<close>

theorem jsw_rbdelete_releases:
  assumes "rb_tree key h t S"
  shows "\<exists>fs xs. jsw_rbdelete h t = Some (fs, xs) \<and> distinct fs \<and> set xs = S \<and> length fs = length xs \<and>
     sorted_wrt (\<lambda>x y. key y < key x) xs"
proof -
  obtain U where U: "ra U = root t" "holds h U" "dist U" "valid key U" "items U = S"
    using assms by (auto simp: rb_tree_def)
  obtain fs where fs: "jsw_rbdelete h t = Some (fs, inorder True U)" "distinct fs" "set fs = addrs U"
    using rbdelete_goes [OF U(2,3), of "[]" "[]"] U(1) by (auto simp: jsw_rbdelete_def)
  have "length fs = length (inorder True U)"
    using card_addrs [OF U(3)] fs(3) distinct_card [OF fs(2)] by (simp add: inorder_length)
  then show ?thesis
    using fs U(4,5) inorder_sorted [of key U True] by (auto simp: inorder_items valid_def before_def)
qed

section \<open>Removing what is not there\<close>

text \<open>\<open>jsw_rberase\<close> always returns 1 and always counts down: for a key that is not in the tree it reports
  success, the tree is as it was, and its size is one too small.\<close>

lemma rberase_absent_example:
  "\<exists>t h fr h'. jsw_rbinsert (\<lambda>y x. y - x) jsw_rbnew (7 :: int) (heap_empty 3) = Some ((1, t), h) \<and> jsw_rbsize t = 1 \<and>
     jsw_rberase (\<lambda>y x. y - x) t 8 h = Some ((1, t\<lparr>tsize := 0\<rparr>), fr, h') \<and> fr = ([], []) \<and>
     jsw_rbfind (\<lambda>y x. y - x) h' (t\<lparr>tsize := 0\<rparr>) 7 = Some (Some 7)"
proof -
  note ev = deref_def upd_def is_red_def link_def set_link_def new_node_def heap_empty_def
  let ?n = "\<lparr>red = 0, ndata = Some (7 :: int), link0 = 0, link1 = 0\<rparr>"
  let ?t = "\<lparr>root = 1, tsize = 1\<rparr>"
  let ?h = "\<lparr>nodes = (nodes (heap_empty 3))(1 := ?n), brk = 2, room = 2\<rparr>"
  have 1: "jsw_rbinsert (\<lambda>y x. y - x) jsw_rbnew (7 :: int) (heap_empty 3) = Some ((1, ?t), ?h)"
    by (simp add: jsw_rbinsert_def jsw_rbnew_def ev Let_def)
  let ?hd = "\<lparr>red = 0, ndata = None, link0 = 0, link1 = Suc 0\<rparr>"
  let ?h1 = "?h\<lparr>nodes := (nodes ?h)(2 := ?hd), brk := 3\<rparr>"
  let ?v1 = "\<lparr>e_q = Suc 0, e_p = 2, e_g = 0, e_f = 0, e_dir = True\<rparr>"
  have "erase_move (\<lambda>y x. y - x) 8 \<lparr>e_q = 2, e_p = 0, e_g = 0, e_f = 0, e_dir = True\<rparr> ?h1 = Some ?v1"
    by (simp add: erase_move_def ev)
  moreover have "erase_push True ?v1 ?h1 = Some (?v1, ?h1)"
    by (simp add: erase_push_def ev)
  moreover have "rberase_loop (\<lambda>y x. y - x) 8 ?v1 ?h1 = Some (?v1, ?h1)"
    by (subst rberase_loop.simps) (simp add: ev)
  ultimately have "rberase_loop (\<lambda>y x. y - x) 8 \<lparr>e_q = 2, e_p = 0, e_g = 0, e_f = 0, e_dir = True\<rparr> ?h1 = Some (?v1, ?h1)"
    by (subst rberase_loop.simps) (simp add: ev)
  then have 2: "jsw_rberase (\<lambda>y x. y - x) ?t 8 ?h = Some ((1, ?t\<lparr>tsize := 0\<rparr>), ([], []), ?h1)"
    by (simp add: jsw_rberase_def erase_found_def paint_node_def ev Let_def)
       (simp add: fun_eq_iff)
  have "jsw_rbfind (\<lambda>y x. y - x) ?h1 (?t\<lparr>tsize := 0\<rparr>) 7 = Some (Some 7)"
    unfolding jsw_rbfind_def by (subst rbfind_loop.simps) (simp add: ev)
  then show ?thesis using 1 2 by (auto simp: jsw_rbsize_def)
qed

end
