(* ===== verification/Rb_Remove.thy ===== *)
theory Rb_Remove
  imports Rb_Erase
begin

text \<open>
  Correctness of \<open>jsw_rberase\<close> (\<open>src/rbtree.c\<close>): the loop pushes a red node down to the place where a node is
  taken out, so that taking it out leaves a red-black tree.
\<close>

section \<open>The parts of an iteration on the heap\<close>

text \<open>The direction in which the current node lies below the one above; the false root has it in direction 1.\<close>

fun edir :: "'a frame list \<Rightarrow> bool" where
  "edir [] = True"
| "edir ((a, c, x, d, s) # fs) = d"

lemma top_link:
  assumes "zholds h b fs T"
  shows "\<exists>n. deref h (top_addr b fs) = Some n \<and> link n (edir fs) = ra T \<and> (T \<noteq> Lf \<longrightarrow> (link1 n = ra T) = edir fs)"
proof (cases fs)
  case Nil
  then show ?thesis using assms by (auto simp: zholds_def deref_def)
next
  case (Cons f fs')
  obtain a c x d s where f: "f = (a, c, x, d, s)" by (cases f)
  have n: "deref h a = Some (cell c x (two d (ra T) (ra s)))" "holds h T" "holds h s" "addrs T \<inter> addrs s = {}"
    using assms Cons f by (auto simp: zholds_def zdist_def deref_def)
  have "ra s \<noteq> ra T" if "T \<noteq> Lf"
    using n ra_in [of T] ra_in [of s] that ra_zero [OF n(2)] by (cases "s = Lf") auto
  then show ?thesis using n(1) Cons f by (cases d) (auto simp: two_def)
qed

lemma zholds_node:
  assumes "zholds h b fs (Nd a c y (two d L R))"
  shows "deref h a = Some (cell c y (two d (ra L) (ra R)))" "a \<noteq> 0" "is_red h a = Some c"
    "is_red h (ra L) = Some (isred L)" "is_red h (ra R) = Some (isred R)" "ra L = 0 \<longleftrightarrow> L = Lf" "ra R = 0 \<longleftrightarrow> R = Lf"
  using assms is_red_holds [of h L] is_red_holds [of h R] ra_zero [of h L] ra_zero [of h R]
  by (auto simp: zholds_def deref_def is_red_def)

lemma zholds_other: "zholds h b ((a, c, x, d, s) # fs) T \<longleftrightarrow> zholds h b ((a, c, x, \<not> d, T) # fs) s"
  by (simp add: zholds_step two_flip)

definition same_room :: "'a rbheap \<Rightarrow> 'a rbheap \<Rightarrow> bool" where
  "same_room h h' \<longleftrightarrow> brk h' = brk h \<and> room h' = room h"

lemma same_room_trans: "same_room h h' \<Longrightarrow> same_room h' h'' \<Longrightarrow> same_room h h''"
  by (simp add: same_room_def)

lemma outside_room: "outside S h h' \<Longrightarrow> same_room h h'"
  by (simp add: outside_def same_room_def)

lemma zpaint:
  assumes "zholds h b fs T" and "T \<noteq> Lf"
  shows "\<exists>h'. paint_node (ra T) (if c then 1 else 0) h = Some h' \<and> zholds h' b fs (paint c T) \<and> same_room h h'"
proof -
  have z: "fholds h b fs (ra T)" "holds h T" "dist T" "zdist b fs T" using assms(1) by (auto simp: zholds_def zdist_def)
  obtain h' where h': "upd (ra T) (\<lambda>n. n\<lparr>red := if c then 1 else 0\<rparr>) h = Some h'" "holds h' (paint c T)" "outside {ra T} h h'"
    using paint_heap [OF z(2) assms(2) z(3)] by blast
  have "fholds h' b fs (ra T)"
    by (rule fholds_outside [OF z(1) h'(3)]) (use z(4) ra_in [OF assms(2)] in \<open>auto simp: zdist_def\<close>)
  then show ?thesis using h' z(4) outside_room [OF h'(3)] by (auto simp: paint_node_def zholds_def zdist_def)
qed

text \<open>A rotation, with the link of the node above.\<close>

lemma zrelink:
  assumes "zholds h b fs T" and "T \<noteq> Lf" and "holds h1 T'" and "outside S h h1" and "S \<subseteq> addrs T"
    and "addrs T' = addrs T" and "dist T'"
  shows "\<exists>h2. upd (top_addr b fs) (set_link (edir fs) (ra T')) h1 = Some h2 \<and> zholds h2 b fs T' \<and> same_room h h2"
proof -
  have z: "fholds h b fs (ra T)" "holds h T" "zdist b fs T" using assms(1) by (auto simp: zholds_def)
  have f: "fdist b fs" "addrs T \<inter> faddrs b fs = {}" using z(3) by (auto simp: zdist_def)
  have "fholds h1 b fs (ra T)" by (rule fholds_outside [OF z(1) assms(4)]) (use assms(5) f(2) in auto)
  moreover have "ra T \<noteq> 0" "ra T \<notin> faddrs b fs" using ra_zero [OF z(2)] ra_in [OF assms(2)] assms(2) f(2) by auto
  ultimately obtain n h2 where h2: "deref h1 (top_addr b fs) = Some n" "upd (top_addr b fs) (set_link (link1 n = ra T) (ra T')) h1 = Some h2"
      "fholds h2 b fs (ra T')" "outside {top_addr b fs} h1 h2"
    using relink [of h1 b fs "ra T" "ra T'"] f(1) by blast
  obtain m where m: "deref h (top_addr b fs) = Some m" "(link1 m = ra T) = edir fs" using top_link [OF assms(1)] assms(2) by blast
  have "top_addr b fs \<notin> S" using f(2) assms(5) top_addr_faddrs [of b fs] by auto
  then have "n = m" using h2(1) m(1) assms(4) by (auto simp: deref_def outside_def split: if_splits)
  moreover have "holds h2 T'"
    by (rule holds_outside [OF assms(3) h2(4)]) (use f(2) assms(6) top_addr_faddrs [of b fs] in auto)
  moreover have "zdist b fs T'" using f assms(6,7) by (simp add: zdist_def)
  moreover have "same_room h h2" using same_room_trans [OF outside_room [OF assms(4)] outside_room [OF h2(4)]] .
  ultimately show ?thesis using h2 m by (simp add: zholds_def)
qed

lemma zsingle:
  assumes "zholds h b fs (Nd g cg xg (two e (Nd p cp xp (two e Q C)) B))"
  shows "\<exists>h1 h2. jsw_single g (\<not> e) h = Some (p, h1) \<and> upd (top_addr b fs) (set_link (edir fs) p) h1 = Some h2 \<and>
     zholds h2 b fs (Nd p False xp (two e Q (Nd g True xg (two e C B)))) \<and> same_room h h2"
proof -
  let ?G = "Nd g cg xg (two e (Nd p cp xp (two e Q C)) B)"
  let ?G' = "Nd p False xp (two e Q (Nd g True xg (two e C B)))"
  have h: "holds h ?G" "dist ?G" using assms by (simp_all add: zholds_def zdist_def)
  obtain h1 where h1: "jsw_single g (\<not> e) h = Some (p, h1)" "holds h1 ?G'" "outside {g, p} h h1"
    using single_heap [OF h] by blast
  have "addrs ?G' = addrs ?G" "dist ?G'" using h(2) by auto
  then show ?thesis using zrelink [OF assms _ h1(2,3)] h1(1) by auto
qed

lemma zdouble:
  assumes "zholds h b fs (Nd g cg xg (two e (Nd p cp xp (two (\<not> e) (Nd q cq xq (two (\<not> e) Q1 Q2)) C)) B))"
  shows "\<exists>h1 h2. jsw_double g (\<not> e) h = Some (q, h1) \<and> upd (top_addr b fs) (set_link (edir fs) q) h1 = Some h2 \<and>
     zholds h2 b fs (Nd q False xq (two e (Nd p True xp (two (\<not> e) Q2 C)) (Nd g True xg (two e Q1 B)))) \<and> same_room h h2"
proof -
  let ?G = "Nd g cg xg (two e (Nd p cp xp (two (\<not> e) (Nd q cq xq (two (\<not> e) Q1 Q2)) C)) B)"
  let ?G' = "Nd q False xq (two e (Nd p True xp (two (\<not> e) Q2 C)) (Nd g True xg (two e Q1 B)))"
  have h: "holds h ?G" "dist ?G" using assms by (simp_all add: zholds_def zdist_def)
  obtain h1 where h1: "jsw_double g (\<not> e) h = Some (q, h1)" "holds h1 ?G'" "outside {g, p, q} h h1"
    using double_heap [OF h] by blast
  have "addrs ?G' = addrs ?G" "dist ?G'" using h(2) by auto
  then show ?thesis using zrelink [OF assms _ h1(2,3)] h1(1) by auto
qed

section \<open>What an iteration makes of the tree\<close>

text \<open>The path follows the comparison with \<open>x\<close>, also below an item with the same key; \<open>found\<close> is the node with it.\<close>

fun towards :: "('a \<Rightarrow> 'k::linorder) \<Rightarrow> 'a \<Rightarrow> 'a frame list \<Rightarrow> bool" where
  "towards k x [] = True"
| "towards k x ((a, c, y, d, s) # fs) = (d = (k x < k y) \<and> towards k x fs)"

fun found :: "('a \<Rightarrow> 'k) \<Rightarrow> 'a \<Rightarrow> 'a frame list \<Rightarrow> nat" where
  "found k x [] = 0"
| "found k x ((a, c, y, d, s) # fs) = (if k y = k x then a else found k x fs)"

lemma beside: "before d (k y) (k z) \<Longrightarrow> d = (k x < k y) \<Longrightarrow> k z \<noteq> k x \<and> (k x < k z) = d"
  by (auto simp: before_def split: if_splits)

text \<open>The current node is red, or is followed by a red one, or has been left as it is at the root.\<close>

definition pushed :: "'a frame list \<Rightarrow> 'a rt \<Rightarrow> bool" where
  "pushed fs T \<longleftrightarrow> fs = [] \<or> pred fs \<or> isred T \<or> (\<exists>a c y d s. fs = [(a, c, y, d, s)] \<and> \<not> isred s)"

lemma before_beyond: "before d (k a) (k b) \<Longrightarrow> \<forall>y \<in> S. before d (k b) (k y) \<Longrightarrow> \<forall>y \<in> S. before d (k a) (k y)"
  by (blast intro: before_trans)

lemma before_below: "before d (k b) (k a) \<Longrightarrow> \<forall>y \<in> S. before d (k y) (k b) \<Longrightarrow> \<forall>y \<in> S. before d (k y) (k a)"
  by (blast intro: before_trans)

lemma turn_valid:
  assumes "valid k (plug fs (Nd a False y (two d L (Nd r True z (two d R1 R2)))))" and "\<not> isred L"
  shows "valid k (plug ((a, True, y, d, R1) # (r, False, z, d, R2) # fs) L)"
proof -
  have o: "before d (k y) (k z)" "\<forall>w \<in> items L. before d (k w) (k y)" using assms(1) by (auto simp: valid_plug)
  show ?thesis using assms before_below [OF o] o(1) by (auto simp: valid_plug bh_two)
qed

lemma flip_valid:
  assumes "valid k (plug ((a, False, y, d, R) # (p, c, z, e, Nd s False w (two e S1 S2)) # fs) L)"
    and "\<not> isred L" "\<not> isred R" "\<not> isred S1" "\<not> isred S2" and "c \<or> fs = []"
  shows "valid k (plug ((a, True, y, d, R) # (p, False, z, e, Nd s True w (two e S1 S2)) # fs) L)"
proof -
  have "finvc fs False" if "finvc fs c" using that assms(6) by (cases fs) auto
  then show ?thesis using assms by (auto simp: valid_plug bh_two)
qed

lemma borrow_double_valid:
  assumes "valid k (plug ((a, False, y, d, R) # (p, c, z, e, Nd s False w (two e (Nd r True v (two e R1 R2)) S2)) # fs) L)"
    and "\<not> isred L" "\<not> isred R" and "c \<or> fs = []"
  shows "valid k (plug ((a, True, y, d, R) # (p, False, z, e, R1) # (r, True, v, e, Nd s False w (two e R2 S2)) # fs) L)"
proof -
  have o: "before e (k z) (k v)" "before e (k v) (k w)" "before e (k y) (k z)" "\<forall>u \<in> items L. before e (k u) (k z)"
    "\<forall>u \<in> items R. before e (k u) (k z)" "\<forall>u \<in> items S2. before e (k w) (k u)"
    using assms(1) by (auto simp: valid_plug)
  show ?thesis
    using assms o before_below [OF o(1,4)] before_below [OF o(1,5)] before_beyond [OF o(2,6)] before_trans [OF o(3,1)]
    by (auto simp: valid_plug bh_two)
qed

lemma borrow_single_valid:
  assumes "valid k (plug ((a, False, y, d, R) # (p, c, z, e, Nd s False w (two e S1 S2)) # fs) L)"
    and "\<not> isred L" "\<not> isred R" "\<not> isred S1" "isred S2" and "c \<or> fs = []"
  shows "valid k (plug ((a, True, y, d, R) # (p, False, z, e, S1) # (s, True, w, e, paint False S2) # fs) L)"
proof -
  have o: "before e (k z) (k w)" "before e (k y) (k z)" "\<forall>u \<in> items L. before e (k u) (k z)" "\<forall>u \<in> items R. before e (k u) (k z)"
    using assms(1) by (auto simp: valid_plug)
  show ?thesis
    using assms o before_below [OF o(1,3)] before_below [OF o(1,4)] before_trans [OF o(2,1)]
    by (auto simp: valid_plug bh_two bh_paint_black invc_paint)
qed

section \<open>Borrowing from the sibling\<close>

lemma paint_node_black: "paint_node a 0 h = paint_node a (if False then 1 else 0) h"
  and paint_node_red: "paint_node a 1 h = paint_node a (if True then 1 else 0) h"
  by simp_all

lemma paint_children:
  assumes "zholds h b fs (Nd r c v (two e A B))" and "A \<noteq> Lf" and "B \<noteq> Lf"
  shows "\<exists>n h1 h2. deref h r = Some n \<and> paint_node (link0 n) 0 h = Some h1 \<and> paint_node (link1 n) 0 h1 = Some h2 \<and>
     zholds h2 b fs (Nd r c v (two e (paint False A) (paint False B))) \<and> same_room h h2"
proof -
  have ch: "\<exists>n h1 h2. deref h r = Some n \<and> paint_node (link0 n) 0 h = Some h1 \<and> paint_node (link1 n) 0 h1 = Some h2 \<and>
     zholds h2 b fs (Nd r c v (two False (paint False A) (paint False B))) \<and> same_room h h2"
    if z: "zholds h b fs (Nd r c v (two False A B))" and n: "A \<noteq> Lf" "B \<noteq> Lf" for A B
  proof -
    have d: "deref h r = Some (cell c v (two False (ra A) (ra B)))" by (rule zholds_node(1) [OF z])
    obtain h1 where h1: "paint_node (ra A) 0 h = Some h1" "zholds h1 b ((r, c, v, False, B) # fs) (paint False A)" "same_room h h1"
      using zpaint [of h b "(r, c, v, False, B) # fs" A False] z n(1) by (auto simp: zholds_step)
    obtain h2 where h2: "paint_node (ra B) 0 h1 = Some h2" "zholds h2 b ((r, c, v, \<not> False, paint False A) # fs) (paint False B)"
        "same_room h1 h2"
      using zpaint [of h1 b "(r, c, v, \<not> False, paint False A) # fs" B False] h1(2) n(2) zholds_other [of h1 b r c v False B]
      by auto
    have "zholds h2 b fs (Nd r c v (two False (paint False A) (paint False B)))"
      using h2(2) two_flip [of False "paint False B" "paint False A"] by (simp add: zholds_step)
    then show ?thesis using d h1(1,3) h2(1,3) same_room_trans by (auto simp: two_def)
  qed
  show ?thesis
  proof (cases e)
    case False
    then show ?thesis using ch [of A B] assms by simp
  next
    case True
    then have "two e A B = two False B A" "two e (paint False A) (paint False B) = two False (paint False B) (paint False A)"
      by (auto simp: two_def)
    then show ?thesis using ch [of B A] assms by metis
  qed
qed

text \<open>The colours after a rotation at \<open>p\<close>.\<close>

lemma recolour:
  assumes "zholds h b fs (Nd t c v (two e (Nd p cp z (two e (Nd a ca y (two d L R)) X)) B))" and "B \<noteq> Lf"
  shows "\<exists>h1 h2 n h3 h'. paint_node t 1 h = Some h1 \<and> paint_node a 1 h1 = Some h2 \<and> deref h2 t = Some n \<and>
     paint_node (link0 n) 0 h2 = Some h3 \<and> paint_node (link1 n) 0 h3 = Some h' \<and> same_room h h' \<and>
     zholds h' b ((a, True, y, d, R) # (p, False, z, e, X) # (t, True, v, e, paint False B) # fs) L"
proof -
  let ?Q = "Nd a True y (two d L R)"
  obtain h1 where h1: "paint_node t 1 h = Some h1" "same_room h h1"
      "zholds h1 b fs (Nd t True v (two e (Nd p cp z (two e (Nd a ca y (two d L R)) X)) B))"
    using zpaint [OF assms(1), of True] by auto
  then obtain h2 where h2: "paint_node a 1 h1 = Some h2" "same_room h1 h2" "zholds h2 b ((p, cp, z, e, X) # (t, True, v, e, B) # fs) ?Q"
    using zpaint [of h1 b "(p, cp, z, e, X) # (t, True, v, e, B) # fs" "Nd a ca y (two d L R)" True]
    by (auto simp: zholds_step)
  then have "zholds h2 b fs (Nd t True v (two e (Nd p cp z (two e ?Q X)) B))" by (simp add: zholds_step)
  from paint_children [OF this _ assms(2)] obtain n h3 h' where h3: "deref h2 t = Some n" "paint_node (link0 n) 0 h2 = Some h3"
     "paint_node (link1 n) 0 h3 = Some h'" "zholds h' b fs (Nd t True v (two e (Nd p False z (two e ?Q X)) (paint False B)))"
     "same_room h2 h'"
    by auto
  have "same_room h h'" using h1(2) h2(2) h3(5) same_room_trans by blast
  then show ?thesis using h1 h2 h3 by (simp add: zholds_step)
qed

text \<open>The colour flip.\<close>

lemma push_flip:
  assumes "zholds h b ((a, ca, y, d, R) # (p, c, z, e, S) # fs) L" and "S = Nd s cs w f"
  shows "\<exists>h1 h2 h'. paint_node p 0 h = Some h1 \<and> paint_node s 1 h1 = Some h2 \<and> paint_node a 1 h2 = Some h' \<and> same_room h h' \<and>
     zholds h' b ((a, True, y, d, R) # (p, False, z, e, Nd s True w f) # fs) L"
proof -
  let ?Q = "Nd a ca y (two d L R)"
  obtain h1 where h1: "paint_node p 0 h = Some h1" "same_room h h1" "zholds h1 b ((p, False, z, e, S) # fs) ?Q"
    using assms(1) zpaint [of h b fs "Nd p c z (two e ?Q S)" False] by (auto simp: zholds_step)
  have "zholds h1 b ((p, False, z, \<not> e, ?Q) # fs) S" using iffD1 [OF zholds_other h1(3)] .
  then obtain h2 where "paint_node (ra S) (if True then 1 else 0) h1 = Some h2" "zholds h2 b ((p, False, z, \<not> e, ?Q) # fs) (paint True S)"
    and r2: "same_room h1 h2"
    using zpaint [of h1 b _ S True] assms(2) by blast
  then have h2: "paint_node s 1 h1 = Some h2" "zholds h2 b ((p, False, z, \<not> e, ?Q) # fs) (Nd s True w f)"
    unfolding assms(2) by (simp_all only: ra.simps paint.simps if_True)
  have "zholds h2 b ((p, False, z, e, Nd s True w f) # fs) ?Q" using iffD1 [OF zholds_other h2(2)] by simp
  then obtain h' where h': "paint_node a 1 h2 = Some h'" "same_room h2 h'"
      "zholds h' b ((p, False, z, e, Nd s True w f) # fs) (Nd a True y (two d L R))"
    using zpaint [of h2 b "(p, False, z, e, Nd s True w f) # fs" ?Q True] by auto
  have "same_room h h'" using h1(2) r2 h'(2) same_room_trans by blast
  then show ?thesis using h1(1) h2(1) h'(1,3) by (simp add: zholds_step)
qed

text \<open>With a black sibling that has a red child: the rotation, the link above and the colours. What both rotations
  need of the heap:\<close>

lemma borrow_heap:
  assumes z: "zholds h b ((a, False, y, d, R) # (p, c, z, e, S) # fs) L" and S: "S = Nd s False w (two e S1 S2)"
  shows "zholds h b fs (Nd p c z (two (\<not> e) S (Nd a False y (two d L R))))"
    "\<exists>g. deref h (top_addr b fs) = Some g \<and> (link1 g = p) = edir fs"
    "deref h s = Some (cell False w (two e (ra S1) (ra S2)))" "s \<noteq> 0"
    "is_red h (ra S1) = Some (isred S1)" "is_red h (ra S2) = Some (isred S2)"
proof -
  let ?Q = "Nd a False y (two d L R)"
  have zG: "zholds h b fs (Nd p c z (two e ?Q S))" using z by (simp add: zholds_step)
  then show "zholds h b fs (Nd p c z (two (\<not> e) S ?Q))" by (simp add: two_flip)
  show "\<exists>g. deref h (top_addr b fs) = Some g \<and> (link1 g = p) = edir fs" using top_link [OF zG] by auto
  have "zholds h b ((p, c, z, \<not> e, ?Q) # fs) (Nd s False w (two e S1 S2))"
    using z S zholds_other [of h b p c z e S fs ?Q] by (simp add: zholds_step)
  note sn = zholds_node [OF this]
  show "deref h s = Some (cell False w (two e (ra S1) (ra S2)))" "s \<noteq> 0"
    "is_red h (ra S1) = Some (isred S1)" "is_red h (ra S2) = Some (isred S2)" using sn by simp_all
qed

definition borrowed ::
  "('a \<Rightarrow> 'k::linorder) \<Rightarrow> nat \<Rightarrow> 'a rt \<Rightarrow> 'a \<Rightarrow> 'a frame list \<Rightarrow> 'a rt \<Rightarrow> 'a set \<Rightarrow> 'a rbheap \<Rightarrow> 'a rbheap option \<Rightarrow> bool" where
  "borrowed k b S u fs L I h r \<longleftrightarrow> (\<exists>h'. r = Some h' \<and> same_room h h' \<and> zholds h' b fs L \<and> valid k (plug fs L) \<and>
     u \<in> items S \<and> items (plug fs L) = I)"

lemma borrow_double:
  assumes z: "zholds h b ((a, False, y, d, R) # (p, c, z, e, S) # fs) L"
    and S: "S = Nd s False w (two e (Nd r True u (two e R1 R2)) S2)"
    and v: "valid k (plug ((a, False, y, d, R) # (p, c, z, e, S) # fs) L)" "\<not> isred L" "\<not> isred R" "c \<or> fs = []"
    and ev: "e_q v = a" "e_p v = p" "e_g v = top_addr b fs"
  shows "borrowed k b S u ((a, True, y, d, R) # (p, False, z, e, R1) # (r, True, u, e, Nd s False w (two e R2 S2)) # fs) L
    (items (plug ((a, False, y, d, R) # (p, c, z, e, S) # fs) L)) h (erase_borrow e s v h)"
proof -
  let ?Q = "Nd a False y (two d L R)"
  note bh = borrow_heap [OF z S]
  obtain g where g: "deref h (top_addr b fs) = Some g" "(link1 g = p) = edir fs" using bh(2) by blast
  have "zholds h b fs (Nd p c z (two (\<not> e) (Nd s False w (two (\<not> \<not> e) (Nd r True u (two (\<not> \<not> e) R1 R2)) S2)) ?Q))"
    using bh(1) S by simp
  from zdouble [OF this] obtain h1 h2 where h2: "jsw_double p e h = Some (r, h1)" "upd (top_addr b fs) (set_link (edir fs) r) h1 = Some h2"
     "zholds h2 b fs (Nd r False u (two e (Nd p True z (two e ?Q R1)) (Nd s True w (two e R2 S2))))" "same_room h h2"
    by (auto simp: two_flip)
  obtain h3 h4 n h5 h' where h': "paint_node r 1 h2 = Some h3" "paint_node a 1 h3 = Some h4" "deref h4 r = Some n"
     "paint_node (link0 n) 0 h4 = Some h5" "paint_node (link1 n) 0 h5 = Some h'" "same_room h2 h'"
     "zholds h' b ((a, True, y, d, R) # (p, False, z, e, R1) # (r, True, u, e, Nd s False w (two e R2 S2)) # fs) L"
    using recolour [OF h2(3)] by auto
  have "erase_borrow e s v h = Some h'"
    using bh(3-6) g h2(1,2) h'(1-5) ev by (simp add: erase_borrow_def)
  moreover have "items (plug ((a, True, y, d, R) # (p, False, z, e, R1) # (r, True, u, e, Nd s False w (two e R2 S2)) # fs) L) =
      items (plug ((a, False, y, d, R) # (p, c, z, e, S) # fs) L)" unfolding S by (auto simp: items_plug)
  moreover note h'(7) borrow_double_valid [OF v(1) [unfolded S] v(2-4)] same_room_trans [OF h2(4) h'(6)]
  ultimately show ?thesis unfolding borrowed_def by (simp add: S)
qed

lemma borrow_single:
  assumes z: "zholds h b ((a, False, y, d, R) # (p, c, z, e, S) # fs) L" and S: "S = Nd s False w (two e S1 S2)"
    and v: "valid k (plug ((a, False, y, d, R) # (p, c, z, e, S) # fs) L)" "\<not> isred L" "\<not> isred R" "c \<or> fs = []"
    and ev: "e_q v = a" "e_p v = p" "e_g v = top_addr b fs" and red: "\<not> isred S1" "isred S2"
  shows "borrowed k b S w ((a, True, y, d, R) # (p, False, z, e, S1) # (s, True, w, e, paint False S2) # fs) L
    (items (plug ((a, False, y, d, R) # (p, c, z, e, S) # fs) L)) h (erase_borrow e s v h)"
proof -
  let ?Q = "Nd a False y (two d L R)"
  note bh = borrow_heap [OF z S]
  obtain g where g: "deref h (top_addr b fs) = Some g" "(link1 g = p) = edir fs" using bh(2) by blast
  have ne: "S2 \<noteq> Lf" using red(2) by auto
  have "zholds h b fs (Nd p c z (two (\<not> e) (Nd s False w (two (\<not> e) S2 S1)) ?Q))"
    using bh(1) S by (simp add: two_flip)
  from zsingle [OF this] obtain h1 h2 where h2: "jsw_single p e h = Some (s, h1)" "upd (top_addr b fs) (set_link (edir fs) s) h1 = Some h2"
     "zholds h2 b fs (Nd s False w (two e (Nd p True z (two e ?Q S1)) S2))" "same_room h h2"
    by (auto simp: two_flip)
  obtain h3 h4 n h5 h' where h': "paint_node s 1 h2 = Some h3" "paint_node a 1 h3 = Some h4" "deref h4 s = Some n"
     "paint_node (link0 n) 0 h4 = Some h5" "paint_node (link1 n) 0 h5 = Some h'" "same_room h2 h'"
     "zholds h' b ((a, True, y, d, R) # (p, False, z, e, S1) # (s, True, w, e, paint False S2) # fs) L"
    using recolour [OF h2(3) ne] by auto
  have "erase_borrow e s v h = Some h'"
    using bh(3-6) g h2(1,2) h'(1-5) ev red by (simp add: erase_borrow_def)
  moreover have "items (plug ((a, True, y, d, R) # (p, False, z, e, S1) # (s, True, w, e, paint False S2) # fs) L) =
      items (plug ((a, False, y, d, R) # (p, c, z, e, S) # fs) L)" unfolding S by (auto simp: items_plug)
  moreover note h'(7) borrow_single_valid [OF v(1) [unfolded S] v(2,3) red v(4)] same_room_trans [OF h2(4) h'(6)]
  ultimately show ?thesis unfolding borrowed_def by (simp add: S)
qed

lemma push_borrow:
  assumes "zholds h b ((a, False, y, d, R) # (p, c, z, e, S) # fs) L" and S: "S = Nd s False w (two e S1 S2)"
    and "valid k (plug ((a, False, y, d, R) # (p, c, z, e, S) # fs) L)" "\<not> isred L" "\<not> isred R" "c \<or> fs = []"
    and "e_q v = a" "e_p v = p" "e_g v = top_addr b fs" and red: "isred S1 \<or> isred S2"
  shows "\<exists>X r u s'. borrowed k b S u ((a, True, y, d, R) # (p, False, z, e, X) # (r, True, u, e, s') # fs) L
    (items (plug ((a, False, y, d, R) # (p, c, z, e, S) # fs) L)) h (erase_borrow e s v h)"
proof (cases "isred S1")
  case True
  then obtain r u R1 R2 where "S1 = Nd r True u (two e R1 R2)" by (cases S1 rule: rt_cases [where d = e]) auto
  then show ?thesis using borrow_double [OF assms(1) _ assms(3-9)] S by blast
next
  case False
  then show ?thesis using borrow_single [OF assms(1-9)] red by blast
qed

text \<open>Without one: the colour flip.\<close>

lemma push_no_borrow:
  assumes z: "zholds h b ((a, False, y, d, R) # (p, c, z, e, S) # fs) L" and S: "S = Nd s False w (two e S1 S2)"
    and v: "valid k (plug ((a, False, y, d, R) # (p, c, z, e, S) # fs) L)" "\<not> isred L" "\<not> isred R" "c \<or> fs = []"
    and ev: "e_q v = a" "e_p v = p" and black: "\<not> isred S1" "\<not> isred S2"
  shows "\<exists>h' X. erase_borrow e s v h = Some h' \<and> same_room h h' \<and>
     zholds h' b ((a, True, y, d, R) # (p, False, z, e, X) # fs) L \<and>
     valid k (plug ((a, True, y, d, R) # (p, False, z, e, X) # fs) L) \<and>
     items (plug ((a, True, y, d, R) # (p, False, z, e, X) # fs) L) = items (plug ((a, False, y, d, R) # (p, c, z, e, S) # fs) L)"
proof -
  let ?Q = "Nd a False y (two d L R)"
  have "zholds h b ((p, c, z, \<not> e, ?Q) # fs) (Nd s False w (two e S1 S2))"
    using z S zholds_other [of h b p c z e S fs ?Q] by (simp add: zholds_step)
  note sn = zholds_node [OF this]
  obtain h1 h2 h' where h': "paint_node p 0 h = Some h1" "paint_node s 1 h1 = Some h2" "paint_node a 1 h2 = Some h'" "same_room h h'"
     "zholds h' b ((a, True, y, d, R) # (p, False, z, e, Nd s True w (two e S1 S2)) # fs) L"
    using push_flip [OF z S] by blast
  have "erase_borrow e s v h = Some h'" using sn h'(1-3) ev black by (simp add: erase_borrow_def)
  moreover note h'(4,5) flip_valid [OF v(1) [unfolded S] v(2,3) black v(4)]
  moreover have "items (plug ((a, True, y, d, R) # (p, False, z, e, Nd s True w (two e S1 S2)) # fs) L) =
      items (plug ((a, False, y, d, R) # (p, c, z, e, S) # fs) L)" unfolding S by (auto simp: items_plug)
  ultimately show ?thesis by blast
qed

section \<open>One iteration\<close>

definition erase_inv ::
  "('a \<Rightarrow> 'k::linorder) \<Rightarrow> 'a \<Rightarrow> er_vars \<Rightarrow> 'a rbheap \<Rightarrow> nat \<Rightarrow> 'a frame list \<Rightarrow> 'a rt \<Rightarrow> bool" where
  "erase_inv k x v h b fs T \<longleftrightarrow> zholds h b fs T \<and> valid k (plug fs T) \<and> towards k x fs \<and> pushed fs T \<and>
     e_q v = top_addr b fs \<and> (fs \<noteq> [] \<longrightarrow> e_p v = top_addr b (tl fs)) \<and> e_dir v = edir fs \<and> e_f v = found k x fs"

text \<open>What an iteration must achieve: the focus moves to \<open>L\<close>.\<close>

definition erase_next ::
  "('a \<Rightarrow> 'k::linorder) \<Rightarrow> 'a \<Rightarrow> nat \<Rightarrow> 'a rt \<Rightarrow> 'a set \<Rightarrow> 'a rbheap \<Rightarrow> (er_vars \<times> 'a rbheap) option \<Rightarrow> bool" where
  "erase_next k x b L I h r \<longleftrightarrow> (\<exists>v' h' fs'. r = Some (v', h') \<and> erase_inv k x v' h' b fs' L \<and> fs' \<noteq> [] \<and>
     items (plug fs' L) = I \<and> same_room h h')"

lemma erase_nextI:
  "r = Some (v', h') \<Longrightarrow> erase_inv k x v' h' b fs' L \<Longrightarrow> fs' \<noteq> [] \<Longrightarrow> items (plug fs' L) = I \<Longrightarrow> same_room h h' \<Longrightarrow>
     erase_next k x b L I h r"
  unfolding erase_next_def by blast

text \<open>Red nodes are pushed: what is left to show for them.\<close>

lemma erase_next_red:
  assumes "r = Some (v', h')" and "zholds h' b ((a, True, y, d, R) # fs) L" and "valid k (plug ((a, True, y, d, R) # fs) L)"
    and "towards k x ((a, True, y, d, R) # fs)" and "e_f v' = found k x ((a, True, y, d, R) # fs)"
    and "e_q v' = a" "e_p v' = top_addr b fs" "e_dir v' = d"
    and "items (plug ((a, True, y, d, R) # fs) L) = I" "same_room h h'"
  shows "erase_next k x b L I h r"
proof -
  have "pushed ((a, True, y, d, R) # fs) L" by (simp add: pushed_def pred_def)
  then have "erase_inv k x v' h' b ((a, True, y, d, R) # fs) L" using assms(2-8) by (simp only: erase_inv_def) simp
  then show ?thesis using assms(9,10) 
    by (intro erase_nextI [where fs' = "(a, True, y, d, R) # fs", OF assms(1)]) simp_all
qed

context rb_key
begin

text \<open>The move.\<close>

lemma erase_move_goes:
  assumes "erase_inv key x v h b fs T" and "T = Nd a c y (two (key x < key y) L R)"
  shows "erase_move cmp x v h = Some \<lparr>e_q = a, e_p = top_addr b fs, e_g = e_p v,
     e_f = found key x ((a, c, y, key x < key y, R) # fs), e_dir = key x < key y\<rparr>"
proof -
  have z: "zholds h b fs T" "e_q v = top_addr b fs" "e_dir v = edir fs" "e_f v = found key x fs"
    using assms(1) by (simp_all add: erase_inv_def)
  obtain n where "deref h (top_addr b fs) = Some n" "link n (edir fs) = ra T" using top_link [OF z(1)] by blast
  then show ?thesis using z(2-4) zholds_node [OF z(1) [unfolded assms(2)]] assms(2)
    by (simp add: erase_move_def cmp_0 cmp_neg)
qed

text \<open>Nothing to push: the node is red, the next one is, or it is the root.\<close>

lemma erase_step_plain:
  assumes inv: "erase_inv key x v h b fs T" and T: "T = Nd a c y (two (key x < key y) L R)"
    and plain: "c \<or> isred L \<or> fs = [] \<and> \<not> isred R"
    and v': "v' = \<lparr>e_q = a, e_p = top_addr b fs, e_g = e_p v,
      e_f = found key x ((a, c, y, key x < key y, R) # fs), e_dir = key x < key y\<rparr>"
  shows "erase_next key x b L (items (plug fs T)) h (erase_push (edir fs) v' h)"
proof -
  have z: "zholds h b fs T" "valid key (plug fs T)" "towards key x fs" using inv by (simp_all add: erase_inv_def)
  note n = zholds_node [OF z(1) [unfolded T]]
  have "erase_push (edir fs) v' h = Some (v', h)"
  proof (cases "c \<or> isred L")
    case True
    then show ?thesis using n v' by (auto simp: erase_push_def)
  next
    case False
    then have f: "fs = []" "\<not> isred R" using plain by auto
    then have "deref h b = Some (head_cell a)" using z(1) T by (auto simp: zholds_def deref_def)
    moreover have "link (head_cell a :: 'a rbnode) False = 0" by (simp add: head_cell_def link_def)
    ultimately show ?thesis using n v' False f by (simp add: erase_push_def Let_def)
  qed
  moreover have "pushed ((a, c, y, key x < key y, R) # fs) L" using plain by (auto simp: pushed_def pred_def)
  then have "erase_inv key x v' h b ((a, c, y, key x < key y, R) # fs) L"
    using z T v' by (simp add: erase_inv_def zholds_step)
  ultimately show ?thesis by (intro erase_nextI [where fs' = "(a, c, y, key x < key y, R) # fs"]) (simp_all add: T same_room_def)
qed

text \<open>The other child is red: a rotation.\<close>

lemma erase_step_turn:
  assumes inv: "erase_inv key x v h b fs T" and T: "T = Nd a False y (two (key x < key y) L R)"
    and turn: "\<not> isred L" "isred R"
    and v': "v' = \<lparr>e_q = a, e_p = top_addr b fs, e_g = e_p v,
      e_f = found key x ((a, False, y, key x < key y, R) # fs), e_dir = key x < key y\<rparr>"
  shows "erase_next key x b L (items (plug fs T)) h (erase_push (edir fs) v' h)"
proof -
  let ?d = "key x < key y"
  obtain r w R1 R2 where R: "R = Nd r True w (two ?d R1 R2)" using turn(2) by (cases R rule: rt_cases [where d = ?d]) auto
  have z: "zholds h b fs T" "valid key (plug fs T)" "towards key x fs" using inv by (simp_all add: erase_inv_def)
  note n = zholds_node [OF z(1) [unfolded T]]
  have "zholds h b fs (Nd a False y (two (\<not> ?d) (Nd r True w (two (\<not> ?d) R2 R1)) L))"
    using z(1) T R by (simp add: two_flip)
  from zsingle [OF this] obtain h1 h2 where h2: "jsw_single a ?d h = Some (r, h1)" "upd (top_addr b fs) (set_link (edir fs) r) h1 = Some h2"
     "zholds h2 b fs (Nd r False w (two ?d (Nd a True y (two ?d L R1)) R2))" "same_room h h2"
    by (auto simp: two_flip)
  let ?fs = "(a, True, y, ?d, R1) # (r, False, w, ?d, R2) # fs"
  have push: "erase_push (edir fs) v' h = Some (v'\<lparr>e_p := r\<rparr>, h2)"
    using n v' turn h2(1,2) by (simp add: erase_push_def)
  have v: "valid key (plug ?fs L)" using turn_valid [OF z(2) [unfolded T R] turn(1)] .
  have "before ?d (key y) (key w)" using z(2) T R by (auto simp: valid_plug)
  from beside [where k = key and x = x, OF this refl] have w: "key w \<noteq> key x" "(key x < key w) = ?d" by blast+
  have tw: "towards key x ?fs" unfolding towards.simps w(2) using z(3) by (intro conjI refl)
  have zh: "zholds h2 b ?fs L" using h2(3) by (simp only: zholds_step)
  have it: "items (plug ?fs L) = items (plug fs T)" unfolding T R by (auto simp: items_plug)
  show ?thesis by (rule erase_next_red [OF push zh v tw _ _ _ _ it h2(4)]) (simp_all add: v' w(1))
qed

text \<open>All black: the sibling gives a node or its colour.\<close>

lemma black_sibling:
  assumes "erase_inv key x v h b fs T" and "T = Nd a False y (two d L R)" and "fs \<noteq> []"
  obtains p c z e s w S1 S2 ws where "fs = (p, c, z, e, Nd s False w (two e S1 S2)) # ws" "c \<or> ws = []"
proof -
  have i: "valid key (plug fs T)" "pushed fs T" using assms(1) by (simp_all add: erase_inv_def)
  obtain p c z e S ws where fs: "fs = (p, c, z, e, S) # ws" using assms(3) by (cases fs) auto
  have "c \<or> ws = []" "\<not> isred S" using i assms(2) fs by (auto simp: pushed_def pred_def valid_plug)
  moreover have "bh S = bh T" "bh T \<noteq> 0" using i(1) assms(2) fs by (auto simp: valid_plug bh_two)
  ultimately show ?thesis using that fs by (cases S rule: rt_cases [where d = e]) auto
qed

lemma push_black:
  assumes "zholds h b ((p, c, z, e, Nd s f w g) # ws) (Nd a False y (two d L R))" and "\<not> isred L" "\<not> isred R"
    and "e_q v = a" "e_p v = p" "e_dir v = d"
  shows "erase_push e v h = map_option (\<lambda>h'. (v, h')) (erase_borrow e s v h)"
proof -
  note n = zholds_node [OF assms(1)]
  have "zholds h b ws (Nd p c z (two e (Nd a False y (two d L R)) (Nd s f w g)))" using assms(1) by (simp add: zholds_step)
  note np = zholds_node [OF this]
  show ?thesis
    using n np assms(2-6) by (simp add: erase_push_def Let_def map_option_case split: option.split)
qed

lemma erase_step_black:
  assumes inv: "erase_inv key x v h b fs T" and T: "T = Nd a False y (two (key x < key y) L R)"
    and black: "\<not> isred L" "\<not> isred R" "fs \<noteq> []"
    and v': "v' = \<lparr>e_q = a, e_p = top_addr b fs, e_g = e_p v,
      e_f = found key x ((a, False, y, key x < key y, R) # fs), e_dir = key x < key y\<rparr>"
  shows "erase_next key x b L (items (plug fs T)) h (erase_push (edir fs) v' h)"
proof -
  let ?d = "key x < key y"
  have z: "zholds h b fs T" "valid key (plug fs T)" "towards key x fs" "e_p v = top_addr b (tl fs)"
    using inv black(3) by (simp_all add: erase_inv_def)
  obtain p c z' e s w S1 S2 ws where fs0: "fs = (p, c, z', e, Nd s False w (two e S1 S2)) # ws" and cw: "c \<or> ws = []"
    using black_sibling [OF inv T black(3)] .
  obtain S where S: "S = Nd s False w (two e S1 S2)" by simp
  have fs: "fs = (p, c, z', e, S) # ws" using fs0 S by simp
  have zQ: "zholds h b ((a, False, y, ?d, R) # (p, c, z', e, S) # ws) L" using z(1) T fs by (simp add: zholds_step)
  have vQ: "valid key (plug ((a, False, y, ?d, R) # (p, c, z', e, S) # ws) L)" using z(2) T fs by simp
  have ev: "e_q v' = a" "e_p v' = p" "e_g v' = top_addr b ws" "e_dir v' = ?d" using v' z(4) fs by simp_all
  have push: "erase_push (edir fs) v' h = map_option (\<lambda>h'. (v', h')) (erase_borrow e s v' h)"
    using push_black [OF z(1) [unfolded fs0 T] black(1,2) ev(1,2,4)] fs0 by simp
  have it: "items (plug ((a, False, y, ?d, R) # (p, c, z', e, S) # ws) L) = items (plug fs T)" using T fs by simp
  have e: "e = (key x < key z')" "towards key x ws" using z(3) fs by simp_all
  show ?thesis
  proof (cases "isred S1 \<or> isred S2")
    case True
    from push_borrow [OF zQ S vQ black(1,2) cw ev(1-3) True] obtain h' X r u s' where
      b: "erase_borrow e s v' h = Some h'" "same_room h h'" "u \<in> items S"
      and g: "zholds h' b ((a, True, y, ?d, R) # (p, False, z', e, X) # (r, True, u, e, s') # ws) L"
       "valid key (plug ((a, True, y, ?d, R) # (p, False, z', e, X) # (r, True, u, e, s') # ws) L)"
       "items (plug ((a, True, y, ?d, R) # (p, False, z', e, X) # (r, True, u, e, s') # ws) L) = items (plug fs T)"
      unfolding it borrowed_def by blast
    have "before e (key z') (key u)" using vQ b(3) by (simp add: valid_plug)
    from beside [where k = key, OF this e(1)] have u: "key u \<noteq> key x" "(key x < key u) = e" by blast+
    have "towards key x ((a, True, y, ?d, R) # (p, False, z', e, X) # (r, True, u, e, s') # ws)"
      unfolding towards.simps u(2) using e by (intro conjI refl)
    from erase_next_red [OF _ g(1,2) this _ _ _ _ g(3) b(2)] show ?thesis using push b(1) u(1) v' fs by simp
  next
    case False
    from push_no_borrow [OF zQ S vQ black(1,2) cw ev(1,2)] False obtain h' X where
      b: "erase_borrow e s v' h = Some h'" "same_room h h'"
      and g: "zholds h' b ((a, True, y, ?d, R) # (p, False, z', e, X) # ws) L"
       "valid key (plug ((a, True, y, ?d, R) # (p, False, z', e, X) # ws) L)"
       "items (plug ((a, True, y, ?d, R) # (p, False, z', e, X) # ws) L) = items (plug fs T)"
      unfolding it by blast
    have "towards key x ((a, True, y, ?d, R) # (p, False, z', e, X) # ws)" using e by simp
    from erase_next_red [OF _ g(1,2) this _ _ _ _ g(3) b(2)] show ?thesis using push b(1) v' fs by simp
  qed
qed

text \<open>The loop ends with the focus at a null link.\<close>

lemma erase_loop:
  assumes "erase_inv key x v h b fs T" and "fs \<noteq> [] \<or> T \<noteq> Lf"
  shows "\<exists>v' h' fs'. rberase_loop cmp x v h = Some (v', h') \<and> erase_inv key x v' h' b fs' Lf \<and> fs' \<noteq> [] \<and>
     items (plug fs' Lf) = items (plug fs T) \<and> same_room h h'"
  using assms
proof (induction "nsize T" arbitrary: v h fs T rule: less_induct)
  case less
  have z: "zholds h b fs T" "e_q v = top_addr b fs" "e_dir v = edir fs" using less.prems(1) by (simp_all add: erase_inv_def)
  obtain n where n: "deref h (e_q v) = Some n" "link n (e_dir v) = ra T" using top_link [OF z(1)] z(2,3) by auto
  have ra0: "ra T = 0 \<longleftrightarrow> T = Lf" using z(1) ra_zero by (auto simp: zholds_def)
  show ?case
  proof (cases rule: node_towards [of T _ x])
    case 1
    then have "rberase_loop cmp x v h = Some (v, h)" using n ra0 by (subst rberase_loop.simps) simp
    then show ?thesis using less.prems 1 by (auto simp: same_room_def)
  next
    case (2 a c y L R)
    let ?v = "\<lparr>e_q = a, e_p = top_addr b fs, e_g = e_p v,
      e_f = found key x ((a, c, y, key x < key y, R) # fs), e_dir = key x < key y\<rparr>"
    have "erase_next key x b L (items (plug fs T)) h (erase_push (edir fs) ?v h)"
    proof (cases "c \<or> isred L \<or> fs = [] \<and> \<not> isred R")
      case True
      then show ?thesis using erase_step_plain [OF less.prems(1) 2] by blast
    next
      case False
      then have "\<not> c" "\<not> isred L" "isred R \<or> fs \<noteq> []" by auto
      then show ?thesis using erase_step_turn [OF less.prems(1), of a y L R] erase_step_black [OF less.prems(1), of a y L R] 2
        by (cases "isred R") auto
    qed
    then obtain v' h' fs' where s: "erase_push (edir fs) ?v h = Some (v', h')" "erase_inv key x v' h' b fs' L" "fs' \<noteq> []"
       "items (plug fs' L) = items (plug fs T)" "same_room h h'"
      by (auto simp: erase_next_def)
    have "rberase_loop cmp x v h = rberase_loop cmp x v' h'"
      using n ra0 2 z(3) s(1) erase_move_goes [OF less.prems(1) 2] by (subst rberase_loop.simps) simp
    moreover have "nsize L < nsize T" using 2 by simp
    ultimately show ?thesis using less.hyps [OF _ s(2)] s(3-5) same_room_trans by metis
  qed
qed

end

section \<open>Taking the node out\<close>

text \<open>The item of the node found is replaced by that of the last node.\<close>

definition swapped :: "('a \<Rightarrow> 'k) \<Rightarrow> 'a \<Rightarrow> 'a \<Rightarrow> 'a frame list \<Rightarrow> 'a frame list" where
  "swapped k x z fs = map (\<lambda>(a, c, y, d, s). (a, c, if k y = k x then z else y, d, s)) fs"

lemma swapped_simps [simp]:
  "swapped k x z [] = []"
  "swapped k x z ((a, c, y, d, s) # fs) = (a, c, if k y = k x then z else y, d, s) # swapped k x z fs"
  by (simp_all add: swapped_def)

lemma swapped_inv [simp]:
  "finvc (swapped k x z fs) r = finvc fs r" "finvh (swapped k x z fs) n = finvh fs n"
  "faddrs b (swapped k x z fs) = faddrs b fs"
  by (induction fs arbitrary: r n; auto)+

lemma swapped_dist [simp]: "fdist b (swapped k x z fs) = fdist b fs"
  by (induction fs) auto

lemma swapped_top [simp]: "top_addr b (swapped k x z fs) = top_addr b fs"
  by (cases fs) auto

text \<open>At most one frame has the key, and none above an item that lies below it in the tree.\<close>

fun unmet :: "('a \<Rightarrow> 'k) \<Rightarrow> 'a \<Rightarrow> 'a frame list \<Rightarrow> bool" where
  "unmet k x [] = True"
| "unmet k x ((a, c, y, d, s) # fs) = (k y \<noteq> k x \<and> unmet k x fs)"

lemma unmet_swapped: "unmet k x fs \<Longrightarrow> swapped k x z fs = fs"
  by (induction k x fs rule: unmet.induct) auto

lemma on_path_unmet: "on_path k y fs \<Longrightarrow> k y = k x \<Longrightarrow> unmet k x fs"
  by (induction fs) (auto simp: before_def split: if_splits)

lemma unmet_found: "fholds h b fs r \<Longrightarrow> unmet k x fs \<longleftrightarrow> found k x fs = 0"
  by (induction h b fs r rule: fholds.induct) auto

text \<open>What lies below the node found has a greater key, for there the path goes in direction 0.\<close>

lemma below_found:
  "on_path k y fs \<Longrightarrow> towards k x fs \<Longrightarrow> \<not> unmet k x fs \<Longrightarrow> k x < k y"
  by (induction fs) (auto simp: before_def split: if_splits)

lemma on_path_swapped:
  "on_path k y fs \<Longrightarrow> towards k x fs \<Longrightarrow> k z < k y \<Longrightarrow> on_path k y (swapped k x z fs)"
  by (induction fs) (auto simp: before_def split: if_splits)

lemma fbst_swapped:
  assumes "fbst k fs" and "towards k x fs" and "on_path k z fs" and "k x < k z"
  shows "fbst k (swapped k x z fs)"
  using assms
proof (induction fs)
  case (Cons f fs)
  obtain a c y d s where f: "f = (a, c, y, d, s)" by (cases f)
  note p = Cons.prems [unfolded f fbst.simps towards.simps on_path.simps]
  show ?case
  proof (cases "unmet k x fs")
    case True
    show ?thesis
    proof (cases "k y = k x")
      case False
      then show ?thesis using Cons.prems True f by (simp add: unmet_swapped)
    next
      case eq: True
      then have "\<not> d" using p by simp
      then have "\<forall>w \<in> items s. before d (k z) (k w) \<and> on_path k w fs"
        using p eq by (fastforce simp: before_def)
      then show ?thesis using p True eq f by (simp add: unmet_swapped)
    qed
  next
    case False
    then have "k x < k y" using p below_found [of k y fs x] by simp
    then have d: "d" "k y \<noteq> k x" "k z < k y" using p by (auto simp: before_def)
    have "on_path k w (swapped k x z fs)" if "w \<in> items s" for w
    proof -
      have "k y < k w" "on_path k w fs" using p d(1) that by (auto simp: before_def)
      then show ?thesis using d(3) p by (intro on_path_swapped) auto
    qed
    moreover have "on_path k y (swapped k x z fs)" using p d(3) by (intro on_path_swapped) auto
    moreover have "fbst k (swapped k x z fs)" using Cons.IH p by blast
    ultimately show ?thesis using p d f by simp
  qed
qed simp

lemma fitems_swapped:
  assumes "fbst k fs" and "towards k x fs"
  shows "fitems (swapped k x z fs) = {w \<in> fitems fs. k w \<noteq> k x} \<union> (if unmet k x fs then {} else {z})"
  using assms
proof (induction fs)
  case (Cons f fs)
  obtain a c y d s where f: "f = (a, c, y, d, s)" by (cases f)
  have "k w \<noteq> k x" if "w \<in> items s" for w
    using Cons.prems f that beside [of d k y w x] by auto
  moreover have "unmet k x fs" if "k y = k x" using Cons.prems f that on_path_unmet [of k y fs x] by auto
  ultimately show ?case using Cons f by auto
qed simp

lemma fholds_swapped:
  assumes "fholds h b fs r" and "fdist b fs" and "fbst k fs" and "\<not> unmet k x fs"
  shows "\<exists>n y h'. deref h (found k x fs) = Some n \<and> ndata n = Some y \<and> y \<in> fitems fs \<and> k y = k x \<and>
     upd (found k x fs) (\<lambda>n. n\<lparr>ndata := Some z\<rparr>) h = Some h' \<and> fholds h' b (swapped k x z fs) r \<and> outside {found k x fs} h h' \<and>
     found k x fs \<in> faddrs b fs"
  using assms
proof (induction fs arbitrary: r)
  case (Cons f fs)
  obtain a c y d s where f: "f = (a, c, y, d, s)" by (cases f)
  have a: "0 < a" "a < brk h" "nodes h a = cell c y (two d r (ra s))" "holds h s" "fholds h b fs a"
    using Cons.prems(1) f by auto
  have na: "a \<notin> addrs s" "a \<notin> faddrs b fs" "addrs s \<inter> faddrs b fs = {}" "fdist b fs" "fbst k fs" "on_path k y fs"
    using Cons.prems(2,3) f by auto
  show ?case
  proof (cases "k y = k x")
    case True
    have un: "unmet k x fs" using on_path_unmet [OF na(6) True] .
    let ?h = "h\<lparr>nodes := (nodes h)(a := cell c z (two d r (ra s)))\<rparr>"
    have o: "outside {a} h ?h" by (simp add: outside_def)
    have "upd a (\<lambda>n. n\<lparr>ndata := Some z\<rparr>) h = Some ?h" using a by (simp add: upd_node cell_def)
    moreover have "holds ?h s" "fholds ?h b fs a" using holds_outside [OF a(4) o] fholds_outside [OF a(5) o] na by auto
    ultimately show ?thesis using a f True o un
      by (intro exI [of _ "nodes h a"] exI [of _ y] exI [of _ ?h]) (simp add: deref_def unmet_swapped)
  next
    case False
    then have "\<not> unmet k x fs" using Cons.prems(4) f by simp
    from Cons.IH [OF a(5) na(4,5) this] obtain n w h' where h': "deref h (found k x fs) = Some n" "ndata n = Some w"
      "w \<in> fitems fs" "k w = k x" "upd (found k x fs) (\<lambda>n. n\<lparr>ndata := Some z\<rparr>) h = Some h'"
      "fholds h' b (swapped k x z fs) a" "outside {found k x fs} h h'" "found k x fs \<in> faddrs b fs" by blast
    have "holds h' s" by (rule holds_outside [OF a(4) h'(7)]) (use h'(8) na(3) in auto)
    moreover have "a \<noteq> found k x fs" using na(2) h'(8) by auto
    then have "nodes h' a = nodes h a" "brk h' = brk h" using h'(7) by (auto simp: outside_def)
    ultimately show ?thesis using h' a False f by simp
  qed
qed simp

text \<open>Where the loop has ended, the last node is a leaf that can be taken out.\<close>

lemma black_leaf: "invh s \<Longrightarrow> bh s = 0 \<Longrightarrow> \<not> isred s \<Longrightarrow> s = Lf"
  by (cases s rule: rt_cases [where d = True]) (auto simp: bh_two)

lemma finvc_black: "finvc fs r \<Longrightarrow> finvc fs False"
  by (cases fs) auto

lemma last_node:
  assumes "valid k (plug ((q, c, y, d, s) # ws) Lf)" and "pushed ((q, c, y, d, s) # ws) Lf"
  shows "s = Lf" "finvc ws False" "finvh ws 0"
proof -
  have v: "invh s" "bh s = 0" "c \<longrightarrow> \<not> isred s" "finvc ws c" "finvh ws (if c then 0 else 1)"
    using assms(1) by (auto simp: valid_plug bh_two)
  have p: "c \<or> ws = [] \<and> \<not> isred s" using assms(2) by (auto simp: pushed_def pred_def)
  then show "s = Lf" using black_leaf [OF v(1,2)] v(3) by blast
  show "finvc ws False" using v(4) by (rule finvc_black)
  show "finvh ws 0" using p v(5) by auto
qed

lemma take_out_valid:
  assumes v: "valid k (plug ((q, c, y, d, Lf) # ws) Lf)" and i: "finvc ws False" "finvh ws 0"
    and t: "towards k x ((q, c, y, d, Lf) # ws)" and f: "k y = k x \<or> \<not> unmet k x ws"
  shows "valid k (plug (swapped k x y ws) Lf)"
    "items (plug (swapped k x y ws) Lf) = {w \<in> items (plug ((q, c, y, d, Lf) # ws) Lf). k w \<noteq> k x}"
proof -
  have b: "fbst k ws" "on_path k y ws" and tw: "towards k x ws" using v t by (simp_all add: valid_plug)
  have "fbst k (swapped k x y ws)"
  proof (cases "unmet k x ws")
    case False
    then show ?thesis using fbst_swapped [OF b(1) tw b(2)] below_found [OF b(2) tw] by blast
  qed (simp add: unmet_swapped b(1))
  then show "valid k (plug (swapped k x y ws) Lf)" using i by (simp add: valid_plug)
  have "k y = k x \<longleftrightarrow> unmet k x ws" using f on_path_unmet [OF b(2)] by blast
  then show "items (plug (swapped k x y ws) Lf) = {w \<in> items (plug ((q, c, y, d, Lf) # ws) Lf). k w \<noteq> k x}"
    using fitems_swapped [OF b(1) tw, of y] by (auto simp: items_plug)
qed

lemma nothing_found:
  assumes "valid k (plug fs Lf)" and "towards k x fs" and "unmet k x fs"
  shows "\<forall>w \<in> items (plug fs Lf). k w \<noteq> k x"
proof -
  have "fbst k fs" using assms(1) by (simp add: valid_plug)
  from fitems_swapped [OF this assms(2), of undefined] show ?thesis
    using assms(3) unmet_swapped [OF assms(3), of undefined] by (auto simp: items_plug)
qed

lemma bst_unique: "bst k T \<Longrightarrow> v \<in> items T \<Longrightarrow> w \<in> items T \<Longrightarrow> k v = k w \<Longrightarrow> v = w"
proof (induction T rule: rt_induct [where d = True])
  case (Nd a c y L R)
  have "k u < k y" if "u \<in> items L" for u using Nd.prems(1) that by (simp add: before_def)
  moreover have "k y < k u" if "u \<in> items R" for u using Nd.prems(1) that by (simp add: before_def)
  ultimately have lr: "u \<in> items L \<Longrightarrow> k u < k y" "u \<in> items R \<Longrightarrow> k y < k u" for u by blast+
  have "v = y \<or> v \<in> items L \<or> v \<in> items R" "w = y \<or> w \<in> items L \<or> w \<in> items R" using Nd.prems(2,3) by auto
  moreover have "v \<in> items L \<Longrightarrow> w \<in> items L \<Longrightarrow> v = w" "v \<in> items R \<Longrightarrow> w \<in> items R \<Longrightarrow> v = w"
    using Nd.IH Nd.prems(1,4) by simp_all
  ultimately show ?case using lr [of v] lr [of w] Nd.prems(4) by (metis less_asym)
qed simp

lemma addrs_plug: "addrs (plug fs T) \<subseteq> addrs T \<union> faddrs b fs"
  by (induction fs T rule: plug.induct) auto

text \<open>The code after the loop.\<close>

lemma take_out_heap:
  assumes z: "zholds h b fs Lf" and fb: "fbst k fs" and ne: "\<not> unmet k x fs" and fs: "fs = (q, c, y, d, Lf) # ws"
    and v: "e_q v = q" "e_p v = top_addr b ws" "e_f v = found k x fs"
  shows "\<exists>w h'. erase_found v h = Some (([q], [w]), h') \<and> w \<in> fitems fs \<and> k w = k x \<and>
     zholds h' b [] (plug (swapped k x y ws) Lf) \<and> q \<notin> faddrs b ws \<and> same_room h h'"
proof -
  have fh: "fholds h b fs 0" "fdist b fs" using z by (simp_all add: zholds_def zdist_def)
  have q: "deref h q = Some (cell c y (two d 0 0))" "q \<noteq> 0" "q \<notin> faddrs b ws" "fdist b ws" "nodes h q = cell c y (two d 0 0)" "q < brk h"
    using fh fs by (auto simp: deref_def)
  obtain n w h1 where h1: "deref h (found k x fs) = Some n" "ndata n = Some w" "w \<in> fitems fs" "k w = k x"
     "upd (found k x fs) (\<lambda>n. n\<lparr>ndata := Some y\<rparr>) h = Some h1" "fholds h1 b (swapped k x y fs) 0"
     "outside {found k x fs} h h1"
    using fholds_swapped [OF fh fb ne, of y] by blast
  have h1q: "fholds h1 b (swapped k x y ws) q" "deref h1 q = Some (cell c y (two d 0 0))"
    using h1(6) fs by (auto simp: deref_def)
  obtain m h2 where h2: "deref h1 (top_addr b ws) = Some m" "upd (top_addr b ws) (set_link (link1 m = q) 0) h1 = Some h2"
     "fholds h2 b (swapped k x y ws) 0" "outside {top_addr b ws} h1 h2"
    using relink [OF h1q(1), of 0] q by auto
  have "found k x fs \<noteq> 0" using unmet_found [OF fh(1), of k x] ne by blast
  then have "erase_found v h = Some (([q], [w]), h2)"
    using v fs q h1(1,2,5) h1q(2) h2(1,2) by (simp add: erase_found_def two_def)
  moreover have "zholds h2 b (swapped k x y ws) Lf" using h2(3) q(4) by (simp add: zholds_def zdist_def)
  then have "zholds h2 b [] (plug (swapped k x y ws) Lf)" by (simp add: zholds_plug [symmetric])
  moreover have "same_room h h2" using same_room_trans [OF outside_room [OF h1(7)] outside_room [OF h2(4)]] .
  ultimately show ?thesis using h1(3,4) q(3) by blast
qed

text \<open>The root becomes black.\<close>

lemma black_root:
  assumes "holds h U" and "dist U" and "valid k U" and "items U = S" and "0 < brk h" and "r = ra U"
  shows "\<exists>h'. (if r \<noteq> 0 then paint_node r 0 h else Some h) = Some h' \<and> (\<forall>t. root t = r \<longrightarrow> rb_tree k h' t S) \<and>
     holds h' (paint False U)"
proof (cases "U = Lf")
  case True
  then show ?thesis using assms by (auto simp: rb_tree_def intro: exI [of _ Lf])
next
  case False
  obtain h' where h': "upd (ra U) (\<lambda>n. n\<lparr>red := 0\<rparr>) h = Some h'" "holds h' (paint False U)" "outside {ra U} h h'"
    using paint_heap [OF assms(1) False assms(2), of False] by auto
  have "rb_tree k h' t S" if "root t = r" for t
    using that assms h'(2,3) invc_paint unfolding rb_tree_def
    by (intro conjI exI [of _ "paint False U"]) (auto simp: valid_def outside_def)
  then show ?thesis using h' assms(6) ra_zero [OF assms(1)] False by (auto simp: paint_node_def)
qed

context rb_key
begin

lemma erase_found_goes:
  assumes inv: "erase_inv key x v h b fs Lf" and ne: "fs \<noteq> []" and I: "I = items (plug fs Lf)"
  shows "\<exists>fr rel h' U. erase_found v h = Some ((fr, rel), h') \<and> zholds h' b [] U \<and> valid key U \<and>
     items U = {w \<in> I. key w \<noteq> key x} \<and> set rel = {w \<in> I. key w = key x} \<and> length fr = length rel \<and>
     addrs U \<inter> set fr = {}"
proof -
  have z: "zholds h b fs Lf" "valid key (plug fs Lf)" "towards key x fs" "pushed fs Lf" "e_q v = top_addr b fs"
    "e_p v = top_addr b (tl fs)" "e_f v = found key x fs" using inv ne by (simp_all add: erase_inv_def)
  have fh: "fholds h b fs 0" "fbst key fs" using z(1,2) by (simp_all add: zholds_def valid_plug)
  show ?thesis
  proof (cases "unmet key x fs")
    case True
    then have "erase_found v h = Some (([], []), h)" using unmet_found [OF fh(1), of key x] z(7) by (simp add: erase_found_def)
    then show ?thesis using z(1,2) I nothing_found [OF z(2,3) True] zholds_plug [of h b fs Lf]
      by (intro exI [of _ "[]"] exI [of _ h] exI [of _ "plug fs Lf"]) auto
  next
    case False
    obtain q c y d s ws where fs0: "fs = (q, c, y, d, s) # ws" using ne by (cases fs) auto
    note lst = last_node [OF z(2,4) [unfolded fs0]]
    have fs: "fs = (q, c, y, d, Lf) # ws" using fs0 lst(1) by simp
    let ?U = "plug (swapped key x y ws) Lf"
    have v: "e_q v = q" "e_p v = top_addr b ws" using z(5,6) fs by simp_all
    obtain w h' where h': "erase_found v h = Some (([q], [w]), h')" "w \<in> fitems fs" "key w = key x" "zholds h' b [] ?U" "q \<notin> faddrs b ws"
      using take_out_heap [OF z(1) fh(2) False fs v z(7)] by blast
    have U: "valid key ?U" "items ?U = {w \<in> I. key w \<noteq> key x}"
      using take_out_valid [OF z(2) [unfolded fs] lst(2,3) z(3) [unfolded fs]] False I fs by auto
    have "w \<in> I" using h'(2) I by (simp add: items_plug)
    moreover have "bst key (plug fs Lf)" using z(2) by (simp add: valid_def)
    ultimately have "set [w] = {w \<in> I. key w = key x}" using bst_unique I h'(3) by fastforce
    moreover have "addrs ?U \<inter> set [q] = {}" using addrs_plug [of "swapped key x y ws" Lf b] h'(5) by auto
    ultimately show ?thesis using h'(1,4) U
      by (intro exI [of _ "[q]"] exI [of _ "[w]"] exI [of _ h'] exI [of _ ?U]) simp
  qed
qed

lemma erase_ok:
  assumes "rb_tree key h t S"
  shows "\<exists>t' h' fr rel. jsw_rberase cmp t x h = Some ((1, t'), (fr, rel), h') \<and>
     rb_tree key h' t' {w \<in> S. key w \<noteq> key x} \<and> set rel = {w \<in> S. key w = key x} \<and> length fr = length rel \<and>
     tsize t' = (if S = {} then tsize t else (tsize t + 2 ^ 64 - 1) mod 2 ^ 64) \<and>
     (\<exists>fs xs. jsw_rbdelete h' t' = Some (fs, xs) \<and> set fs \<inter> set fr = {})"
proof -
  obtain T where T: "ra T = root t" "holds h T" "dist T" "valid key T" "\<not> isred T" "items T = S" "0 < brk h"
    using assms(1) by (auto simp: rb_tree_def)
  show ?thesis
  proof (cases "T = Lf")
    case True
    then have "S = {}" "root t = 0" using T(1,6) by auto
    moreover have "jsw_rbdelete h t = Some ([], [])"
      using \<open>root t = 0\<close> by (simp add: jsw_rbdelete_def rbdelete_loop.simps)
    ultimately show ?thesis using assms by (simp add: jsw_rberase_def)
  next
    case False
    let ?b = "brk h"
    let ?h = "h\<lparr>nodes := (nodes h)(?b := \<lparr>red = 0, ndata = None, link0 = 0, link1 = root t\<rparr>), brk := brk h + 1\<rparr>"
    let ?v = "\<lparr>e_q = ?b, e_p = 0, e_g = 0, e_f = 0, e_dir = True\<rparr>"
    have nb: "?b \<notin> addrs T" using holds_bound [OF T(2)] by auto
    have "holds ?h T" by (rule holds_cong [OF T(2)]) (use nb in auto)
    then have "erase_inv key x ?v ?h ?b [] T"
      using T nb by (auto simp: erase_inv_def zholds_def zdist_def pushed_def head_cell_def)
    from erase_loop [OF this] False obtain v1 h1 fs where l: "rberase_loop cmp x ?v ?h = Some (v1, h1)"
        "erase_inv key x v1 h1 ?b fs Lf" "fs \<noteq> []" "items (plug fs Lf) = S" "same_room ?h h1"
      using T(6) by auto
    obtain fr rel h2 U where f: "erase_found v1 h1 = Some ((fr, rel), h2)" "zholds h2 ?b [] U" "valid key U"
       "items U = {w \<in> S. key w \<noteq> key x}" "set rel = {w \<in> S. key w = key x}" "length fr = length rel" "addrs U \<inter> set fr = {}"
      using erase_found_goes [OF l(2,3) l(4) [symmetric]] by blast
    have hd2: "deref h2 ?b = Some (head_cell (ra U))" and U: "holds h2 U" "dist U" "0 < brk h2"
      using f(2) by (auto simp: zholds_def zdist_def deref_def)
    obtain h3 where h3: "(if ra U \<noteq> 0 then paint_node (ra U) 0 h2 else Some h2) = Some h3"
        "\<forall>t. root t = ra U \<longrightarrow> rb_tree key h3 t {w \<in> S. key w \<noteq> key x}" "holds h3 (paint False U)"
      using black_root [OF U(1,2) f(3,4) U(3) refl] by blast
    let ?t = "t\<lparr>root := ra U, tsize := (tsize t + 2 ^ 64 - 1) mod 2 ^ 64\<rparr>"
    have "root t \<noteq> 0" using T(1) ra_zero [OF T(2)] False by simp
    then have "jsw_rberase cmp t x h = Some ((1, ?t), (fr, rel), h3)"
      using l(1) f(1) hd2 h3(1) by (auto simp: jsw_rberase_def Let_def split: if_splits)
    moreover have "rb_tree key h3 ?t {w \<in> S. key w \<noteq> key x}" using h3(2) by simp
    moreover have "\<exists>fs xs. jsw_rbdelete h3 ?t = Some (fs, xs) \<and> set fs \<inter> set fr = {}"
      using rbdelete_goes [OF h3(3), of "[]" "[]"] U(2) f(7) by (auto simp: jsw_rbdelete_def)
    moreover have "S \<noteq> {}" using T(6) False by (cases T rule: rt_cases [where d = True]) auto
    ultimately show ?thesis using f(5,6) by (intro exI [of _ ?t] exI [of _ h3]) simp
  qed
qed

end

section \<open>Properties\<close>

text \<open>C19: removal from the red-black tree. For any comparison that orders the items by a key, \<open>jsw_rberase\<close> on a tree of
  the items \<open>S\<close> ends; the result is again a search tree with a black root, no red node below a red one and the same
  number of black nodes on every path, and its items are those of \<open>S\<close> with another key. The item with the key, if
  there was one, is handed to the release function, one node is freed, and no pointer of the tree leads to it any more.
  (The counter goes down in any case.)\<close>

theorem rbtree_erase:
  assumes "\<And>y x. cmp y x = 0 \<longleftrightarrow> key y = (key x :: 'k::linorder)" and "\<And>y x. cmp y x < 0 \<longleftrightarrow> key x < key y"
    and "rb_tree key h t S"
  shows "\<exists>t' h' fr rel. jsw_rberase cmp t x h = Some ((1, t'), (fr, rel), h') \<and>
     rb_tree key h' t' {w \<in> S. key w \<noteq> key x} \<and> set rel = {w \<in> S. key w = key x} \<and> length fr = length rel \<and>
     tsize t' = (if S = {} then tsize t else (tsize t + 2 ^ 64 - 1) mod 2 ^ 64) \<and>
     (\<exists>fs xs. jsw_rbdelete h' t' = Some (fs, xs) \<and> set fs \<inter> set fr = {})"
proof -
  have "rb_key cmp key" using assms(1,2) by (rule rb_key.intro)
  then show ?thesis using assms(3) by (rule rb_key.erase_ok)
qed

text \<open>A tree of two items, one of which is removed.\<close>

theorem rbtree_erase_witness:
  "\<exists>t h t' h' fr rel. rb_tree (\<lambda>z. z) h t {3, 7 :: int} \<and>
     jsw_rberase (\<lambda>y x. x - y) t 7 h = Some ((1, t'), (fr, rel), h') \<and> rb_tree (\<lambda>z. z) h' t' {3}"
proof -
  let ?T = "Nd 1 False 7 (two True (Nd 2 True 3 (two True Lf Lf)) Lf)"
  let ?h = "\<lparr>nodes = (\<lambda>_. cell False 0 (two True 0 0))(1 := cell False 7 (two True 2 0), 2 := cell True 3 (two True 0 0)),
    brk = 3, room = 0\<rparr>"
  let ?t = "\<lparr>root = 1, tsize = 2\<rparr>"
  have t: "rb_tree (\<lambda>z. z) ?h ?t {3, 7 :: int}"
    unfolding rb_tree_def by (intro conjI exI [of _ ?T]) (auto simp: valid_def before_def bh_two)
  have c: "(x - y = 0) = (y = x)" "(x - y < 0) = (x < y)" for x y :: int by auto
  have "{w \<in> {3, 7 :: int}. w \<noteq> 7} = {3}" by auto
  with rbtree_erase [where cmp = "\<lambda>y x. x - y" and key = "\<lambda>z. z", OF c t, of 7] obtain t' h' fr rel where
    e: "jsw_rberase (\<lambda>y x. x - y) ?t 7 ?h = Some ((1, t'), (fr, rel), h')" "rb_tree (\<lambda>z. z) h' t' {3}"
    by (simp only:) blast
  show ?thesis by (rule exI [of _ ?t], rule exI [of _ ?h]) (use t e in blast)
qed

end
