(* ===== verification/Tool.thy ===== *)
theory Tool
  imports C_Base
begin

text \<open>
  The command line tool (\<open>persclient_tool/persistence_client_tool.c\<close>). It links against the library but calls
  none of its functions: \<open>main\<close> handles the options \<open>-h\<close> and \<open>-v\<close> and refuses all others, among them
  every option with which its help text promises to read, write and delete keys.

  Output is the list of lines on each of the two streams; \<open>argv\<close> is the list of arguments behind the
  program name \<open>name\<close>.
\<close>

section \<open>Options\<close>

text \<open>What \<open>getopt(argc, argv, "hv")\<close> of the C library returns, call by call: the letters of the arguments that
  start with a dash, up to the argument of two dashes; other arguments are skipped. A letter
  that is not in the option string is \<open>'?'\<close>.\<close>

fun option_letters :: "string list \<Rightarrow> string" where
  "option_letters [] = []"
| "option_letters (a # as) =
     (if a = ''--'' then []
      else case a of
        [] \<Rightarrow> option_letters as
      | c # cs \<Rightarrow> if c = CHR ''-'' then cs @ option_letters as else option_letters as)"

definition getopt :: "string list \<Rightarrow> string" where
  "getopt argv = map (\<lambda>c. if c = CHR ''h'' \<or> c = CHR ''v'' then c else CHR ''?'') (option_letters argv)"

section \<open>The program\<close>

definition PCLT_VERSION :: string where
  "PCLT_VERSION = ''0.1''"

definition printHelp :: "string list" where
  "printHelp = [
     ''Usage: persclient_tool [-o <action to do>] [-a <application name>] [-r <resource id>] [-l <logical db id>]'',
     ''                       [-u <user no>] [-s <seat no>] [-f <file>] [-p <payload>] [-H] [-h] [-v]'',
     '''',
     ''-o, --option=<action to do>   The possible actions are:'',
     ''                              readkey    - read out the given key'',
     ''                              writekey   - write something to a key'',
     ''                              deletekey  - delete a key'',
     ''                              getkeysize - get the size of a key'',
     ''-a, --appname=<application name>   The Application Name used for the initialization of the PCL'',
     ''-f, --file=<filename>              The file for data import or export'',
     ''-p, --payload=<payload>            The data to be written to a key if no file is specified as source.'',
     ''-r, --resource_id=<resource id>    The resource ID is the name of the key to process'',
     ''-l, --ldbid=<logical db id>        Logical Database ID in hex notation! e.g. 0xFF. If not specified the default value '0xFF' is used'',
     ''-u, --user_no=<user no>            The user number. If not specified the default value '0' is used'',
     ''-s, --seat_no=<seat no>            The seat number. If not specified the default value '0' is used'',
     ''-H, --forcehexdump                 Force print out a HexDump of the written/read data'',
     ''-h, --help                         Print help message'',
     ''-V, --version                      Print program version'',
     '''',
     ''Examples:'',
     ''1.) Read a Key and show value as HexDump:'',
     ''    persclient_tool -o readkey -a MyApplication -r MyKey                   optional parameters: [-l 0xFF -u 0 -s 0]'',
     ''2.) Read a Key into a file:'',
     ''    persclient_tool -o readkey -a MyApplication -r MyKey -f outfile.bin    optional parameters: [-l 0xFF -u 0 -s 0 -H]'',
     ''3.) Write a Key and use the <payload> as the data source.:'',
     ''    persclient_tool -o writekey -a MyApplication -r MyKey -p 'Hello World' optional parameters: [-l 0xFF -u 0 -s 0 -H]'',
     ''4.) Write a Key and use a file as the data source.:'',
     ''    persclient_tool -o writekey -a MyApplication -r MyKey -f infile.bin    optional parameters: [-l 0xFF -u 0 -s 0 -H]'',
     ''5.) Get the size of a key [bytes]:'',
     ''    persclient_tool -o getkeysize -a MyApplication -r MyKey                optional parameters: [-l 0xFF -u 0 -s 0]'',
     ''6.) Delete a key:'',
     ''    persclient_tool -o deletekey -a MyApplication -r MyKey                 optional parameters: [-l 0xFF -u 0 -s 0]''
   ]"

record tool_result =
  stdout :: "string list"
  stderr :: "string list"
  status :: int

definition EXIT_FAILURE :: int where
  "EXIT_FAILURE = 1"

text \<open>The loop over the options; \<open>out\<close> is what has been printed so far.\<close>

fun tool_loop :: "string \<Rightarrow> string \<Rightarrow> string list \<Rightarrow> tool_result" where
  "tool_loop name [] out = \<lparr>stdout = out, stderr = [], status = 0\<rparr>"
| "tool_loop name (opt # opts) out =
     (if opt = CHR ''h'' then tool_loop name opts (out @ printHelp)
      else if opt = CHR ''v'' then tool_loop name opts (out @ [''Version: '' @ PCLT_VERSION])
      else \<lparr>stdout = out @ printHelp, stderr = [''Usage: '' @ name @ '' [-t nsecs] [-n] name''], status = EXIT_FAILURE\<rparr>)"

definition tool_main :: "string \<Rightarrow> string list \<Rightarrow> tool_result" where
  "tool_main name argv = tool_loop name (getopt argv) []"

section \<open>What it accepts\<close>

lemma tool_loop_status:
  "status (tool_loop name opts out) = (if set opts \<subseteq> {CHR ''h'', CHR ''v''} then 0 else EXIT_FAILURE)"
  by (induction opts arbitrary: out) auto

text \<open>The tool succeeds iff every option letter is \<open>h\<close> or \<open>v\<close>; arguments without a dash are ignored.\<close>

theorem tool_accepts:
  "status (tool_main name argv) = 0 \<longleftrightarrow> set (option_letters argv) \<subseteq> {CHR ''h'', CHR ''v''}"
  by (auto simp: tool_main_def tool_loop_status getopt_def EXIT_FAILURE_def split: if_splits)

text \<open>So every documented action is refused, and so are the documented long options and \<open>-V\<close>: a command line
  that starts with an option of the help text other than \<open>-h\<close> and \<open>-v\<close> prints a usage line of another
  program and the help, and fails.\<close>

theorem tool_documented_options:
  assumes "a \<in> {''-o'', ''-a'', ''-r'', ''-l'', ''-u'', ''-s'', ''-f'', ''-p'', ''-H'', ''-V'', ''--help'', ''--version'', ''--option=readkey''}"
  shows "tool_main name (a # as) =
     \<lparr>stdout = printHelp, stderr = [''Usage: '' @ name @ '' [-t nsecs] [-n] name''], status = EXIT_FAILURE\<rparr>"
  using assms by (auto simp: tool_main_def getopt_def)

end
