(* ===== verification/Spec2Isabelle.thy ===== *)
theory Spec2Isabelle
  imports Crc32 Key_Store Pas_Interface Lc_Interface Blacklist_Set Shutdown Admin_Request Notification Reachable Handshake Startup
    Rb_Remove Tool
begin

text \<open>
  \<^bold>\<open>The persistence client library.\<close> Applications use this C library to store key-value data and files. What a
  resource is (key or file, cached or written through, in a local or shared database or behind a plugin)
  stands in resource configuration tables; the library finds the entry, builds the path and the database
  key, and goes to the database, the plugin or the file. Before it changes a file for the first time it
  makes a backup with a checksum, which it checks at the next open. A thread with a D-Bus main loop
  receives change notifications and the requests of the administration service and the node state
  manager, and carries out the commands that the API functions write to its pipe.

  \<^bold>\<open>How the code is modelled.\<close> Every global variable is a field of the record \<open>pcl\<close> (\<open>Pcl_State\<close>), which each
  operation takes and returns updated. What the library calls but does not contain (libperscommon's
  databases and configuration tables, \<open>dlopen\<close>, the plugins) is the record \<open>perscom\<close> of functions on an
  abstract world (\<open>Pers_Common\<close>); properties that rely on their behaviour name it as a hypothesis
  (\<open>kv_lawful\<close> and its parts), and the world \<open>mem_env\<close>, a database in memory, shows that the hypotheses can
  hold. POSIX files are the explicit state \<open>fs\<close> (\<open>Posix_Fs\<close>), the bus is a list of what was sent.
  \<open>None\<close> stands for what C leaves undefined: reads and writes outside an array, NULL, a string without
  end; so a theorem with \<open>Some\<close> also says that the code stays defined. \<open>unsigned int\<close> is \<open>32 word\<close> and wraps;
  \<open>int\<close> is \<open>int\<close>, the conversions between them are written out.

  \<^bold>\<open>Theories and files.\<close> (Paths without a directory are in \<open>src/\<close>; \<open>pcl_\<close> is \<open>persistence_client_library_\<close>.)

  \<^item> Prelude: \<open>C_Base\<close> (strings, \<open>snprintf\<close>, bounded arrays \<open>rd\<close> and \<open>wr\<close>, number formats, folds),
    \<open>Data_Organization\<close> (\<open>pcl_data_organization.[ch]\<close>, error codes), \<open>Posix_Fs\<close>, \<open>Pers_Common\<close>, \<open>Tokens\<close> (the tokeniser that
    the loader and the blacklist share), \<open>Pcl_State\<close> (globals, \<open>deliverToMainloop\<close>).
  \<^item> \<open>Crc32\<close> (\<open>crc32.c\<close>): \<open>pclCrc32\<close> against a bitwise reference; which bytes it does not see.
  \<^item> \<open>Handle\<close> (\<open>pcl_handle.c\<close>): the pool of handle numbers and the handle tables; the pool is a locale \<open>handle_pool\<close>,
    interpreted on the code's functions.
  \<^item> \<open>Prct_Access\<close> (\<open>pcl_prct_access.c\<close>): \<open>get_db_context\<close>, paths and database keys; the key is injective.
  \<^item> \<open>Custom_Loader\<close> (\<open>pcl_custom_loader.c\<close>): configuration file, symbols, initialisation of the plugins.
  \<^item> \<open>Db_Access\<close> (\<open>pcl_db_access.c\<close>): cached database handles, reading with defaults, writing, deleting,
    notifications; \<open>Key\<close> (\<open>pcl_key.c\<close>): the key API by name and by handle; \<open>Key_Store\<close>: the key API refines a map from
    resources to values and a map from handles to resources.
  \<^item> \<open>Backup\<close>, \<open>Backup_Create\<close> (\<open>pcl_backup_filelist.c\<close>): checksums, \<open>pclVerifyConsistency\<close> against the decision \<open>verdict_of\<close>
    on the contents of three files, \<open>pclCreateBackup\<close>.
  \<^item> \<open>Blacklist\<close> (same file), \<open>RbTree\<close> (\<open>rbtree.c\<close>): the list of files without backup, and its tree on an explicit heap.
    \<open>Rb_Model\<close>, \<open>Rb_Heap\<close>, \<open>Rb_Insert\<close>, \<open>Rb_Correct\<close> prove the top-down insertion correct: trees with
    addresses and a zipper, what flips and rotations do on the heap, the invariant in three phases,
    termination by a weight. \<open>Blacklist_Set\<close> states what the blacklist needs of its container as the locale
    \<open>keyed_set\<close>, gets it from the tree by \<open>sublocale\<close>, and shows what \<open>pclBackupNeeded\<close> answers. \<open>Rb_Walk\<close> and \<open>Rb_Erase\<close>
    hold the functions of \<open>rbtree.c\<close> that are switched off: the traversal visits every item once and in order within
    its array of 256 entries, the release frees every node once. \<open>Rb_Remove\<close> proves the top-down removal correct: the loop
    pushes a red node down (rotation, colour flip, borrowing from the sibling), so that the last node is a red leaf.
  \<^item> \<open>File_Api\<close> (\<open>pcl_file.c\<close>): the file API; \<open>File_Safety\<close>: an open file, its writes, the protection of its content.
  \<^item> \<open>Pas_Interface\<close>, \<open>Lc_Interface\<close> (\<open>pcl_pas_interface.c\<close>, \<open>pcl_lc_interface.c\<close>): lock counter, requests, registration;
    \<open>Admin_Request\<close>: a block request from the message to the completion, what it refuses, and the release.
  \<^item> \<open>Dbus_Cmd\<close> (\<open>pcl_dbus_cmd.c\<close>), \<open>Poll_Table\<close>, \<open>Dbus_Service\<close>, \<open>Main_Loop\<close> (\<open>pcl_dbus_service.c\<close>): commands, poll table
    refined to a list, dispatch, the loop; \<open>Notification\<close>: from one process to the callback of another.
  \<^item> \<open>Handshake\<close> (\<open>pcl_dbus_service.c\<close>): the threads in \<open>deliverToMainloop\<close> and the main loop with their two mutexes and the
    condition variable, as step relations \<open>caller_step\<close> and \<open>loop_step\<close>: who is woken when, and what can go wrong.
  \<^item> \<open>Startup\<close> (\<open>persistence_client_library.c\<close>, \<open>pcl_dbus_service.c\<close>): the same for the start and the end of a session:
    \<open>setup_step\<close>, \<open>service_step\<close> and \<open>quit_step\<close> of the client, \<open>thread_step\<close> of the main loop's thread; \<open>must_return\<close> says that
    all schedules come to an end.
  \<^item> \<open>Lifecycle\<close> (\<open>persistence_client_library.c\<close>): initialisation, deinitialisation, \<open>pclLifecycleSet\<close>; \<open>Shutdown\<close>: what a
    shutdown closes, keeps and loses, and the counting of initialisations.
  \<^item> \<open>Tool\<close> (\<open>persclient_tool\<close>): the command line tool, which accepts none of the actions its help text offers.
  \<^item> \<open>Data_Invariant\<close>, \<open>Fs_Invariant\<close>, \<open>Reachable\<close>: the library as a whole. \<open>lib_step\<close> has one rule for every function of
    the interface, the messages and the commands; \<open>state_ok\<close> holds in every reachable state. What the
    operations on data owe to such an invariant is the locale \<open>data_invariant\<close>.

  \<^bold>\<open>What the properties show.\<close> Data: what is written under a key is read back and no other key changes
  (\<open>key_write_read\<close>, \<open>key_isolation\<close>); whole sequences of calls, by name and by handle, answer as two maps do
  (\<open>key_api_refines_map\<close>); defaults are used when nothing is stored. Files: opening decides
  by the contents of file, backup and checksum; writes cannot lose the content a file had when opened; only
  \<open>pclFileClose\<close> commits them (\<open>shutdown_discards_writes\<close>). Handles: the pool gives no number twice.
  Checksum: equal to the reference, detects a changed byte. Tree: insertion, search and removal are those of a set
  with keys. Main loop: commands in order, \<open>CMD_QUIT\<close> ends it; shutdown requests are served; a block request is
  carried out and undone; no signal of the handshake is
  lost, but a caller may return early and a callback can deadlock. Start and end of a session: every schedule returns
  exactly when no wait wakes up by itself and the main loop's set-up does not fail before a registration.
  Life cycle: sessions count, the first lock after the
  initialisation is void. Guards and error codes of every API function. The
  whole: in every reachable state the tables and the pipe are well formed, the main loop can carry out
  every command, and the last deinitialisation ends it. Several
  properties state behaviour that its authors can hardly have meant; the manifest lists it as findings.

  \<^bold>\<open>Bounds and fuel.\<close> Loops over tables run over their index lists. \<open>mainLoop\<close> runs over the list of the
  system's answers; the inner loop \<open>loop_entries\<close> has eleven steps, one more than the poll table has entries,
  so that running out means having left the table. The path components that \<open>pclCreateFile\<close> keeps are 24, as in
  the source. \<open>rbfind_loop\<close>, \<open>rbinsert_loop\<close> and \<open>rberase_loop\<close> are \<open>partial_function\<close>s; that they end is part of
  \<open>rbtree_insert_find\<close> and \<open>rbtree_erase\<close>. The blacklist property is for fewer than 254 names: the table has 255 entries, and the loop
  needs an empty one behind the last.

  \<^bold>\<open>Not modelled.\<close> The build is the default one: no file cache (\<open>USE_FILECACHE\<close>); whether the administration
  interface is built in is a parameter. Logging and lack of memory inside libdbus have no state. In the record
  \<open>pcl\<close> the mutexes of the handle tables are only their return codes, and concurrency between the main
  loop and the callers is the order of the steps; the mutexes and the condition variable of the
  delivery are modelled apart, in \<open>Handshake\<close>, where the contents of the commands do not matter, and those of the start of
  the thread and of the wait for the reply of the administration service in \<open>Startup\<close>; in \<open>pcl\<close> these are single steps,
  \<open>setup_dbus_mainloop\<close> then takes the set-up of the loop to succeed, and \<open>Startup\<close> shows what happens when it does not.
  A second main loop beside a running one (after a refused registration) is not followed.
  \<open>key_val_rel\<close> is never called. The tests and mock services are test code.
\<close>

end
